(* ===== verification/Prelude.thy ===== *)
theory Prelude
  imports Main "HOL-Library.Word" "HOL-Library.Monad_Syntax"
begin

text \<open>
  Shared vocabulary of the development.

  \<^item> Machine integers are words: \<open>u8\<close>, \<open>u16\<close>, \<open>u32\<close>, \<open>u64\<close> are the unsigned Rust types; a
    Rust \<open>i32\<close> is the same word read with \<^const>\<open>sint\<close>. Word \<open>+\<close>, \<open>-\<close>, \<open>*\<close> wrap, as Rust's
    \<open>wrapping_add\<close>, \<open>wrapping_sub\<close> and \<open>wrapping_mul\<close> do. \<open>usize\<close> values are \<^typ>\<open>nat\<close>.
  \<^item> A Rust panic aborts the program, so an operation that may panic returns an \<open>option\<close>, with
    \<open>None\<close> for the panic; \<open>do\<close> blocks over \<open>option\<close> are the sequencing of the code.
  \<^item> A fixed-size array \<open>[T; N]\<close> is a function on indices, always accessed through \<open>idx\<close> and
    \<open>upd\<close>, which check the bound \<open>N\<close> as Rust does. A \<open>Vec\<close> carries its length.
  \<^item> The collections \<open>width_simps\<close> (bounds of bit fields), \<open>mem_simps\<close> (facts that run the memory
    operations) and \<open>exec_simps\<close> (facts that run the instruction handlers) carry the proofs of the
    components.
\<close>

unbundle bit_operations_syntax

named_theorems width_simps \<open>bounds of masked and shifted fields\<close>
named_theorems mem_simps \<open>total behaviour of the memory operations\<close>
named_theorems exec_simps \<open>unfolding of the instruction handlers\<close>

section \<open>Machine integers\<close>

type_synonym u8 = "8 word"
type_synonym u16 = "16 word"
type_synonym u32 = "32 word"
type_synonym u64 = "64 word"
type_synonym i16 = "16 word"
type_synonym i32 = "32 word"
type_synonym i64 = "64 word"

abbreviation u32_max :: u32 where
  "u32_max \<equiv> 0xFFFFFFFF"

section \<open>Little-endian byte order\<close>

text \<open>Rust's \<open>to_le_bytes\<close> and \<open>from_le_bytes\<close> for two and four bytes.\<close>

definition le_byte :: "nat \<Rightarrow> 'a::len word \<Rightarrow> u8" where
  "le_byte k w = ucast (drop_bit (8 * k) w)"

definition from_le_bytes2 :: "u8 \<Rightarrow> u8 \<Rightarrow> u16" where
  "from_le_bytes2 b0 b1 = ucast b0 OR push_bit 8 (ucast b1)"

definition from_le_bytes4 :: "u8 \<Rightarrow> u8 \<Rightarrow> u8 \<Rightarrow> u8 \<Rightarrow> u32" where
  "from_le_bytes4 b0 b1 b2 b3 =
     ucast b0 OR push_bit 8 (ucast b1) OR push_bit 16 (ucast b2) OR push_bit 24 (ucast b3)"

lemma from_le_bytes2_le_byte [simp]: "from_le_bytes2 (le_byte 0 w) (le_byte (Suc 0) w) = w"
  by (rule bit_word_eqI) (auto simp: from_le_bytes2_def le_byte_def bit_simps)

lemma from_le_bytes4_le_byte [simp]:
  "from_le_bytes4 (le_byte 0 w) (le_byte (Suc 0) w) (le_byte 2 w) (le_byte 3 w) = w"
proof (rule bit_word_eqI)
  fix n :: nat
  assume "n < LENGTH(32)"
  then consider "n < 8" | "8 \<le> n" "n < 16" | "16 \<le> n" "n < 24" | "24 \<le> n" "n < 32"
    by fastforce
  then show "bit (from_le_bytes4 (le_byte 0 w) (le_byte (Suc 0) w) (le_byte 2 w) (le_byte 3 w)) n
      = bit w n"
    by cases (auto simp: from_le_bytes4_def le_byte_def bit_simps)
qed

lemma le_byte_from_le_bytes2 [simp]:
  "le_byte 0 (from_le_bytes2 b0 b1) = b0" "le_byte (Suc 0) (from_le_bytes2 b0 b1) = b1"
  by (rule bit_word_eqI,
      auto simp: from_le_bytes2_def le_byte_def bit_simps dest: bit_imp_le_length)+

lemma le_byte_from_le_bytes4 [simp]:
  "le_byte 0 (from_le_bytes4 b0 b1 b2 b3) = b0"
  "le_byte (Suc 0) (from_le_bytes4 b0 b1 b2 b3) = b1"
  "le_byte 2 (from_le_bytes4 b0 b1 b2 b3) = b2"
  "le_byte 3 (from_le_bytes4 b0 b1 b2 b3) = b3"
  by (rule bit_word_eqI,
      auto simp: from_le_bytes4_def le_byte_def bit_simps dest: bit_imp_le_length)+

text \<open>The low halfword of an assembled word.\<close>

lemma ucast_from_le_bytes4 [simp]: "(ucast (from_le_bytes4 b0 b1 b2 b3) :: u16) = from_le_bytes2 b0 b1"
  by (rule bit_word_eqI)
     (auto simp: from_le_bytes4_def from_le_bytes2_def bit_simps dest: bit_imp_le_length)

lemma ucast_ucast_u16_u32 [simp]: "(ucast (ucast (w :: u16) :: u32) :: u16) = w"
  by (rule bit_word_eqI) (auto simp: bit_simps)

section \<open>Fixed-size arrays and vectors\<close>

type_synonym 'a array = "nat \<Rightarrow> 'a"
type_synonym 'a vec = "nat \<times> (nat \<Rightarrow> 'a)"

definition idx :: "nat \<Rightarrow> 'a array \<Rightarrow> nat \<Rightarrow> 'a option" where
  "idx N a i = (if i < N then Some (a i) else None)"

definition upd :: "nat \<Rightarrow> 'a array \<Rightarrow> nat \<Rightarrow> 'a \<Rightarrow> 'a array option" where
  "upd N a i v = (if i < N then Some (a(i := v)) else None)"

definition vec_get :: "'a vec \<Rightarrow> nat \<Rightarrow> 'a option" where
  "vec_get v i = idx (fst v) (snd v) i"

definition vec_set :: "'a vec \<Rightarrow> nat \<Rightarrow> 'a \<Rightarrow> 'a vec option" where
  "vec_set v i x = map_option (Pair (fst v)) (upd (fst v) (snd v) i x)"

lemma idx_in [simp]: "i < N \<Longrightarrow> idx N a i = Some (a i)"
  by (simp add: idx_def)

lemma idx_out [simp]: "N \<le> i \<Longrightarrow> idx N a i = None"
  by (simp add: idx_def)

lemma upd_in [simp]: "i < N \<Longrightarrow> upd N a i v = Some (a(i := v))"
  by (simp add: upd_def)

lemma upd_out [simp]: "N \<le> i \<Longrightarrow> upd N a i v = None"
  by (simp add: upd_def)

lemma vec_get_in [simp]: "i < fst v \<Longrightarrow> vec_get v i = Some (snd v i)"
  by (simp add: vec_get_def)

lemma vec_set_in [simp]: "i < fst v \<Longrightarrow> vec_set v i x = Some (fst v, (snd v)(i := x))"
  by (simp add: vec_set_def)

text \<open>Slices: \<open>&xs[lo..lo + n]\<close> and \<open>xs[lo..lo + n].copy_from_slice(ys)\<close>, which panic out of range.\<close>

definition slice :: "'a list \<Rightarrow> nat \<Rightarrow> nat \<Rightarrow> 'a list option" where
  "slice xs lo n = (if lo + n \<le> length xs then Some (take n (drop lo xs)) else None)"

definition put_slice :: "'a list \<Rightarrow> nat \<Rightarrow> 'a list \<Rightarrow> 'a list option" where
  "put_slice xs lo ys =
     (if lo + length ys \<le> length xs then Some (take lo xs @ ys @ drop (lo + length ys) xs) else None)"

definition array_slice :: "nat \<Rightarrow> 'a array \<Rightarrow> nat \<Rightarrow> nat \<Rightarrow> 'a list option" where
  "array_slice N a lo n = (if lo + n \<le> N then Some (map a [lo..<lo + n]) else None)"

definition array_put_slice :: "nat \<Rightarrow> 'a array \<Rightarrow> nat \<Rightarrow> 'a list \<Rightarrow> 'a array option" where
  "array_put_slice N a lo ys =
     (if lo + length ys \<le> N
      then Some (\<lambda>i. if lo \<le> i \<and> i < lo + length ys then ys ! (i - lo) else a i) else None)"

section \<open>Words\<close>

lemma less_not_ge [simp]: "(a::'a::len word) < b \<Longrightarrow> \<not> b \<le> a"
  by simp

lemma unat_and_le: "unat ((w::'a::len word) AND m) \<le> unat m"
  by (meson word_and_le1 word_le_nat_alt)

text \<open>A masked value is below any bound on the mask.\<close>

lemma unat_and_less: "unat m < k \<Longrightarrow> unat ((w::'a::len word) AND m) < k"
  by (rule le_less_trans [OF unat_and_le])

lemma unat_plus_1: "(a::'a::len word) < b \<Longrightarrow> unat (a + 1) = Suc (unat a)"
proof -
  assume "a < b"
  then have "unat a < unat b" by (simp add: word_less_nat_alt)
  moreover have "unat b < 2 ^ LENGTH('a)" by (rule unsigned_less)
  ultimately have "unat a + 1 < 2 ^ LENGTH('a)" by linarith
  then show ?thesis by (simp add: unat_word_ariths)
qed

text \<open>Equality of words bit by bit, with every bit position a numeral that the simplifier evaluates.\<close>

lemma word32_eqI:
  fixes a b :: u32
  shows "bit a 0 = bit b 0 \<Longrightarrow> bit a 1 = bit b 1 \<Longrightarrow> bit a 2 = bit b 2 \<Longrightarrow> bit a 3 = bit b 3 \<Longrightarrow>
    bit a 4 = bit b 4 \<Longrightarrow> bit a 5 = bit b 5 \<Longrightarrow> bit a 6 = bit b 6 \<Longrightarrow> bit a 7 = bit b 7 \<Longrightarrow>
    bit a 8 = bit b 8 \<Longrightarrow> bit a 9 = bit b 9 \<Longrightarrow> bit a 10 = bit b 10 \<Longrightarrow> bit a 11 = bit b 11 \<Longrightarrow>
    bit a 12 = bit b 12 \<Longrightarrow> bit a 13 = bit b 13 \<Longrightarrow> bit a 14 = bit b 14 \<Longrightarrow> bit a 15 = bit b 15 \<Longrightarrow>
    bit a 16 = bit b 16 \<Longrightarrow> bit a 17 = bit b 17 \<Longrightarrow> bit a 18 = bit b 18 \<Longrightarrow> bit a 19 = bit b 19 \<Longrightarrow>
    bit a 20 = bit b 20 \<Longrightarrow> bit a 21 = bit b 21 \<Longrightarrow> bit a 22 = bit b 22 \<Longrightarrow> bit a 23 = bit b 23 \<Longrightarrow>
    bit a 24 = bit b 24 \<Longrightarrow> bit a 25 = bit b 25 \<Longrightarrow> bit a 26 = bit b 26 \<Longrightarrow> bit a 27 = bit b 27 \<Longrightarrow>
    bit a 28 = bit b 28 \<Longrightarrow> bit a 29 = bit b 29 \<Longrightarrow> bit a 30 = bit b 30 \<Longrightarrow> bit a 31 = bit b 31 \<Longrightarrow> a = b"
  by (rule bit_word_eqI) (simp add: numeral_eq_Suc less_Suc_eq, elim disjE, simp_all)

lemma word16_eqI:
  fixes a b :: u16
  shows "bit a 0 = bit b 0 \<Longrightarrow> bit a 1 = bit b 1 \<Longrightarrow> bit a 2 = bit b 2 \<Longrightarrow> bit a 3 = bit b 3 \<Longrightarrow>
    bit a 4 = bit b 4 \<Longrightarrow> bit a 5 = bit b 5 \<Longrightarrow> bit a 6 = bit b 6 \<Longrightarrow> bit a 7 = bit b 7 \<Longrightarrow>
    bit a 8 = bit b 8 \<Longrightarrow> bit a 9 = bit b 9 \<Longrightarrow> bit a 10 = bit b 10 \<Longrightarrow> bit a 11 = bit b 11 \<Longrightarrow>
    bit a 12 = bit b 12 \<Longrightarrow> bit a 13 = bit b 13 \<Longrightarrow> bit a 14 = bit b 14 \<Longrightarrow> bit a 15 = bit b 15 \<Longrightarrow> a = b"
  by (rule bit_word_eqI) (simp add: numeral_eq_Suc less_Suc_eq, elim disjE, simp_all)

lemma Suc_Suc_0_eq [bit_simps]: "Suc (Suc 0) = 2"
  by simp

lemma bit_times_2 [bit_simps]: "bit (x * 2 :: 'a::len word) n \<longleftrightarrow> n < LENGTH('a) \<and> n \<noteq> 0 \<and> bit x (n - 1)"
  by (auto simp: mult.commute [of x] bit_simps)

lemma not_bit_nat:
  assumes "k < 2 ^ m" and "m \<le> n"
  shows "\<not> bit (k::nat) n"
proof -
  have "(2::nat) ^ m \<le> 2 ^ n"
    using assms by (intro power_increasing) auto
  with assms have "k < 2 ^ n" by linarith
  then show ?thesis by (simp add: bit_iff_odd)
qed

lemma not_bit_word: "unat (w::'a::len word) < 2 ^ m \<Longrightarrow> m \<le> n \<Longrightarrow> \<not> bit w n"
  using not_bit_nat [of "unat w" m n] by (simp add: bit_unsigned_iff bit_imp_le_length)

end
