(* ===== verification/Inst.thy ===== *)
theory Inst
  imports Prelude
begin

text \<open>
  The decoder: \<open>src/utils.rs\<close> (\<open>shift_then_mask\<close>) and \<open>src/inst.rs\<close> (major opcodes,
  \<open>DecodedInst32\<close>, \<open>DecodedInst16\<close>, the immediate extractors).
\<close>

section \<open>Field extraction\<close>

definition shift_then_mask :: "'a::len word \<Rightarrow> nat \<Rightarrow> 'a word \<Rightarrow> 'a word" where
  "shift_then_mask val sh msk = drop_bit sh val AND msk"

lemma shift_then_mask_less [width_simps]:
  "unat msk < k \<Longrightarrow> unat (shift_then_mask val sh msk) < k"
  by (simp add: shift_then_mask_def unat_and_less)

section \<open>Major opcodes\<close>

definition OP_LUI :: u8 where [simp]: "OP_LUI = 0x37"
definition OP_AUIPC :: u8 where [simp]: "OP_AUIPC = 0x17"
definition OP_JAL :: u8 where [simp]: "OP_JAL = 0x6F"
definition OP_JALR :: u8 where [simp]: "OP_JALR = 0x67"
definition OP_BRANCH :: u8 where [simp]: "OP_BRANCH = 0x63"
definition OP_LOAD :: u8 where [simp]: "OP_LOAD = 0x03"
definition OP_STORE :: u8 where [simp]: "OP_STORE = 0x23"
definition OP_IMM :: u8 where [simp]: "OP_IMM = 0x13"
definition OP_OP :: u8 where [simp]: "OP_OP = 0x33"
definition OP_MISC_MEM :: u8 where [simp]: "OP_MISC_MEM = 0x0F"
definition OP_SYSTEM :: u8 where [simp]: "OP_SYSTEM = 0x73"
definition OP_AMO :: u8 where [simp]: "OP_AMO = 0x2F"
definition OP_LOAD_FP :: u8 where [simp]: "OP_LOAD_FP = 0x07"
definition OP_STORE_FP :: u8 where [simp]: "OP_STORE_FP = 0x27"
definition OP_MADD :: u8 where [simp]: "OP_MADD = 0x43"
definition OP_MSUB :: u8 where [simp]: "OP_MSUB = 0x47"
definition OP_NMSUB :: u8 where [simp]: "OP_NMSUB = 0x4B"
definition OP_NMADD :: u8 where [simp]: "OP_NMADD = 0x4F"
definition OP_OP_FP :: u8 where [simp]: "OP_OP_FP = 0x53"

section \<open>32-bit instructions\<close>

record DecodedInst32 =
  d_raw :: u32
  d_opcode :: u8
  d_rd :: nat
  d_rs1 :: nat
  d_rs2 :: nat
  d_rs3 :: nat
  d_funct3 :: u8
  d_funct7 :: u8

definition decode32 :: "u32 \<Rightarrow> DecodedInst32" where
  "decode32 inst =
     \<lparr>d_raw = inst,
      d_opcode = ucast (inst AND 0x7F),
      d_rd = unat (shift_then_mask inst 7 0x1F),
      d_rs1 = unat (shift_then_mask inst 15 0x1F),
      d_rs2 = unat (shift_then_mask inst 20 0x1F),
      d_rs3 = unat (shift_then_mask inst 27 0x1F),
      d_funct3 = ucast (shift_then_mask inst 12 0x7),
      d_funct7 = ucast (shift_then_mask inst 25 0x7F)\<rparr>"

definition i_imm :: "DecodedInst32 \<Rightarrow> i32" where
  "i_imm d = signed_drop_bit 20 (d_raw d)"

definition s_imm :: "DecodedInst32 \<Rightarrow> i32" where
  "s_imm d =
     (let imm11_5 = shift_then_mask (d_raw d) 25 0x7F;
          imm4_0 = shift_then_mask (d_raw d) 7 0x1F;
          raw_s = push_bit 5 imm11_5 OR imm4_0
      in signed_drop_bit 20 (push_bit 20 raw_s))"

definition b_imm :: "DecodedInst32 \<Rightarrow> i32" where
  "b_imm d =
     (let imm12 = shift_then_mask (d_raw d) 31 1;
          imm10_5 = shift_then_mask (d_raw d) 25 0x3F;
          imm4_1 = shift_then_mask (d_raw d) 8 0xF;
          imm11 = shift_then_mask (d_raw d) 7 1;
          offset = push_bit 12 imm12 OR push_bit 11 imm11 OR push_bit 5 imm10_5 OR push_bit 1 imm4_1
      in signed_drop_bit 19 (push_bit 19 offset))"

definition u_imm :: "DecodedInst32 \<Rightarrow> u32" where
  "u_imm d = d_raw d AND 0xFFFFF000"

definition j_imm :: "DecodedInst32 \<Rightarrow> i32" where
  "j_imm d =
     (let imm20 = shift_then_mask (d_raw d) 31 1;
          imm10_1 = shift_then_mask (d_raw d) 21 0x3FF;
          imm11 = shift_then_mask (d_raw d) 20 1;
          imm19_12 = shift_then_mask (d_raw d) 12 0xFF;
          offset = push_bit 20 imm20 OR push_bit 12 imm19_12 OR push_bit 11 imm11 OR push_bit 1 imm10_1
      in signed_drop_bit 11 (push_bit 11 offset))"

section \<open>16-bit instructions\<close>

record DecodedInst16 =
  h_raw :: u16
  h_op :: u8
  h_funct3 :: u8

definition decode16 :: "u16 \<Rightarrow> DecodedInst16" where
  "decode16 inst =
     \<lparr>h_raw = inst, h_op = ucast (inst AND 0x3), h_funct3 = ucast (shift_then_mask inst 13 0x7)\<rparr>"

section \<open>Register fields are in range\<close>

lemma decode32_regs [simp]:
  "d_rd (decode32 w) < 32" "d_rs1 (decode32 w) < 32" "d_rs2 (decode32 w) < 32" "d_rs3 (decode32 w) < 32"
  by (simp_all add: decode32_def width_simps)

lemma d_raw_decode32 [simp]: "d_raw (decode32 w) = w"
  by (simp add: decode32_def)

text \<open>An opcode whose two low bits are set marks a 32-bit instruction, and only those are decoded here.\<close>

lemma bit_shift_then_mask [bit_simps]:
  "bit (shift_then_mask (w::'a::len word) sh msk) n \<longleftrightarrow> bit w (sh + n) \<and> bit msk n"
  by (auto simp: shift_then_mask_def bit_simps)

end
