(* ===== verification/Byte_Memory.thy ===== *)
theory Byte_Memory
  imports Prelude
begin

text \<open>
  The trait \<open>MemoryOps\<close> of \<open>src/memory.rs\<close>: its default methods, which assemble every wider access from
  \<open>read_u8\<close> and \<open>write_u8\<close>, and its contract.

  A read may call the host (memory-mapped devices), so it takes and returns the host state; it does
  not change the memory. A write returns both. \<open>None\<close> is a panic.

  The locale \<open>byte_memory\<close> states what an implementation of the two byte operations promises on
  ordinary memory: a read returns the byte of an abstract view and a write updates one byte of it.
  The behaviour of the default methods and their round trips are proved from that alone.
\<close>

section \<open>The default methods\<close>

type_synonym ('m, 'h) rd8 = "u32 \<Rightarrow> 'm \<Rightarrow> 'h \<Rightarrow> (u8 \<times> 'h) option"
type_synonym ('m, 'h) wr8 = "u32 \<Rightarrow> u8 \<Rightarrow> 'm \<Rightarrow> 'h \<Rightarrow> ('m \<times> 'h) option"

definition default_read_u16 :: "('m, 'h) rd8 \<Rightarrow> u32 \<Rightarrow> 'm \<Rightarrow> 'h \<Rightarrow> (u16 \<times> 'h) option" where
  "default_read_u16 rd addr m h = do {
     (b0, h) \<leftarrow> rd addr m h;
     (b1, h) \<leftarrow> rd (addr + 1) m h;
     Some (ucast b0 OR push_bit 8 (ucast b1), h)
   }"

definition default_write_u16 :: "('m, 'h) wr8 \<Rightarrow> u32 \<Rightarrow> u16 \<Rightarrow> 'm \<Rightarrow> 'h \<Rightarrow> ('m \<times> 'h) option" where
  "default_write_u16 wr addr val m h = do {
     (m, h) \<leftarrow> wr addr (le_byte 0 val) m h;
     wr (addr + 1) (le_byte 1 val) m h
   }"

definition default_read_u32 :: "('m, 'h) rd8 \<Rightarrow> u32 \<Rightarrow> 'm \<Rightarrow> 'h \<Rightarrow> (u32 \<times> 'h) option" where
  "default_read_u32 rd addr m h = do {
     (b0, h) \<leftarrow> rd addr m h;
     (b1, h) \<leftarrow> rd (addr + 1) m h;
     (b2, h) \<leftarrow> rd (addr + 2) m h;
     (b3, h) \<leftarrow> rd (addr + 3) m h;
     Some (ucast b0 OR push_bit 8 (ucast b1) OR push_bit 16 (ucast b2) OR push_bit 24 (ucast b3), h)
   }"

definition default_write_u32 :: "('m, 'h) wr8 \<Rightarrow> u32 \<Rightarrow> u32 \<Rightarrow> 'm \<Rightarrow> 'h \<Rightarrow> ('m \<times> 'h) option" where
  "default_write_u32 wr addr val m h = do {
     (m, h) \<leftarrow> wr addr (le_byte 0 val) m h;
     (m, h) \<leftarrow> wr (addr + 1) (le_byte 1 val) m h;
     (m, h) \<leftarrow> wr (addr + 2) (le_byte 2 val) m h;
     wr (addr + 3) (le_byte 3 val) m h
   }"

text \<open>The loops \<open>for (i, item) in buf.iter_mut().enumerate()\<close> and \<open>for (i, &b) in bytes.iter().enumerate()\<close>.\<close>

fun read_each :: "('m, 'h) rd8 \<Rightarrow> u32 \<Rightarrow> nat \<Rightarrow> nat \<Rightarrow> 'm \<Rightarrow> 'h \<Rightarrow> (u8 list \<times> 'h) option" where
  "read_each rd addr i 0 m h = Some ([], h)"
| "read_each rd addr i (Suc n) m h = do {
     (b, h) \<leftarrow> rd (addr + word_of_nat i) m h;
     (bs, h) \<leftarrow> read_each rd addr (Suc i) n m h;
     Some (b # bs, h)
   }"

fun write_each :: "('m, 'h) wr8 \<Rightarrow> u32 \<Rightarrow> nat \<Rightarrow> u8 list \<Rightarrow> 'm \<Rightarrow> 'h \<Rightarrow> ('m \<times> 'h) option" where
  "write_each wr addr i [] m h = Some (m, h)"
| "write_each wr addr i (b # bs) m h = do {
     (m, h) \<leftarrow> wr (addr + word_of_nat i) b m h;
     write_each wr addr (Suc i) bs m h
   }"

definition default_read_bytes :: "('m, 'h) rd8 \<Rightarrow> u32 \<Rightarrow> nat \<Rightarrow> 'm \<Rightarrow> 'h \<Rightarrow> (u8 list \<times> 'h) option" where
  "default_read_bytes rd addr len m h = read_each rd addr 0 len m h"

definition default_write_bytes :: "('m, 'h) wr8 \<Rightarrow> u32 \<Rightarrow> u8 list \<Rightarrow> 'm \<Rightarrow> 'h \<Rightarrow> ('m \<times> 'h) option" where
  "default_write_bytes wr addr bytes m h = write_each wr addr 0 bytes m h"

definition default_fetch_window :: "('m, 'h) rd8 \<Rightarrow> u32 \<Rightarrow> 'm \<Rightarrow> 'h \<Rightarrow> ((u32 \<times> bool) \<times> 'h) option" where
  "default_fetch_window rd addr m h = do {
     (w, h) \<leftarrow> default_read_u32 rd addr m h;
     Some ((w, True), h)
   }"

definition default_get_brk :: "'m \<Rightarrow> u32" where
  "default_get_brk m = 0"

definition default_set_brk :: "u32 \<Rightarrow> 'm \<Rightarrow> 'm" where
  "default_set_brk val m = m"

text \<open>The loop counter only shifts the base address.\<close>

lemma read_each_shift: "read_each rd addr (j + i) n m h = read_each rd (addr + word_of_nat j) i n m h"
proof (induction n arbitrary: i h)
  case (Suc n)
  then show ?case
    using Suc.IH [of "Suc i"] by (simp add: add.assoc)
qed simp

lemma read_each_add:
  "read_each rd addr i (k + n) m h = do {
     (xs, h) \<leftarrow> read_each rd addr i k m h;
     (ys, h) \<leftarrow> read_each rd addr (i + k) n m h;
     Some (xs @ ys, h)
   }"
proof (induction k arbitrary: i h)
  case 0
  then show ?case by (cases "read_each rd addr i n m h") auto
next
  case (Suc k)
  then show ?case
    by (auto split: Option.bind_split)
qed

lemma length_read_each: "read_each rd addr i n m h = Some (bs, h') \<Longrightarrow> length bs = n"
proof (induction n arbitrary: i h bs)
  case (Suc n)
  then show ?case by (auto simp: bind_eq_Some_conv)
qed simp

lemma write_each_shift: "write_each wr addr (j + i) bs m h = write_each wr (addr + word_of_nat j) i bs m h"
proof (induction bs arbitrary: i m h)
  case (Cons b bs)
  then show ?case
    by (auto simp: add.assoc Cons.IH [of "Suc i", simplified] intro!: Option.bind_cong)
qed simp

lemma read_each_base: "read_each rd (addr + word_of_nat j) 0 n m h = read_each rd addr j n m h"
  using read_each_shift [of rd addr j 0] by simp

lemma write_each_base: "write_each wr (addr + word_of_nat j) 0 bs m h = write_each wr addr j bs m h"
  using write_each_shift [of wr addr j 0] by simp

lemma write_each_append:
  "write_each wr addr i (xs @ ys) m h = do {
     (m, h) \<leftarrow> write_each wr addr i xs m h;
     write_each wr addr (i + length xs) ys m h
   }"
  by (induction xs arbitrary: i m h) (auto split: Option.bind_split)

section \<open>The contract\<close>

text \<open>The view after \<open>bytes\<close> have been stored from \<open>addr\<close> on, with wrapping addresses.\<close>

fun store_bytes :: "(u32 \<Rightarrow> u8) \<Rightarrow> u32 \<Rightarrow> u8 list \<Rightarrow> (u32 \<Rightarrow> u8)" where
  "store_bytes v addr [] = v"
| "store_bytes v addr (b # bs) = store_bytes (v(addr := b)) (addr + 1) bs"

lemma store_bytes_other:
  "(\<And>k. k < length bs \<Longrightarrow> a \<noteq> addr + word_of_nat k) \<Longrightarrow> store_bytes v addr bs a = v a"
proof (induction bs arbitrary: v addr)
  case (Cons b bs)
  have "a \<noteq> addr" using Cons.prems [of 0] by simp
  moreover have "a \<noteq> addr + 1 + word_of_nat k" if "k < length bs" for k
    using Cons.prems [of "Suc k"] that by (simp add: ac_simps)
  ultimately show ?case using Cons.IH [of "addr + 1"] by simp
qed simp

lemma addr_offset_inj:
  "i < 2 ^ 32 \<Longrightarrow> j < 2 ^ 32 \<Longrightarrow> (addr :: u32) + word_of_nat i = addr + word_of_nat j \<Longrightarrow> i = j"
  by (simp add: word_of_nat_eq_iff take_bit_nat_eq_self)

lemma store_bytes_at:
  "length bs \<le> 2 ^ 32 \<Longrightarrow> k < length bs \<Longrightarrow> store_bytes v addr bs (addr + word_of_nat k) = bs ! k"
proof (induction bs arbitrary: v addr k)
  case (Cons b bs)
  show ?case
  proof (cases k)
    case 0
    have "addr \<noteq> addr + 1 + word_of_nat j" if "j < length bs" for j
      using addr_offset_inj [of 0 "Suc j" addr] that Cons.prems by (auto simp: add.assoc)
    with 0 show ?thesis by (simp add: store_bytes_other)
  next
    case (Suc j)
    then have "addr + word_of_nat k = (addr + 1) + word_of_nat j"
      by (simp add: add.assoc)
    moreover have "store_bytes (v(addr := b)) (addr + 1) bs (addr + 1 + word_of_nat j) = bs ! j"
      by (rule Cons.IH) (use Cons.prems Suc in auto)
    ultimately show ?thesis using Suc by (simp only: store_bytes.simps nth_Cons_Suc)
  qed
qed simp

locale byte_memory =
  fixes rd8 :: "('m, 'h) rd8"
    and wr8 :: "('m, 'h) wr8"
    and is_ram :: "u32 \<Rightarrow> bool"
    and view :: "'m \<Rightarrow> u32 \<Rightarrow> u8"
    and inv :: "'m \<Rightarrow> bool"
  assumes rd8_ram: "inv m \<Longrightarrow> is_ram a \<Longrightarrow> rd8 a m h = Some (view m a, h)"
    and wr8_ram: "inv m \<Longrightarrow> is_ram a \<Longrightarrow>
      \<exists>m'. wr8 a v m h = Some (m', h) \<and> inv m' \<and> view m' = (view m)(a := v)"
begin

lemma read_u16_view:
  "inv m \<Longrightarrow> is_ram a \<Longrightarrow> is_ram (a + 1) \<Longrightarrow>
     default_read_u16 rd8 a m h = Some (from_le_bytes2 (view m a) (view m (a + 1)), h)"
  by (simp add: default_read_u16_def rd8_ram from_le_bytes2_def)

lemma read_u32_view:
  "inv m \<Longrightarrow> is_ram a \<Longrightarrow> is_ram (a + 1) \<Longrightarrow> is_ram (a + 2) \<Longrightarrow> is_ram (a + 3) \<Longrightarrow>
     default_read_u32 rd8 a m h =
       Some (from_le_bytes4 (view m a) (view m (a + 1)) (view m (a + 2)) (view m (a + 3)), h)"
  by (simp add: default_read_u32_def rd8_ram from_le_bytes4_def)

lemma read_each_view:
  "inv m \<Longrightarrow> (\<And>k. k < n \<Longrightarrow> is_ram (a + word_of_nat (i + k))) \<Longrightarrow>
     read_each rd8 a i n m h = Some (map (\<lambda>k. view m (a + word_of_nat k)) [i..<i + n], h)"
proof (induction n arbitrary: i)
  case (Suc n)
  have "is_ram (a + word_of_nat i)" using Suc.prems(2) [of 0] by simp
  moreover have "read_each rd8 a (Suc i) n m h
      = Some (map (\<lambda>k. view m (a + word_of_nat k)) [Suc i..<Suc i + n], h)"
    by (rule Suc.IH) (use Suc.prems(1) Suc.prems(2) [of "Suc _"] in auto)
  moreover have "[i..<i + Suc n] = i # [Suc i..<Suc i + n]"
    by (simp add: upt_conv_Cons)
  ultimately show ?case
    using Suc.prems(1) by (simp add: rd8_ram del: upt.simps)
qed simp

lemma write_each_view:
  "inv m \<Longrightarrow> (\<And>k. k < length bs \<Longrightarrow> is_ram (a + word_of_nat (i + k))) \<Longrightarrow>
     \<exists>m'. write_each wr8 a i bs m h = Some (m', h) \<and> inv m' \<and>
       view m' = store_bytes (view m) (a + word_of_nat i) bs"
proof (induction bs arbitrary: i m)
  case (Cons b bs)
  have "is_ram (a + word_of_nat i)" using Cons.prems(2) [of 0] by simp
  with Cons.prems(1) obtain m1 where
    m1: "wr8 (a + word_of_nat i) b m h = Some (m1, h)" "inv m1" "view m1 = (view m)(a + word_of_nat i := b)"
    using wr8_ram by blast
  have "\<exists>m'. write_each wr8 a (Suc i) bs m1 h = Some (m', h) \<and> inv m' \<and>
      view m' = store_bytes (view m1) (a + word_of_nat (Suc i)) bs"
    by (rule Cons.IH) (use m1 Cons.prems(2) [of "Suc _"] in auto)
  with m1 show ?case by (auto simp: ac_simps)
qed simp

text \<open>A multi-byte write is a sequence of byte writes.\<close>

lemma write_u16_bytes: "default_write_u16 wr8 a v m h = write_each wr8 a 0 [le_byte 0 v, le_byte 1 v] m h"
  by (auto simp: default_write_u16_def split: Option.bind_split)

lemma write_u32_bytes:
  "default_write_u32 wr8 a v m h =
     write_each wr8 a 0 [le_byte 0 v, le_byte 1 v, le_byte 2 v, le_byte 3 v] m h"
  by (auto simp: default_write_u32_def split: Option.bind_split)

lemma write_bytes_view:
  assumes "inv m" "\<And>k. k < length bs \<Longrightarrow> is_ram (a + word_of_nat k)"
  shows "\<exists>m'. default_write_bytes wr8 a bs m h = Some (m', h) \<and> inv m' \<and>
    view m' = store_bytes (view m) a bs"
  using write_each_view [of m bs a 0 h] assms by (simp add: default_write_bytes_def)

lemma write_u32_view:
  assumes "inv m" "is_ram a" "is_ram (a + 1)" "is_ram (a + 2)" "is_ram (a + 3)"
  shows "\<exists>m'. default_write_u32 wr8 a v m h = Some (m', h) \<and> inv m' \<and>
    view m' = store_bytes (view m) a [le_byte 0 v, le_byte 1 v, le_byte 2 v, le_byte 3 v]"
  unfolding write_u32_bytes default_write_bytes_def [symmetric]
  by (rule write_bytes_view) (use assms in \<open>auto simp: less_Suc_eq numeral_eq_Suc\<close>)

lemma read_bytes_view:
  assumes "inv m" "\<And>k. k < n \<Longrightarrow> is_ram (a + word_of_nat k)"
  shows "default_read_bytes rd8 a n m h = Some (map (\<lambda>k. view m (a + word_of_nat k)) [0..<n], h)"
  using read_each_view [of m n a 0 h] assms by (simp add: default_read_bytes_def)

lemma write_then_read_bytes:
  assumes "inv m" "length bs \<le> 2 ^ 32" "\<And>k. k < length bs \<Longrightarrow> is_ram (a + word_of_nat k)"
  shows "\<exists>m'. default_write_bytes wr8 a bs m h = Some (m', h) \<and> inv m' \<and>
    default_read_bytes rd8 a (length bs) m' h2 = Some (bs, h2)"
proof -
  obtain m' where m': "default_write_bytes wr8 a bs m h = Some (m', h)" "inv m'"
      "view m' = store_bytes (view m) a bs"
    using write_bytes_view assms by blast
  have "map (\<lambda>k. view m' (a + word_of_nat k)) [0..<length bs] = bs"
    using assms(2) by (intro nth_equalityI) (simp_all add: m' store_bytes_at)
  with m' assms(3) show ?thesis by (auto simp: read_bytes_view)
qed

lemma write_then_read_u32:
  assumes "inv m" "is_ram a" "is_ram (a + 1)" "is_ram (a + 2)" "is_ram (a + 3)"
  shows "\<exists>m'. default_write_u32 wr8 a v m h = Some (m', h) \<and> inv m' \<and>
    default_read_u32 rd8 a m' h2 = Some (v, h2)"
proof -
  obtain m' where m': "default_write_u32 wr8 a v m h = Some (m', h)" "inv m'"
      "view m' = store_bytes (view m) a [le_byte 0 v, le_byte 1 v, le_byte 2 v, le_byte 3 v]"
    using write_u32_view assms by blast
  then show ?thesis using assms by (auto simp: read_u32_view)
qed

end

end
