(* ===== verification/Host.thy ===== *)
theory Host
  imports Prelude
begin

text \<open>
  The host boundary, \<open>src/host_imports.rs\<close>.

  In the WebAssembly build every function of that file calls a JavaScript import of the same name.
  That code is not part of the repository, so the emulator is modelled over an arbitrary host: a
  record \<open>'h env\<close> of the host functions, each reading and updating a host state of type \<open>'h\<close>.
  Every call the emulator makes threads that state, so the order of host calls is visible.

  In the native build the same functions are the mocks of \<open>src/host_imports.rs\<close>; they are modelled
  in full by \<open>native_host\<close> below and packed into the environment \<open>native_env\<close>.

  The environment also holds the two points where the Rust program is not fixed by its source:
  \<open>overflow_checks\<close> (on in debug builds, where an overflowing plain \<open>+\<close> panics, off in release builds,
  where it wraps) and \<open>tie_first\<close> (which operand \<open>f32::min\<close>, \<open>f64::min\<close> and their \<open>max\<close> return when the
  two compare equal, which Rust leaves open).
\<close>

section \<open>The functions the emulator calls\<close>

record 'h env =
  overflow_checks :: bool
  tie_first :: "u64 \<Rightarrow> u64 \<Rightarrow> bool"
  custom_syscall :: "i32 \<Rightarrow> i32 \<Rightarrow> i32 \<Rightarrow> i32 \<Rightarrow> i32 \<Rightarrow> 'h \<Rightarrow> i32 \<times> 'h"
  js_external_interrupt :: "'h \<Rightarrow> i32 \<times> 'h"
  js_interrupt_enabled :: "'h \<Rightarrow> i32 \<times> 'h"
  js_get_int_inst_delay :: "'h \<Rightarrow> i32 \<times> 'h"
  js_read_mmio :: "u32 \<Rightarrow> u32 \<Rightarrow> 'h \<Rightarrow> u32 \<times> 'h"
  js_write_mmio :: "u32 \<Rightarrow> u32 \<Rightarrow> u32 \<Rightarrow> 'h \<Rightarrow> 'h"
  read_from_stdin :: "u32 \<Rightarrow> 'h \<Rightarrow> (i32 \<times> u8 list) \<times> 'h"
  js_print_err :: "string \<Rightarrow> 'h \<Rightarrow> 'h"
  js_write_stdout :: "u8 list \<Rightarrow> 'h \<Rightarrow> 'h"
  js_write_stderr :: "u8 list \<Rightarrow> 'h \<Rightarrow> 'h"
  notify_unknown_syscall :: "u32 \<Rightarrow> u32 \<Rightarrow> u32 \<Rightarrow> u32 \<Rightarrow> u32 \<Rightarrow> 'h \<Rightarrow> 'h"

text \<open>
  \<open>read_from_stdin count\<close> stands for the call with a pointer to a buffer of \<open>count\<close> bytes: it yields the
  return value and the bytes the host stored at the start of that buffer.

  Rust's plain \<open>+\<close> on an unsigned integer, in either build profile.
\<close>

definition add_or_panic :: "'h env \<Rightarrow> 'a::len word \<Rightarrow> 'a word \<Rightarrow> 'a word option" where
  "add_or_panic E a b =
     (if overflow_checks E \<and> unat a + unat b \<ge> 2 ^ LENGTH('a) then None else Some (a + b))"

lemma add_or_panic_release [simp]: "\<not> overflow_checks E \<Longrightarrow> add_or_panic E a b = Some (a + b)"
  by (simp add: add_or_panic_def)

lemma add_or_panic_no_overflow:
  "unat (a :: 'a::len word) + unat b < 2 ^ LENGTH('a) \<Longrightarrow> add_or_panic E a b = Some (a + b)"
  by (simp add: add_or_panic_def)

section \<open>\<open>String::from_utf8_lossy\<close>\<close>

text \<open>
  Strings are lists of \<^typ>\<open>char\<close>, one per UTF-8 byte. \<open>utf8_seq bs\<close> is the length of the sequence at the
  front of \<open>bs\<close> and whether it is well formed; an ill-formed sequence is the maximal prefix of a
  well-formed one, or one byte, and is replaced by U+FFFD.
\<close>

definition in_range :: "nat \<Rightarrow> nat \<Rightarrow> nat list \<Rightarrow> nat \<Rightarrow> bool" where
  "in_range lo hi bs k \<longleftrightarrow> k < length bs \<and> lo \<le> bs ! k \<and> bs ! k \<le> hi"

definition second_range :: "nat \<Rightarrow> (nat \<times> nat)" where
  "second_range b =
     (if b = 0xE0 then (0xA0, 0xBF) else if b = 0xED then (0x80, 0x9F)
      else if b = 0xF0 then (0x90, 0xBF) else if b = 0xF4 then (0x80, 0x8F) else (0x80, 0xBF))"

definition utf8_width :: "nat \<Rightarrow> nat" where
  "utf8_width b =
     (if b < 0x80 then 1 else if 0xC2 \<le> b \<and> b \<le> 0xDF then 2
      else if 0xE0 \<le> b \<and> b \<le> 0xEF then 3 else if 0xF0 \<le> b \<and> b \<le> 0xF4 then 4 else 0)"

fun utf8_seq :: "nat list \<Rightarrow> nat \<times> bool" where
  "utf8_seq [] = (0, True)"
| "utf8_seq (b # bs) =
     (let w = utf8_width b; (lo, hi) = second_range b in
      if w = 0 then (1, False)
      else if w = 1 then (1, True)
      else if \<not> in_range lo hi bs 0 then (1, False)
      else if w = 2 then (2, True)
      else if \<not> in_range 0x80 0xBF bs 1 then (2, False)
      else if w = 3 then (3, True)
      else if \<not> in_range 0x80 0xBF bs 2 then (3, False)
      else (4, True))"

lemma utf8_seq_pos: "bs \<noteq> [] \<Longrightarrow> 0 < fst (utf8_seq bs)"
  by (cases bs) (auto simp: Let_def split: prod.splits)

function utf8_lossy :: "nat list \<Rightarrow> nat list" where
  "utf8_lossy bs =
     (if bs = [] then []
      else let (n, ok) = utf8_seq bs
           in (if ok then take n bs else [0xEF, 0xBF, 0xBD]) @ utf8_lossy (drop n bs))"
  by pat_completeness auto
termination
proof (relation "measure length", goal_cases)
  case (2 bs x n ok)
  then have "0 < n" using utf8_seq_pos [of bs] by (metis fst_conv)
  with 2 show ?case by simp
qed simp

declare utf8_lossy.simps [simp del]

definition from_utf8_lossy :: "u8 list \<Rightarrow> string" where
  "from_utf8_lossy bs = map char_of (utf8_lossy (map unat bs))"

text \<open>ASCII output is passed through unchanged.\<close>

lemma utf8_lossy_ascii: "\<forall>b \<in> set bs. b < 0x80 \<Longrightarrow> utf8_lossy bs = bs"
proof (induction bs)
  case Nil
  then show ?case by (simp add: utf8_lossy.simps)
next
  case (Cons b bs)
  then show ?case
    by (subst utf8_lossy.simps) (simp add: utf8_width_def Let_def split: prod.splits)
qed

section \<open>The native mocks\<close>

text \<open>
  The mock hooks are Rust closures, which may act on state they captured: \<open>closure_state\<close>.
\<close>

record 'u native_host =
  mock_stdout :: "string list"
  mock_stderr :: "string list"
  mock_stdin :: "u8 list"
  mock_custom_syscall :: "(i32 \<Rightarrow> i32 \<Rightarrow> i32 \<Rightarrow> i32 \<Rightarrow> i32 \<Rightarrow> 'u \<Rightarrow> i32 \<times> 'u) option"
  mock_mmio_read :: "(u32 \<Rightarrow> u32 \<Rightarrow> 'u \<Rightarrow> u32 \<times> 'u) option"
  mock_mmio_write :: "(u32 \<Rightarrow> u32 \<Rightarrow> u32 \<Rightarrow> 'u \<Rightarrow> 'u) option"
  closure_state :: 'u

definition reset_mocks :: "'u native_host \<Rightarrow> 'u native_host" where
  "reset_mocks h = h\<lparr>mock_stdout := [], mock_stderr := [], mock_stdin := [],
     mock_custom_syscall := None, mock_mmio_read := None, mock_mmio_write := None\<rparr>"

definition get_mock_stdout :: "'u native_host \<Rightarrow> string list" where
  "get_mock_stdout h = mock_stdout h"

definition get_mock_stderr :: "'u native_host \<Rightarrow> string list" where
  "get_mock_stderr h = mock_stderr h"

definition set_mock_stdin :: "u8 list \<Rightarrow> 'u native_host \<Rightarrow> 'u native_host" where
  "set_mock_stdin bytes h = h\<lparr>mock_stdin := bytes\<rparr>"

definition set_mock_custom_syscall ::
  "(i32 \<Rightarrow> i32 \<Rightarrow> i32 \<Rightarrow> i32 \<Rightarrow> i32 \<Rightarrow> 'u \<Rightarrow> i32 \<times> 'u) \<Rightarrow> 'u native_host \<Rightarrow> 'u native_host" where
  "set_mock_custom_syscall f h = h\<lparr>mock_custom_syscall := Some f\<rparr>"

definition set_mock_mmio_read :: "(u32 \<Rightarrow> u32 \<Rightarrow> 'u \<Rightarrow> u32 \<times> 'u) \<Rightarrow> 'u native_host \<Rightarrow> 'u native_host" where
  "set_mock_mmio_read f h = h\<lparr>mock_mmio_read := Some f\<rparr>"

definition set_mock_mmio_write :: "(u32 \<Rightarrow> u32 \<Rightarrow> u32 \<Rightarrow> 'u \<Rightarrow> 'u) \<Rightarrow> 'u native_host \<Rightarrow> 'u native_host" where
  "set_mock_mmio_write f h = h\<lparr>mock_mmio_write := Some f\<rparr>"

definition native_custom_syscall ::
  "i32 \<Rightarrow> i32 \<Rightarrow> i32 \<Rightarrow> i32 \<Rightarrow> i32 \<Rightarrow> 'u native_host \<Rightarrow> i32 \<times> 'u native_host" where
  "native_custom_syscall a0 a1 a2 a3 a7 h =
     (case mock_custom_syscall h of
        Some f \<Rightarrow> (let (res, u) = f a0 a1 a2 a3 a7 (closure_state h) in (res, h\<lparr>closure_state := u\<rparr>))
      | None \<Rightarrow> (0, h))"

definition native_external_interrupt :: "'u native_host \<Rightarrow> i32 \<times> 'u native_host" where
  "native_external_interrupt h = (0, h)"

definition native_interrupt_enabled :: "'u native_host \<Rightarrow> i32 \<times> 'u native_host" where
  "native_interrupt_enabled h = (0, h)"

definition native_get_int_inst_delay :: "'u native_host \<Rightarrow> i32 \<times> 'u native_host" where
  "native_get_int_inst_delay h = (0, h)"

definition native_read_mmio :: "u32 \<Rightarrow> u32 \<Rightarrow> 'u native_host \<Rightarrow> u32 \<times> 'u native_host" where
  "native_read_mmio addr sz h =
     (case mock_mmio_read h of
        Some f \<Rightarrow> (let (val, u) = f addr sz (closure_state h) in (val, h\<lparr>closure_state := u\<rparr>))
      | None \<Rightarrow> (0, h))"

definition native_write_mmio :: "u32 \<Rightarrow> u32 \<Rightarrow> u32 \<Rightarrow> 'u native_host \<Rightarrow> 'u native_host" where
  "native_write_mmio addr sz val h =
     (case mock_mmio_write h of
        Some f \<Rightarrow> h\<lparr>closure_state := f addr sz val (closure_state h)\<rparr>
      | None \<Rightarrow> h)"

definition native_read_from_stdin :: "u32 \<Rightarrow> 'u native_host \<Rightarrow> (i32 \<times> u8 list) \<times> 'u native_host" where
  "native_read_from_stdin count h =
     (if count = 0 then ((0, []), h)
      else let to_read = unat (min (word_of_nat (length (mock_stdin h)) :: u32) count) in
        if to_read > 0
        then ((word_of_nat to_read, take to_read (mock_stdin h)),
              h\<lparr>mock_stdin := drop to_read (mock_stdin h)\<rparr>)
        else ((0, []), h))"

definition native_read_interactive_command :: "'u native_host \<Rightarrow> i32 \<times> 'u native_host" where
  "native_read_interactive_command h = (0, h)"

definition native_print :: "string \<Rightarrow> 'u native_host \<Rightarrow> 'u native_host" where
  "native_print msg h = h\<lparr>mock_stdout := mock_stdout h @ [msg]\<rparr>"

definition native_print_err :: "string \<Rightarrow> 'u native_host \<Rightarrow> 'u native_host" where
  "native_print_err msg h = h\<lparr>mock_stderr := mock_stderr h @ [msg]\<rparr>"

definition native_write_stdout :: "u8 list \<Rightarrow> 'u native_host \<Rightarrow> 'u native_host" where
  "native_write_stdout bytes h = h\<lparr>mock_stdout := mock_stdout h @ [from_utf8_lossy bytes]\<rparr>"

definition native_write_stderr :: "u8 list \<Rightarrow> 'u native_host \<Rightarrow> 'u native_host" where
  "native_write_stderr bytes h = h\<lparr>mock_stderr := mock_stderr h @ [from_utf8_lossy bytes]\<rparr>"

definition native_notify_unknown_syscall ::
  "u32 \<Rightarrow> u32 \<Rightarrow> u32 \<Rightarrow> u32 \<Rightarrow> u32 \<Rightarrow> 'u native_host \<Rightarrow> 'u native_host" where
  "native_notify_unknown_syscall sys_num a0 a1 a2 a3 h = h"

definition native_env :: "bool \<Rightarrow> ('u native_host) env" where
  "native_env checks =
     \<lparr>overflow_checks = checks, tie_first = (\<lambda>_ _. True),
      custom_syscall = native_custom_syscall,
      js_external_interrupt = native_external_interrupt,
      js_interrupt_enabled = native_interrupt_enabled,
      js_get_int_inst_delay = native_get_int_inst_delay,
      js_read_mmio = native_read_mmio, js_write_mmio = native_write_mmio,
      read_from_stdin = native_read_from_stdin,
      js_print_err = native_print_err,
      js_write_stdout = native_write_stdout, js_write_stderr = native_write_stderr,
      notify_unknown_syscall = native_notify_unknown_syscall\<rparr>"

definition fresh_host :: "unit native_host" where
  "fresh_host = \<lparr>mock_stdout = [], mock_stderr = [], mock_stdin = [], mock_custom_syscall = None,
     mock_mmio_read = None, mock_mmio_write = None, closure_state = ()\<rparr>"

section \<open>Host contracts\<close>

text \<open>
  The contract of \<open>read_from_stdin\<close>: the number of bytes read never exceeds the count asked for.
  \<open>handle_ecall\<close> slices its buffer with that number and panics otherwise.
\<close>

locale stdin_host =
  fixes E :: "'h env"
  assumes stdin_count: "read_from_stdin E count h = ((n, bs), h') \<Longrightarrow> sint n \<le> uint count"

text \<open>A host that delivers no interrupts and whose polls have no effect.\<close>

locale quiet_host =
  fixes E :: "'h env"
  assumes quiet_enabled: "js_interrupt_enabled E h = (0, h)"
    and quiet_delay: "snd (js_get_int_inst_delay E h) = h"

lemma native_read_count:
  "native_read_from_stdin count h = ((n, bs), h') \<Longrightarrow> unat n \<le> unat count"
proof -
  assume a: "native_read_from_stdin count h = ((n, bs), h')"
  have "unat (min (word_of_nat (length (mock_stdin h)) :: u32) count) \<le> unat count"
    by (metis min.cobounded2 word_le_nat_alt)
  with a show ?thesis
    by (auto simp: native_read_from_stdin_def Let_def unat_of_nat split: if_splits)
qed

interpretation native_stdin: stdin_host "native_env checks" for checks :: bool
proof
  fix count :: u32 and n :: i32 and h h' :: "'a native_host" and bs :: "u8 list"
  assume "read_from_stdin (native_env checks) count h = ((n, bs), h')"
  then have "unat n \<le> unat count"
    by (simp add: native_env_def native_read_count)
  then have "uint n \<le> uint count"
    by (simp add: word_le_nat_alt flip: word_le_def)
  moreover have "- 2147483648 \<le> uint n"
    by (rule order_trans [where y = 0]) simp_all
  then have "sint n \<le> uint n"
    by (simp add: sint_uint signed_take_bit_int_less_eq_self_iff)
  ultimately show "sint n \<le> uint count"
    by linarith
qed

interpretation native_quiet: quiet_host "native_env checks" for checks :: bool
  by unfold_locales
     (simp_all add: native_env_def native_interrupt_enabled_def native_get_int_inst_delay_def)

end
