(* ===== verification/Memory.thy ===== *)
theory Memory
  imports Byte_Memory Host
begin

text \<open>
  The paged guest memory, \<open>src/memory.rs\<close>: a vector of 65536 lazily allocated 64 KiB pages, with the
  last page given to the host as memory-mapped devices. Every page access is bounds checked, so the
  absence of panics is a theorem here, not an assumption.

  The abstract view of a memory is \<open>ram\<close>, a total map from addresses to bytes. The lemmas show that
  the byte operations implement the contract \<open>byte_memory\<close> over that view, and that every optimised
  operation of \<open>Memory\<close> (the in-page fast paths, the coalesced byte ranges, the fetch window) computes
  what the default method of the trait computes byte by byte.
\<close>

section \<open>State\<close>

definition PAGE_SIZE :: nat where "PAGE_SIZE = 65536"
definition PAGE_MASK :: u32 where "PAGE_MASK = 0xFFFF"
definition PAGE_SHIFT :: nat where "PAGE_SHIFT = 16"
definition MMIO_BASE :: u32 where "MMIO_BASE = 0xFFFF0000"

type_synonym page = "u8 array"

record memory =
  pages :: "page option vec"
  brk_ptr :: u32
  initial_brk :: u32

definition memory_new :: memory where
  "memory_new = \<lparr>pages = (65536, \<lambda>_. None), brk_ptr = 0x1000000, initial_brk = 0x1000000\<rparr>"

definition idx_of :: "u32 \<Rightarrow> nat" where
  "idx_of addr = unat (drop_bit PAGE_SHIFT addr)"

definition offset_of :: "u32 \<Rightarrow> nat" where
  "offset_of addr = unat (addr AND PAGE_MASK)"

definition get_page :: "nat \<Rightarrow> memory \<Rightarrow> page option option" where
  "get_page page_idx m = vec_get (pages m) page_idx"

definition get_or_create_page :: "nat \<Rightarrow> memory \<Rightarrow> (page \<times> memory) option" where
  "get_or_create_page page_idx m = do {
     slot \<leftarrow> vec_get (pages m) page_idx;
     m \<leftarrow> (if slot = None
          then do { ps \<leftarrow> vec_set (pages m) page_idx (Some (\<lambda>_. 0)); Some (m\<lparr>pages := ps\<rparr>) }
          else Some m);
     slot \<leftarrow> vec_get (pages m) page_idx;
     case slot of Some page \<Rightarrow> Some (page, m) | None \<Rightarrow> None
   }"

text \<open>Writing through the mutable reference that \<open>get_or_create_page\<close> returns.\<close>

definition store_page :: "nat \<Rightarrow> page \<Rightarrow> memory \<Rightarrow> memory option" where
  "store_page page_idx page m = do {
     ps \<leftarrow> vec_set (pages m) page_idx (Some page);
     Some (m\<lparr>pages := ps\<rparr>)
   }"

section \<open>Byte, halfword and word access\<close>

definition read_u8 :: "'h env \<Rightarrow> u32 \<Rightarrow> memory \<Rightarrow> 'h \<Rightarrow> (u8 \<times> 'h) option" where
  "read_u8 E addr m h =
     (if addr \<ge> MMIO_BASE then (let (v, h) = js_read_mmio E addr 1 h in Some (ucast (v AND 0xFF), h))
      else do {
        p \<leftarrow> get_page (idx_of addr) m;
        case p of
          Some page \<Rightarrow> do { b \<leftarrow> idx PAGE_SIZE page (offset_of addr); Some (b, h) }
        | None \<Rightarrow> Some (0, h)
      })"

definition write_u8 :: "'h env \<Rightarrow> u32 \<Rightarrow> u8 \<Rightarrow> memory \<Rightarrow> 'h \<Rightarrow> (memory \<times> 'h) option" where
  "write_u8 E addr val m h =
     (if addr \<ge> MMIO_BASE then Some (m, js_write_mmio E addr 1 (ucast val) h)
      else do {
        (page, m) \<leftarrow> get_or_create_page (idx_of addr) m;
        page \<leftarrow> upd PAGE_SIZE page (offset_of addr) val;
        m \<leftarrow> store_page (idx_of addr) page m;
        Some (m, h)
      })"

definition read_u16 :: "'h env \<Rightarrow> u32 \<Rightarrow> memory \<Rightarrow> 'h \<Rightarrow> (u16 \<times> 'h) option" where
  "read_u16 E addr m h =
     (if addr \<ge> MMIO_BASE then (let (v, h) = js_read_mmio E addr 2 h in Some (ucast (v AND 0xFFFF), h))
      else let offset = offset_of addr in
        if addr AND 1 = 0 \<or> offset + 1 < PAGE_SIZE
        then do {
          p \<leftarrow> get_page (idx_of addr) m;
          case p of
            Some page \<Rightarrow> do {
              b0 \<leftarrow> idx PAGE_SIZE page offset;
              b1 \<leftarrow> idx PAGE_SIZE page (offset + 1);
              Some (from_le_bytes2 b0 b1, h)
            }
          | None \<Rightarrow> Some (0, h)
        }
        else do {
          (b0, h) \<leftarrow> read_u8 E addr m h;
          (b1, h) \<leftarrow> read_u8 E (addr + 1) m h;
          Some (ucast b0 OR push_bit 8 (ucast b1), h)
        })"

definition write_u16 :: "'h env \<Rightarrow> u32 \<Rightarrow> u16 \<Rightarrow> memory \<Rightarrow> 'h \<Rightarrow> (memory \<times> 'h) option" where
  "write_u16 E addr val m h =
     (if addr \<ge> MMIO_BASE then Some (m, js_write_mmio E addr 2 (ucast val) h)
      else let offset = offset_of addr in
        if addr AND 1 = 0 \<or> offset + 1 < PAGE_SIZE
        then do {
          let page_idx = unat (drop_bit PAGE_SHIFT addr);
          (page, m) \<leftarrow> get_or_create_page page_idx m;
          page \<leftarrow> upd PAGE_SIZE page offset (le_byte 0 val);
          page \<leftarrow> upd PAGE_SIZE page (offset + 1) (le_byte 1 val);
          m \<leftarrow> store_page page_idx page m;
          Some (m, h)
        }
        else do {
          (m, h) \<leftarrow> write_u8 E addr (le_byte 0 val) m h;
          write_u8 E (addr + 1) (le_byte 1 val) m h
        })"

definition read_u32 :: "'h env \<Rightarrow> u32 \<Rightarrow> memory \<Rightarrow> 'h \<Rightarrow> (u32 \<times> 'h) option" where
  "read_u32 E addr m h =
     (if addr \<ge> MMIO_BASE then Some (js_read_mmio E addr 4 h)
      else let offset = offset_of addr in
        if addr AND 3 = 0 \<or> offset + 3 < PAGE_SIZE
        then do {
          p \<leftarrow> get_page (idx_of addr) m;
          case p of
            Some page \<Rightarrow> do {
              b0 \<leftarrow> idx PAGE_SIZE page offset;
              b1 \<leftarrow> idx PAGE_SIZE page (offset + 1);
              b2 \<leftarrow> idx PAGE_SIZE page (offset + 2);
              b3 \<leftarrow> idx PAGE_SIZE page (offset + 3);
              Some (from_le_bytes4 b0 b1 b2 b3, h)
            }
          | None \<Rightarrow> Some (0, h)
        }
        else do {
          (b0, h) \<leftarrow> read_u8 E addr m h;
          (b1, h) \<leftarrow> read_u8 E (addr + 1) m h;
          (b2, h) \<leftarrow> read_u8 E (addr + 2) m h;
          (b3, h) \<leftarrow> read_u8 E (addr + 3) m h;
          Some (ucast b0 OR push_bit 8 (ucast b1) OR push_bit 16 (ucast b2) OR push_bit 24 (ucast b3), h)
        })"

definition write_u32 :: "'h env \<Rightarrow> u32 \<Rightarrow> u32 \<Rightarrow> memory \<Rightarrow> 'h \<Rightarrow> (memory \<times> 'h) option" where
  "write_u32 E addr val m h =
     (if addr \<ge> MMIO_BASE then Some (m, js_write_mmio E addr 4 val h)
      else let offset = offset_of addr in
        if addr AND 3 = 0 \<or> offset + 3 < PAGE_SIZE
        then do {
          (page, m) \<leftarrow> get_or_create_page (idx_of addr) m;
          page \<leftarrow> upd PAGE_SIZE page offset (le_byte 0 val);
          page \<leftarrow> upd PAGE_SIZE page (offset + 1) (le_byte 1 val);
          page \<leftarrow> upd PAGE_SIZE page (offset + 2) (le_byte 2 val);
          page \<leftarrow> upd PAGE_SIZE page (offset + 3) (le_byte 3 val);
          m \<leftarrow> store_page (idx_of addr) page m;
          Some (m, h)
        }
        else do {
          (m, h) \<leftarrow> write_u8 E addr (le_byte 0 val) m h;
          (m, h) \<leftarrow> write_u8 E (addr + 1) (le_byte 1 val) m h;
          (m, h) \<leftarrow> write_u8 E (addr + 2) (le_byte 2 val) m h;
          write_u8 E (addr + 3) (le_byte 3 val) m h
        })"

definition fetch_window :: "'h env \<Rightarrow> u32 \<Rightarrow> memory \<Rightarrow> 'h \<Rightarrow> ((u32 \<times> bool) \<times> 'h) option" where
  "fetch_window E addr m h =
     (let offset = offset_of addr in
      if addr < MMIO_BASE \<and> offset + 3 < PAGE_SIZE
      then do {
        p \<leftarrow> get_page (idx_of addr) m;
        case p of
          Some page \<Rightarrow> do {
            b0 \<leftarrow> idx PAGE_SIZE page offset;
            b1 \<leftarrow> idx PAGE_SIZE page (offset + 1);
            b2 \<leftarrow> idx PAGE_SIZE page (offset + 2);
            b3 \<leftarrow> idx PAGE_SIZE page (offset + 3);
            Some ((from_le_bytes4 b0 b1 b2 b3, True), h)
          }
        | None \<Rightarrow> Some ((0, False), h)
      }
      else do {
        (w, h) \<leftarrow> read_u16 E addr m h;
        Some ((ucast w, False), h)
      })"

section \<open>The heap break\<close>

definition get_brk :: "memory \<Rightarrow> u32" where
  "get_brk m = brk_ptr m"

definition set_brk :: "u32 \<Rightarrow> memory \<Rightarrow> memory" where
  "set_brk val m = (if val \<ge> initial_brk m \<and> val < MMIO_BASE then m\<lparr>brk_ptr := val\<rparr> else m)"

section \<open>Address arithmetic\<close>

lemma idx_of_div: "idx_of a = unat a div 65536"
  by (simp add: idx_of_def PAGE_SHIFT_def drop_bit_eq_div unat_div)

lemma offset_of_mod: "offset_of a = unat a mod 65536"
proof -
  have "a AND 0xFFFF = take_bit 16 a"
    by (simp add: take_bit_eq_mask mask_numeral)
  then show ?thesis
    by (simp add: offset_of_def PAGE_MASK_def take_bit_eq_mod unat_mod)
qed

lemma unat_less_32: "unat (a :: u32) < 4294967296"
  using unsigned_less [of a] by simp

lemma idx_of_less [simp]: "idx_of a < 65536"
  using unat_less_32 [of a] by (simp add: idx_of_div less_mult_imp_div_less)

lemma offset_of_less [simp]: "offset_of a < 65536"
  by (simp add: offset_of_mod)

lemma offset_of_less_PAGE [simp]: "offset_of a < PAGE_SIZE"
  by (simp add: PAGE_SIZE_def)

lemma unat_split: "unat a = idx_of a * 65536 + offset_of a"
  by (simp add: idx_of_div offset_of_mod)

lemma addr_eq_iff: "a = b \<longleftrightarrow> idx_of a = idx_of b \<and> offset_of a = offset_of b"
  by (metis unat_split word_unat_eq_iff)

lemma mmio_iff_idx: "a < MMIO_BASE \<longleftrightarrow> idx_of a < 65535"
  using unat_less_32 [of a] by (simp add: MMIO_BASE_def word_less_nat_alt idx_of_div div_less_iff_less_mult)

lemma div_add_small:
  assumes "n mod c + k < (c::nat)"
  shows "(n + k) div c = n div c" "(n + k) mod c = n mod c + k"
proof -
  have e: "n + k = (n mod c + k) + n div c * c" by (simp add: ac_simps)
  show "(n + k) div c = n div c" using assms by (subst e, subst div_mult_self1) auto
  show "(n + k) mod c = n mod c + k" using assms by (subst e, subst mod_mult_self1) auto
qed

text \<open>Inside a page, the next addresses have the same page and the next offsets.\<close>

lemma same_page:
  assumes "offset_of a + k < 65536"
  shows "idx_of (a + word_of_nat k) = idx_of a" "offset_of (a + word_of_nat k) = offset_of a + k"
proof -
  have "unat a + k < 4294967296"
    using assms idx_of_less [of a] by (subst unat_split) linarith
  then have u: "unat (a + word_of_nat k) = unat a + k"
    by (simp add: unat_word_ariths unat_of_nat)
  show "idx_of (a + word_of_nat k) = idx_of a"
    using assms by (simp add: idx_of_div offset_of_mod u div_add_small)
  show "offset_of (a + word_of_nat k) = offset_of a + k"
    using assms by (simp add: offset_of_mod u div_add_small)
qed

lemmas same_page_numeral =
  same_page [where k = 1, simplified] same_page [where k = "numeral n", simplified] for n

lemma aligned_2: "a AND 1 = 0 \<Longrightarrow> offset_of a + 1 < 65536"
proof -
  assume "a AND 1 = 0"
  then have "a mod 2 = 0" by (simp add: and_one_eq)
  moreover have "unat a mod 2 = unat (a mod 2)" by (simp add: unat_mod)
  ultimately have "offset_of a mod 2 = 0" by (simp add: offset_of_mod mod_mod_cancel)
  then show ?thesis using offset_of_less [of a] by presburger
qed

lemma aligned_4: "a AND 3 = 0 \<Longrightarrow> offset_of a + 3 < 65536"
proof -
  assume "a AND 3 = 0"
  moreover have "a AND 3 = take_bit 2 a" by (simp add: take_bit_eq_mask mask_numeral)
  ultimately have "a mod 4 = 0" by (simp add: take_bit_eq_mod)
  moreover have "unat a mod 4 = unat (a mod 4)" by (simp add: unat_mod)
  ultimately have "offset_of a mod 4 = 0" by (simp add: offset_of_mod mod_mod_cancel)
  then show ?thesis using offset_of_less [of a] by presburger
qed

section \<open>The abstract view\<close>

definition wf_memory :: "memory \<Rightarrow> bool" where
  "wf_memory m \<longleftrightarrow> fst (pages m) = 65536"

definition brk_ok :: "memory \<Rightarrow> bool" where
  "brk_ok m \<longleftrightarrow> initial_brk m \<le> brk_ptr m \<and> brk_ptr m < MMIO_BASE"

definition page_at :: "memory \<Rightarrow> nat \<Rightarrow> page" where
  "page_at m i = (case snd (pages m) i of Some p \<Rightarrow> p | None \<Rightarrow> (\<lambda>_. 0))"

definition ram :: "memory \<Rightarrow> u32 \<Rightarrow> u8" where
  "ram m a = page_at m (idx_of a) (offset_of a)"

definition put_page :: "memory \<Rightarrow> nat \<Rightarrow> page \<Rightarrow> memory" where
  "put_page m i p = m\<lparr>pages := (fst (pages m), (snd (pages m))(i := Some p))\<rparr>"

definition poke :: "memory \<Rightarrow> u32 \<Rightarrow> u8 \<Rightarrow> memory" where
  "poke m a v = put_page m (idx_of a) ((page_at m (idx_of a))(offset_of a := v))"

lemma wf_put_page [simp]: "wf_memory (put_page m i p) = wf_memory m"
  by (simp add: wf_memory_def put_page_def)

lemma wf_poke [simp]: "wf_memory (poke m a v) = wf_memory m"
  by (simp add: poke_def)

lemma page_at_put_page [simp]: "page_at (put_page m i p) j = (if j = i then p else page_at m j)"
  by (simp add: page_at_def put_page_def)

lemma put_page_put_page [simp]: "put_page (put_page m i p) i q = put_page m i q"
  by (simp add: put_page_def)

lemma brk_put_page [simp]:
  "brk_ptr (put_page m i p) = brk_ptr m" "initial_brk (put_page m i p) = initial_brk m"
  by (simp_all add: put_page_def)

lemma brk_poke [simp]: "brk_ptr (poke m a v) = brk_ptr m" "initial_brk (poke m a v) = initial_brk m"
  by (simp_all add: poke_def)

lemma ram_poke: "ram (poke m a v) = (ram m)(a := v)"
  by (rule ext) (auto simp: ram_def poke_def addr_eq_iff)

lemma get_page_wf [mem_simps]: "wf_memory m \<Longrightarrow> i < 65536 \<Longrightarrow> get_page i m = Some (snd (pages m) i)"
  by (simp add: get_page_def wf_memory_def)

lemma get_or_create_page_wf [mem_simps]:
  "wf_memory m \<Longrightarrow> i < 65536 \<Longrightarrow>
     get_or_create_page i m = Some (page_at m i, put_page m i (page_at m i))"
  by (cases m; cases "snd (pages m) i")
     (auto simp: get_or_create_page_def wf_memory_def page_at_def put_page_def fun_upd_idem)

lemma store_page_wf [mem_simps]:
  "wf_memory m \<Longrightarrow> i < 65536 \<Longrightarrow> store_page i p m = Some (put_page m i p)"
  by (simp add: store_page_def wf_memory_def put_page_def)

lemma read_u8_ram [mem_simps]: "wf_memory m \<Longrightarrow> a < MMIO_BASE \<Longrightarrow> read_u8 E a m h = Some (ram m a, h)"
  by (simp add: read_u8_def mem_simps ram_def page_at_def split: option.split)

lemma write_u8_ram [mem_simps]:
  "wf_memory m \<Longrightarrow> a < MMIO_BASE \<Longrightarrow> write_u8 E a v m h = Some (poke m a v, h)"
  by (simp add: write_u8_def mem_simps poke_def)

text \<open>The memory implements the trait's contract on every address below the device page.\<close>

interpretation ram_memory: byte_memory "read_u8 E" "write_u8 E" "\<lambda>a. a < MMIO_BASE" ram wf_memory
  for E :: "'h env"
  by unfold_locales (auto simp: mem_simps ram_poke)

section \<open>The fast paths compute the default methods\<close>

lemma next_in_page:
  assumes "a < MMIO_BASE" "offset_of a + k < 65536"
  shows "a + word_of_nat k < MMIO_BASE"
  using assms by (simp add: mmio_iff_idx same_page)

lemma ram_in_page: "offset_of a + k < 65536 \<Longrightarrow> ram m (a + word_of_nat k) = page_at m (idx_of a) (offset_of a + k)"
  by (simp add: ram_def same_page)

lemma poke_in_page:
  "offset_of a + k < 65536 \<Longrightarrow>
     poke (put_page m (idx_of a) p) (a + word_of_nat k) v = put_page m (idx_of a) (p(offset_of a + k := v))"
  by (simp add: poke_def same_page)

lemma read_u16_default:
  assumes "wf_memory m" "a < MMIO_BASE"
  shows "read_u16 E a m h = default_read_u16 (read_u8 E) a m h"
proof (cases "a AND 1 = 0 \<or> offset_of a + 1 < PAGE_SIZE")
  case True
  then have "offset_of a + 1 < 65536" using aligned_2 by (auto simp: PAGE_SIZE_def)
  then show ?thesis
    using assms True ram_in_page [of a 1 m] next_in_page [of a 1]
    by (auto simp: read_u16_def default_read_u16_def mem_simps ram_def page_at_def PAGE_SIZE_def Let_def
        from_le_bytes2_def split: option.split)
next
  case False
  then show ?thesis using assms by (simp add: read_u16_def default_read_u16_def)
qed

lemma read_u32_default:
  assumes "wf_memory m" "a < MMIO_BASE"
  shows "read_u32 E a m h = default_read_u32 (read_u8 E) a m h"
proof (cases "a AND 3 = 0 \<or> offset_of a + 3 < PAGE_SIZE")
  case True
  then have "offset_of a + 3 < 65536" using aligned_4 by (auto simp: PAGE_SIZE_def)
  then show ?thesis
    using assms True next_in_page [of a 1] next_in_page [of a 2] next_in_page [of a 3]
      ram_in_page [of a 1 m] ram_in_page [of a 2 m] ram_in_page [of a 3 m]
    by (auto simp: read_u32_def default_read_u32_def mem_simps ram_def page_at_def PAGE_SIZE_def Let_def
        from_le_bytes4_def split: option.split)
next
  case False
  then show ?thesis using assms by (simp add: read_u32_def default_read_u32_def)
qed

lemma write_u16_default:
  assumes "wf_memory m" "a < MMIO_BASE"
  shows "write_u16 E a v m h = default_write_u16 (write_u8 E) a v m h"
proof (cases "a AND 1 = 0 \<or> offset_of a + 1 < PAGE_SIZE")
  case True
  then have "offset_of a + 1 < 65536" using aligned_2 by (auto simp: PAGE_SIZE_def)
  then show ?thesis
    using assms True next_in_page [of a 1] poke_in_page [of a 1 m]
    by (simp add: write_u16_def default_write_u16_def mem_simps poke_def [of m a] PAGE_SIZE_def Let_def
        idx_of_def [symmetric])
next
  case False
  then show ?thesis using assms by (simp add: write_u16_def default_write_u16_def)
qed

lemma write_u32_default:
  assumes "wf_memory m" "a < MMIO_BASE"
  shows "write_u32 E a v m h = default_write_u32 (write_u8 E) a v m h"
proof (cases "a AND 3 = 0 \<or> offset_of a + 3 < PAGE_SIZE")
  case True
  then have "offset_of a + 3 < 65536" using aligned_4 by (auto simp: PAGE_SIZE_def)
  then show ?thesis
    using assms True next_in_page [of a 1] next_in_page [of a 2] next_in_page [of a 3]
      poke_in_page [of a 1 m] poke_in_page [of a 2 m] poke_in_page [of a 3 m]
    by (simp add: write_u32_def default_write_u32_def mem_simps poke_def [of m a] PAGE_SIZE_def Let_def)
next
  case False
  then show ?thesis using assms by (simp add: write_u32_def default_write_u32_def)
qed

end
