(* ===== verification/Memory_Bytes.thy ===== *)
theory Memory_Bytes
  imports Memory
begin

text \<open>
  Byte ranges of \<open>src/memory.rs\<close>: \<open>read_bytes\<close> and \<open>write_bytes\<close>, which copy page by page and fall back to
  single bytes in the device page. Their loops end because every round copies at least one byte. They
  agree with the byte-by-byte default methods of the trait for every start address and length, also
  across page borders, into the device page, and around the end of the address space.
\<close>

section \<open>The loops\<close>

text \<open>A round copies at least one byte, stays in its page and in the range, and leaves less to copy.\<close>

lemma chunk_nat:
  "(p::nat) < c \<Longrightarrow> off < len \<Longrightarrow> 0 < min (c - p) (len - off) \<and> p + min (c - p) (len - off) \<le> c \<and>
     off + min (c - p) (len - off) \<le> len \<and> len - (off + min (c - p) (len - off)) < len - off"
  by (auto simp: min_def)

lemma chunk_bounds:
  assumes "off < len"
  shows "0 < min (PAGE_SIZE - offset_of a) (len - off)"
    "offset_of a + min (PAGE_SIZE - offset_of a) (len - off) \<le> PAGE_SIZE"
    "off + min (PAGE_SIZE - offset_of a) (len - off) \<le> len"
    "len - (off + min (PAGE_SIZE - offset_of a) (len - off)) < len - off"
  using chunk_nat [OF offset_of_less_PAGE assms] by blast+

function read_bytes_loop ::
  "'h env \<Rightarrow> memory \<Rightarrow> nat \<Rightarrow> u32 \<Rightarrow> nat \<Rightarrow> u8 list \<Rightarrow> 'h \<Rightarrow> (u8 list \<times> 'h) option" where
  "read_bytes_loop E m len curr_addr offset_in_buf buf h =
     (if offset_in_buf < len
      then if curr_addr \<ge> MMIO_BASE
        then do {
          (bs, h) \<leftarrow> read_each (read_u8 E) curr_addr 0 (length buf - offset_in_buf) m h;
          buf \<leftarrow> put_slice buf offset_in_buf bs;
          Some (buf, h)
        }
        else let page_idx = idx_of curr_addr; page_offset = offset_of curr_addr;
                 bytes_in_page = min (PAGE_SIZE - page_offset) (len - offset_in_buf)
          in do {
            p \<leftarrow> get_page page_idx m;
            seg \<leftarrow> (case p of
                Some page \<Rightarrow> array_slice PAGE_SIZE page page_offset bytes_in_page
              | None \<Rightarrow> Some (replicate bytes_in_page 0));
            buf \<leftarrow> put_slice buf offset_in_buf seg;
            read_bytes_loop E m len (curr_addr + word_of_nat bytes_in_page)
              (offset_in_buf + bytes_in_page) buf h
          }
      else Some (buf, h))"
  by pat_completeness auto
termination
proof (relation "measure (\<lambda>(E, m, len, ca, off, buf, h). len - off)", goal_cases)
  case (2 E m len ca off)
  then show ?case by (auto simp: chunk_bounds)
qed simp

definition read_bytes :: "'h env \<Rightarrow> u32 \<Rightarrow> nat \<Rightarrow> memory \<Rightarrow> 'h \<Rightarrow> (u8 list \<times> 'h) option" where
  "read_bytes E addr len m h =
     (let buf = replicate len 0 in
      if len = 0 then Some (buf, h) else read_bytes_loop E m len addr 0 buf h)"

function write_bytes_loop ::
  "'h env \<Rightarrow> u8 list \<Rightarrow> u32 \<Rightarrow> nat \<Rightarrow> memory \<Rightarrow> 'h \<Rightarrow> (memory \<times> 'h) option" where
  "write_bytes_loop E bytes curr_addr offset_in_src m h =
     (if offset_in_src < length bytes
      then if curr_addr \<ge> MMIO_BASE
        then write_each (write_u8 E) curr_addr 0 (drop offset_in_src bytes) m h
        else let page_idx = idx_of curr_addr; page_offset = offset_of curr_addr;
                 bytes_in_page = min (PAGE_SIZE - page_offset) (length bytes - offset_in_src)
          in do {
            (page, m) \<leftarrow> get_or_create_page page_idx m;
            src \<leftarrow> slice bytes offset_in_src bytes_in_page;
            page \<leftarrow> array_put_slice PAGE_SIZE page page_offset src;
            m \<leftarrow> store_page page_idx page m;
            write_bytes_loop E bytes (curr_addr + word_of_nat bytes_in_page)
              (offset_in_src + bytes_in_page) m h
          }
      else Some (m, h))"
  by pat_completeness auto
termination
proof (relation "measure (\<lambda>(E, bytes, ca, off, m, h). length bytes - off)", goal_cases)
  case (2 E bytes ca off)
  then show ?case by (auto simp: chunk_bounds)
qed simp

definition write_bytes :: "'h env \<Rightarrow> u32 \<Rightarrow> u8 list \<Rightarrow> memory \<Rightarrow> 'h \<Rightarrow> (memory \<times> 'h) option" where
  "write_bytes E addr bytes m h =
     (if length bytes = 0 then Some (m, h) else write_bytes_loop E bytes addr 0 m h)"

declare read_bytes_loop.simps [simp del] write_bytes_loop.simps [simp del]

section \<open>Reading\<close>

text \<open>The bytes of one page, read one by one.\<close>

lemma read_each_in_page:
  assumes "wf_memory m" "a < MMIO_BASE" "offset_of a + n \<le> 65536"
  shows "read_each (read_u8 E) a 0 n m h =
    Some (map (page_at m (idx_of a)) [offset_of a..<offset_of a + n], h)"
proof -
  have in_page: "offset_of a + k < 65536" if "k < n" for k
    using assms(3) that by simp
  have "read_each (read_u8 E) a 0 n m h = Some (map (\<lambda>k. ram m (a + word_of_nat k)) [0..<0 + n], h)"
    by (rule ram_memory.read_each_view) (use assms in_page in \<open>auto intro: next_in_page\<close>)
  moreover have "map (\<lambda>k. ram m (a + word_of_nat k)) [0..<n] =
      map (page_at m (idx_of a)) [offset_of a..<offset_of a + n]"
    by (rule nth_equalityI) (use in_page in \<open>auto simp: ram_in_page\<close>)
  ultimately show ?thesis by simp
qed

text \<open>What the fast path copies out of a page, allocated or not.\<close>

lemma page_segment:
  assumes "offset_of a + n \<le> 65536"
  shows "(case snd (pages m) i of
       Some page \<Rightarrow> array_slice PAGE_SIZE page (offset_of a) n | None \<Rightarrow> Some (replicate n 0))
     = Some (map (page_at m i) [offset_of a..<offset_of a + n])"
  using assms
  by (auto simp: array_slice_def PAGE_SIZE_def page_at_def map_replicate_const split: option.split)

lemma read_bytes_loop_eq:
  assumes "wf_memory m" "length buf = len" "off \<le> len"
  shows "read_bytes_loop E m len ca off buf h = do {
     (bs, h) \<leftarrow> read_each (read_u8 E) ca 0 (len - off) m h;
     Some (take off buf @ bs, h)
   }"
  using assms
proof (induction E m len ca off buf h rule: read_bytes_loop.induct)
  case (1 E m len ca off buf h)
  let ?n = "min (PAGE_SIZE - offset_of ca) (len - off)"
  let ?seg = "map (page_at m (idx_of ca)) [offset_of ca..<offset_of ca + ?n]"
  show ?case
  proof (cases "off < len \<and> ca < MMIO_BASE")
    case False
    then show ?thesis
      using "1.prems" by (subst read_bytes_loop.simps)
        (auto simp: put_slice_def dest!: length_read_each split: Option.bind_split)
  next
    case True
    have n: "offset_of ca + ?n \<le> 65536" "off + ?n \<le> len"
      using True chunk_bounds [of off _ ca] by (auto simp: PAGE_SIZE_def)
    let ?buf = "take off buf @ ?seg @ drop (off + ?n) buf"
    have "read_bytes_loop E m len ca off buf h
        = read_bytes_loop E m len (ca + word_of_nat ?n) (off + ?n) ?buf h"
      using True n "1.prems"
      by (subst read_bytes_loop.simps) (simp add: Let_def mem_simps page_segment put_slice_def del: upt.simps)
    also have "\<dots> = do {
         (bs, h) \<leftarrow> read_each (read_u8 E) (ca + word_of_nat ?n) 0 (len - (off + ?n)) m h;
         Some (take (off + ?n) ?buf @ bs, h)
       }"
      using True n "1.prems" "1.IH" [of "idx_of ca" "offset_of ca" ?n "snd (pages m) (idx_of ca)" ?seg ?buf]
      by (simp add: mem_simps page_segment put_slice_def del: upt.simps)
    also have "take (off + ?n) ?buf = take off buf @ ?seg"
      using n "1.prems" by simp
    also have "do {
         (bs, h) \<leftarrow> read_each (read_u8 E) (ca + word_of_nat ?n) 0 (len - (off + ?n)) m h;
         Some ((take off buf @ ?seg) @ bs, h)
       } = do {
         (bs, h) \<leftarrow> read_each (read_u8 E) ca 0 (?n + (len - (off + ?n))) m h;
         Some (take off buf @ bs, h)
       }"
      unfolding read_each_add using True n "1.prems"
      by (simp add: read_each_in_page read_each_base
          split: Option.bind_split del: upt.simps)
    also have "?n + (len - (off + ?n)) = len - off" using n by simp
    finally show ?thesis .
  qed
qed

lemma read_bytes_default:
  "wf_memory m \<Longrightarrow> read_bytes E addr len m h = default_read_bytes (read_u8 E) addr len m h"
  by (auto simp: read_bytes_def default_read_bytes_def read_bytes_loop_eq Let_def split: Option.bind_split)

section \<open>Writing\<close>

definition blit :: "page \<Rightarrow> nat \<Rightarrow> u8 list \<Rightarrow> page" where
  "blit p lo ys = (\<lambda>i. if lo \<le> i \<and> i < lo + length ys then ys ! (i - lo) else p i)"

lemma blit_Nil [simp]: "blit p lo [] = p"
  by (rule ext) (auto simp: blit_def)

lemma blit_Cons: "blit p lo (b # bs) = blit (p(lo := b)) (Suc lo) bs"
  by (rule ext) (auto simp: blit_def nth_Cons' Suc_le_eq)

lemma write_each_put_page:
  assumes "wf_memory m" "a < MMIO_BASE"
  shows "offset_of a + i + length bs \<le> 65536 \<Longrightarrow>
    write_each (write_u8 E) a i bs (put_page m (idx_of a) p) h =
      Some (put_page m (idx_of a) (blit p (offset_of a + i) bs), h)"
proof (induction bs arbitrary: i p)
  case (Cons b bs)
  then have "offset_of a + i < 65536" by simp
  with assms have "write_u8 E (a + word_of_nat i) b (put_page m (idx_of a) p) h =
      Some (put_page m (idx_of a) (p(offset_of a + i := b)), h)"
    by (simp add: mem_simps next_in_page poke_in_page)
  with Cons show ?case by (simp add: blit_Cons fun_upd_def)
qed simp

lemma write_each_in_page:
  assumes "wf_memory m" "a < MMIO_BASE" "bs \<noteq> []" "offset_of a + length bs \<le> 65536"
  shows "write_each (write_u8 E) a 0 bs m h =
    Some (put_page m (idx_of a) (blit (page_at m (idx_of a)) (offset_of a) bs), h)"
proof -
  obtain b cs where bs: "bs = b # cs" using assms(3) by (cases bs) auto
  have "write_u8 E a b m h = Some (put_page m (idx_of a) ((page_at m (idx_of a))(offset_of a := b)), h)"
    using assms by (simp add: mem_simps poke_def)
  then show ?thesis
    using write_each_put_page [OF assms(1,2), of "Suc 0" cs E] assms(4) by (simp add: bs blit_Cons)
qed

lemma write_bytes_loop_eq:
  "wf_memory m \<Longrightarrow> write_bytes_loop E bytes ca off m h = write_each (write_u8 E) ca 0 (drop off bytes) m h"
proof (induction E bytes ca off m h rule: write_bytes_loop.induct)
  case (1 E bytes ca off m h)
  let ?n = "min (PAGE_SIZE - offset_of ca) (length bytes - off)"
  let ?src = "take ?n (drop off bytes)"
  let ?m = "put_page m (idx_of ca) (blit (page_at m (idx_of ca)) (offset_of ca) ?src)"
  show ?case
  proof (cases "off < length bytes \<and> ca < MMIO_BASE")
    case False
    then show ?thesis by (subst write_bytes_loop.simps) auto
  next
    case True
    have n: "offset_of ca + ?n \<le> 65536" "off + ?n \<le> length bytes" "0 < ?n"
      using True chunk_bounds [of off _ ca] by (auto simp: PAGE_SIZE_def)
    have len: "length ?src = ?n" using n by simp
    have seg: "write_each (write_u8 E) ca 0 ?src m h = Some (?m, h)"
      by (rule write_each_in_page) (use True n len "1.prems" in auto)
    have "write_bytes_loop E bytes ca off m h
        = write_bytes_loop E bytes (ca + word_of_nat ?n) (off + ?n) ?m h"
      using True n len "1.prems"
      by (subst write_bytes_loop.simps)
         (simp add: Let_def mem_simps slice_def array_put_slice_def blit_def PAGE_SIZE_def)
    also have "\<dots> = write_each (write_u8 E) (ca + word_of_nat ?n) 0 (drop (off + ?n) bytes) ?m h"
      using True n len "1.prems" "1.IH" [of "idx_of ca" "offset_of ca" ?n
        "(page_at m (idx_of ca), put_page m (idx_of ca) (page_at m (idx_of ca)))" "page_at m (idx_of ca)"
        "put_page m (idx_of ca) (page_at m (idx_of ca))" ?src "blit (page_at m (idx_of ca)) (offset_of ca) ?src" ?m]
      by (simp add: mem_simps slice_def array_put_slice_def blit_def PAGE_SIZE_def)
    also have "\<dots> = write_each (write_u8 E) ca 0 (?src @ drop (off + ?n) bytes) m h"
      by (simp only: write_each_append seg write_each_base bind.bind_lunit prod.case len add_0)
    also have "?src @ drop (off + ?n) bytes = drop off bytes"
      by (metis append_take_drop_id drop_drop add.commute)
    finally show ?thesis .
  qed
qed

lemma write_bytes_default:
  "wf_memory m \<Longrightarrow> write_bytes E addr bytes m h = default_write_bytes (write_u8 E) addr bytes m h"
  by (auto simp: write_bytes_def default_write_bytes_def write_bytes_loop_eq)

end
