(* ===== verification/Float.thy ===== *)
theory Float
  imports Prelude
begin

text \<open>
  Rust's \<open>f32\<close> and \<open>f64\<close> as the program uses them, on bit patterns (\<open>u32\<close>, \<open>u64\<close>), after IEEE 754 with
  rounding to nearest, ties to even: arithmetic, square root, comparison, classification and the
  \<open>as\<close> conversions, which saturate and send NaN to zero.

  A pattern is unpacked to an exact number \<open>(-1)^s * m * 2^e\<close>; operations are exact on those numbers
  (division and square root keep enough bits and a sticky bit) and \<open>round_pack\<close> rounds once. A format
  is given by the width \<open>mb\<close> of its stored significand and \<open>eb\<close> of its exponent. The NaN that an operation
  produces is the canonical one; the emulator canonicalises every arithmetic NaN before it stores it.
\<close>

section \<open>Formats\<close>

datatype fp = NaN | Inf bool | Fin bool nat int

definition fp_bias :: "nat \<Rightarrow> int" where
  "fp_bias eb = 2 ^ (eb - 1) - 1"

text \<open>The exponent of the least significant bit of a subnormal number.\<close>

definition fp_emin :: "nat \<Rightarrow> nat \<Rightarrow> int" where
  "fp_emin mb eb = 1 - fp_bias eb - int mb"

definition unpack :: "nat \<Rightarrow> nat \<Rightarrow> nat \<Rightarrow> fp" where
  "unpack mb eb bits =
     (let s = odd (bits div 2 ^ (mb + eb)); e = bits div 2 ^ mb mod 2 ^ eb; f = bits mod 2 ^ mb in
      if e = 2 ^ eb - 1 then (if f = 0 then Inf s else NaN)
      else if e = 0 then Fin s f (fp_emin mb eb)
      else Fin s (f + 2 ^ mb) (fp_emin mb eb + int e - 1))"

fun bitlen :: "nat \<Rightarrow> nat" where
  "bitlen n = (if n = 0 then 0 else Suc (bitlen (n div 2)))"

declare bitlen.simps [simp del]

text \<open>\<open>m / 2^k\<close> to the nearest integer, ties to even.\<close>

definition rne :: "nat \<Rightarrow> nat \<Rightarrow> nat" where
  "rne m k =
     (if k = 0 then m
      else let d = m div 2 ^ k; r = m mod 2 ^ k; half = 2 ^ (k - 1) in
        if half < r \<or> half = r \<and> odd d then Suc d else d)"

definition fp_sign :: "nat \<Rightarrow> nat \<Rightarrow> bool \<Rightarrow> nat" where
  "fp_sign mb eb s = (if s then 2 ^ (mb + eb) else 0)"

definition fp_inf :: "nat \<Rightarrow> nat \<Rightarrow> nat" where
  "fp_inf mb eb = (2 ^ eb - 1) * 2 ^ mb"

text \<open>
  The magnitude bits of \<open>m * 2^e\<close>: \<open>q\<close> is the exponent of the result's last place; the carry of the
  rounding and the step from subnormal to normal run through the addition into the exponent field.
\<close>

definition round_mag :: "nat \<Rightarrow> nat \<Rightarrow> nat \<Rightarrow> int \<Rightarrow> nat" where
  "round_mag mb eb m e =
     (let q = max (fp_emin mb eb) (e + int (bitlen m) - int mb - 1);
          m' = (if q \<le> e then m * 2 ^ nat (e - q) else rne m (nat (q - e)));
          bits = nat (q - fp_emin mb eb) * 2 ^ mb + m'
      in if m = 0 then 0 else min bits (fp_inf mb eb))"

fun round_pack :: "nat \<Rightarrow> nat \<Rightarrow> fp \<Rightarrow> nat" where
  "round_pack mb eb NaN = fp_inf mb eb + 2 ^ (mb - 1)"
| "round_pack mb eb (Inf s) = fp_sign mb eb s + fp_inf mb eb"
| "round_pack mb eb (Fin s m e) = fp_sign mb eb s + round_mag mb eb m e"

section \<open>Exact operations\<close>

definition signed_mag :: "bool \<Rightarrow> nat \<Rightarrow> int" where
  "signed_mag s m = (if s then - int m else int m)"

fun fp_neg :: "fp \<Rightarrow> fp" where
  "fp_neg NaN = NaN"
| "fp_neg (Inf s) = Inf (\<not> s)"
| "fp_neg (Fin s m e) = Fin (\<not> s) m e"

fun fp_add :: "fp \<Rightarrow> fp \<Rightarrow> fp" where
  "fp_add NaN y = NaN"
| "fp_add x NaN = NaN"
| "fp_add (Inf s) (Inf t) = (if s = t then Inf s else NaN)"
| "fp_add (Inf s) (Fin t m e) = Inf s"
| "fp_add (Fin s m e) (Inf t) = Inf t"
| "fp_add (Fin s m e) (Fin t n f) =
     (let g = min e f;
          v = signed_mag s (m * 2 ^ nat (e - g)) + signed_mag t (n * 2 ^ nat (f - g))
      in if v = 0 then Fin (s \<and> t) 0 g else Fin (v < 0) (nat \<bar>v\<bar>) g)"

definition fp_sub :: "fp \<Rightarrow> fp \<Rightarrow> fp" where
  "fp_sub x y = fp_add x (fp_neg y)"

fun fp_mul :: "fp \<Rightarrow> fp \<Rightarrow> fp" where
  "fp_mul NaN y = NaN"
| "fp_mul x NaN = NaN"
| "fp_mul (Inf s) (Inf t) = Inf (s \<noteq> t)"
| "fp_mul (Inf s) (Fin t n f) = (if n = 0 then NaN else Inf (s \<noteq> t))"
| "fp_mul (Fin s m e) (Inf t) = (if m = 0 then NaN else Inf (s \<noteq> t))"
| "fp_mul (Fin s m e) (Fin t n f) = Fin (s \<noteq> t) (m * n) (e + f)"

text \<open>The quotient to at least \<open>mb + 3\<close> bits, with a sticky bit for the remainder.\<close>

fun fp_div :: "nat \<Rightarrow> fp \<Rightarrow> fp \<Rightarrow> fp" where
  "fp_div mb NaN y = NaN"
| "fp_div mb x NaN = NaN"
| "fp_div mb (Inf s) (Inf t) = NaN"
| "fp_div mb (Inf s) (Fin t n f) = Inf (s \<noteq> t)"
| "fp_div mb (Fin s m e) (Inf t) = Fin (s \<noteq> t) 0 0"
| "fp_div mb (Fin s m e) (Fin t n f) =
     (if n = 0 then (if m = 0 then NaN else Inf (s \<noteq> t))
      else let k = mb + 3 + bitlen n; q = m * 2 ^ k div n; r = m * 2 ^ k mod n
        in Fin (s \<noteq> t) (2 * q + (if r = 0 then 0 else 1)) (e - f - int k - 1))"

text \<open>Integer square root, two bits at a time.\<close>

definition isqrt_step :: "nat \<Rightarrow> nat \<Rightarrow> nat" where
  "isqrt_step n r = (if (2 * r + 1) * (2 * r + 1) \<le> n then 2 * r + 1 else 2 * r)"

fun isqrt :: "nat \<Rightarrow> nat" where
  "isqrt n = (if n = 0 then 0 else isqrt_step n (isqrt (n div 4)))"

declare isqrt.simps [simp del]

text \<open>The root of \<open>n * 2^g\<close> for even \<open>g\<close>, with a sticky bit below its last place.\<close>

definition sqrt_sticky :: "nat \<Rightarrow> nat \<Rightarrow> int \<Rightarrow> fp" where
  "sqrt_sticky n r g = Fin False (2 * r + (if r * r = n then 0 else 1)) (g div 2 - 1)"

fun fp_sqrt :: "nat \<Rightarrow> fp \<Rightarrow> fp" where
  "fp_sqrt mb NaN = NaN"
| "fp_sqrt mb (Inf s) = (if s then NaN else Inf False)"
| "fp_sqrt mb (Fin s m e) =
     (if m = 0 then Fin s 0 e
      else if s then NaN
      else let k = 2 * (mb + 4) + (if even e then 0 else 1); n = m * 2 ^ k
        in sqrt_sticky n (isqrt n) (e - int k))"

section \<open>Comparison\<close>

fun fp_less :: "fp \<Rightarrow> fp \<Rightarrow> bool" where
  "fp_less NaN y = False"
| "fp_less x NaN = False"
| "fp_less (Inf s) (Inf t) = (s \<and> \<not> t)"
| "fp_less (Inf s) (Fin t n f) = s"
| "fp_less (Fin s m e) (Inf t) = (\<not> t)"
| "fp_less (Fin s m e) (Fin t n f) =
     (let g = min e f in signed_mag s (m * 2 ^ nat (e - g)) < signed_mag t (n * 2 ^ nat (f - g)))"

fun fp_eq :: "fp \<Rightarrow> fp \<Rightarrow> bool" where
  "fp_eq NaN y = False"
| "fp_eq x NaN = False"
| "fp_eq (Inf s) (Inf t) = (s = t)"
| "fp_eq (Inf s) (Fin t n f) = False"
| "fp_eq (Fin s m e) (Inf t) = False"
| "fp_eq (Fin s m e) (Fin t n f) =
     (let g = min e f in signed_mag s (m * 2 ^ nat (e - g)) = signed_mag t (n * 2 ^ nat (f - g)))"

definition fp_le :: "fp \<Rightarrow> fp \<Rightarrow> bool" where
  "fp_le x y = (fp_less x y \<or> fp_eq x y)"

section \<open>Conversions to integers\<close>

definition trunc_mag :: "nat \<Rightarrow> int \<Rightarrow> nat" where
  "trunc_mag m e = (if e \<ge> 0 then m * 2 ^ nat e else m div 2 ^ nat (- e))"

text \<open>\<open>x as T\<close> for an integer type with values \<open>lo..hi\<close>.\<close>

fun fp_to_int :: "int \<Rightarrow> int \<Rightarrow> fp \<Rightarrow> int" where
  "fp_to_int lo hi NaN = 0"
| "fp_to_int lo hi (Inf s) = (if s then lo else hi)"
| "fp_to_int lo hi (Fin s m e) = max lo (min hi (signed_mag s (trunc_mag m e)))"

definition fp_of_int :: "int \<Rightarrow> fp" where
  "fp_of_int i = Fin (i < 0) (nat \<bar>i\<bar>) 0"

section \<open>The two formats\<close>

definition f32_val :: "u32 \<Rightarrow> fp" where
  "f32_val b = unpack 23 8 (unat b)"

definition f32_of :: "fp \<Rightarrow> u32" where
  "f32_of x = word_of_nat (round_pack 23 8 x)"

definition f64_val :: "u64 \<Rightarrow> fp" where
  "f64_val b = unpack 52 11 (unat b)"

definition f64_of :: "fp \<Rightarrow> u64" where
  "f64_of x = word_of_nat (round_pack 52 11 x)"

definition f32_add :: "u32 \<Rightarrow> u32 \<Rightarrow> u32" where "f32_add a b = f32_of (fp_add (f32_val a) (f32_val b))"
definition f32_sub :: "u32 \<Rightarrow> u32 \<Rightarrow> u32" where "f32_sub a b = f32_of (fp_sub (f32_val a) (f32_val b))"
definition f32_mul :: "u32 \<Rightarrow> u32 \<Rightarrow> u32" where "f32_mul a b = f32_of (fp_mul (f32_val a) (f32_val b))"
definition f32_div :: "u32 \<Rightarrow> u32 \<Rightarrow> u32" where "f32_div a b = f32_of (fp_div 23 (f32_val a) (f32_val b))"
definition f32_sqrt :: "u32 \<Rightarrow> u32" where "f32_sqrt a = f32_of (fp_sqrt 23 (f32_val a))"
definition f32_neg :: "u32 \<Rightarrow> u32" where "f32_neg a = a XOR 0x80000000"

definition f64_add :: "u64 \<Rightarrow> u64 \<Rightarrow> u64" where "f64_add a b = f64_of (fp_add (f64_val a) (f64_val b))"
definition f64_sub :: "u64 \<Rightarrow> u64 \<Rightarrow> u64" where "f64_sub a b = f64_of (fp_sub (f64_val a) (f64_val b))"
definition f64_mul :: "u64 \<Rightarrow> u64 \<Rightarrow> u64" where "f64_mul a b = f64_of (fp_mul (f64_val a) (f64_val b))"
definition f64_div :: "u64 \<Rightarrow> u64 \<Rightarrow> u64" where "f64_div a b = f64_of (fp_div 52 (f64_val a) (f64_val b))"
definition f64_sqrt :: "u64 \<Rightarrow> u64" where "f64_sqrt a = f64_of (fp_sqrt 52 (f64_val a))"
definition f64_neg :: "u64 \<Rightarrow> u64" where "f64_neg a = a XOR 0x8000000000000000"

definition f32_is_nan :: "u32 \<Rightarrow> bool" where "f32_is_nan b = (b AND 0x7FFFFFFF > 0x7F800000)"
definition f32_is_infinite :: "u32 \<Rightarrow> bool" where "f32_is_infinite b = (b AND 0x7FFFFFFF = 0x7F800000)"
definition f32_is_zero :: "u32 \<Rightarrow> bool" where "f32_is_zero b = (b AND 0x7FFFFFFF = 0)"
definition f32_is_subnormal :: "u32 \<Rightarrow> bool" where
  "f32_is_subnormal b = (b AND 0x7F800000 = 0 \<and> b AND 0x007FFFFF \<noteq> 0)"

definition f64_is_nan :: "u64 \<Rightarrow> bool" where "f64_is_nan b = (b AND 0x7FFFFFFFFFFFFFFF > 0x7FF0000000000000)"
definition f64_is_infinite :: "u64 \<Rightarrow> bool" where
  "f64_is_infinite b = (b AND 0x7FFFFFFFFFFFFFFF = 0x7FF0000000000000)"
definition f64_is_zero :: "u64 \<Rightarrow> bool" where "f64_is_zero b = (b AND 0x7FFFFFFFFFFFFFFF = 0)"
definition f64_is_subnormal :: "u64 \<Rightarrow> bool" where
  "f64_is_subnormal b = (b AND 0x7FF0000000000000 = 0 \<and> b AND 0x000FFFFFFFFFFFFF \<noteq> 0)"

definition f32_to_i32 :: "u32 \<Rightarrow> i32" where
  "f32_to_i32 b = word_of_int (fp_to_int (- (2 ^ 31)) (2 ^ 31 - 1) (f32_val b))"
definition f32_to_u32 :: "u32 \<Rightarrow> u32" where
  "f32_to_u32 b = word_of_int (fp_to_int 0 (2 ^ 32 - 1) (f32_val b))"
definition f64_to_i32 :: "u64 \<Rightarrow> i32" where
  "f64_to_i32 b = word_of_int (fp_to_int (- (2 ^ 31)) (2 ^ 31 - 1) (f64_val b))"
definition f64_to_u32 :: "u64 \<Rightarrow> u32" where
  "f64_to_u32 b = word_of_int (fp_to_int 0 (2 ^ 32 - 1) (f64_val b))"

definition i32_to_f32 :: "i32 \<Rightarrow> u32" where "i32_to_f32 w = f32_of (fp_of_int (sint w))"
definition u32_to_f32 :: "u32 \<Rightarrow> u32" where "u32_to_f32 w = f32_of (fp_of_int (uint w))"
definition i32_to_f64 :: "i32 \<Rightarrow> u64" where "i32_to_f64 w = f64_of (fp_of_int (sint w))"
definition u32_to_f64 :: "u32 \<Rightarrow> u64" where "u32_to_f64 w = f64_of (fp_of_int (uint w))"

definition f64_to_f32 :: "u64 \<Rightarrow> u32" where "f64_to_f32 b = f32_of (f64_val b)"
definition f32_to_f64 :: "u32 \<Rightarrow> u64" where "f32_to_f64 b = f64_of (f32_val b)"

text \<open>
  \<open>a.min(b)\<close> and \<open>a.max(b)\<close> for operands that are not NaN; \<open>tie\<close> says which operand is returned when they
  compare equal.
\<close>

definition f32_min :: "(u64 \<Rightarrow> u64 \<Rightarrow> bool) \<Rightarrow> u32 \<Rightarrow> u32 \<Rightarrow> u32" where
  "f32_min tie a b =
     (if fp_less (f32_val a) (f32_val b) then a else if fp_less (f32_val b) (f32_val a) then b
      else if tie (ucast a) (ucast b) then a else b)"
definition f32_max :: "(u64 \<Rightarrow> u64 \<Rightarrow> bool) \<Rightarrow> u32 \<Rightarrow> u32 \<Rightarrow> u32" where
  "f32_max tie a b =
     (if fp_less (f32_val b) (f32_val a) then a else if fp_less (f32_val a) (f32_val b) then b
      else if tie (ucast a) (ucast b) then a else b)"
definition f64_min :: "(u64 \<Rightarrow> u64 \<Rightarrow> bool) \<Rightarrow> u64 \<Rightarrow> u64 \<Rightarrow> u64" where
  "f64_min tie a b =
     (if fp_less (f64_val a) (f64_val b) then a else if fp_less (f64_val b) (f64_val a) then b
      else if tie a b then a else b)"
definition f64_max :: "(u64 \<Rightarrow> u64 \<Rightarrow> bool) \<Rightarrow> u64 \<Rightarrow> u64 \<Rightarrow> u64" where
  "f64_max tie a b =
     (if fp_less (f64_val b) (f64_val a) then a else if fp_less (f64_val a) (f64_val b) then b
      else if tie a b then a else b)"

end
