(* ===== verification/Fmt.thy ===== *)
theory Fmt
  imports Prelude
begin

text \<open>
  What the program uses of Rust's number formatting and parsing: the placeholders \<open>{}\<close>, \<open>{:x}\<close>, \<open>{:08x}\<close>,
  \<open>{:#x}\<close>, \<open>{:#010x}\<close> of \<open>format!\<close> and the functions \<open>from_str_radix\<close> and \<open>parse\<close> of the unsigned
  integers. Strings are lists of \<^typ>\<open>char\<close>, one per byte.
\<close>

section \<open>Formatting\<close>

fun radix_digits :: "nat \<Rightarrow> nat \<Rightarrow> nat list" where
  "radix_digits b n = (if b < 2 \<or> n < b then [n] else radix_digits b (n div b) @ [n mod b])"

declare radix_digits.simps [simp del]

definition digit_char :: "nat \<Rightarrow> char" where
  "digit_char d = (if d < 10 then char_of (48 + d) else char_of (87 + d))"

definition fmt_radix :: "nat \<Rightarrow> nat \<Rightarrow> string" where
  "fmt_radix b n = map digit_char (radix_digits b n)"

definition fmt_dec :: "nat \<Rightarrow> string" where
  "fmt_dec n = fmt_radix 10 n"

definition fmt_int :: "int \<Rightarrow> string" where
  "fmt_int i = (if i < 0 then ''-'' @ fmt_dec (nat (- i)) else fmt_dec (nat i))"

definition fmt_hex :: "nat \<Rightarrow> string" where
  "fmt_hex n = fmt_radix 16 n"

definition pad_zeros :: "nat \<Rightarrow> string \<Rightarrow> string" where
  "pad_zeros w s = replicate (w - length s) (CHR ''0'') @ s"

text \<open>\<open>{:0wx}\<close> and \<open>{:#0wx}\<close>; the width of the second counts the prefix.\<close>

definition fmt_hex0 :: "nat \<Rightarrow> nat \<Rightarrow> string" where
  "fmt_hex0 w n = pad_zeros w (fmt_hex n)"

definition fmt_alt_hex :: "nat \<Rightarrow> nat \<Rightarrow> string" where
  "fmt_alt_hex w n = ''0x'' @ pad_zeros (w - 2) (fmt_hex n)"

section \<open>Parsing\<close>

definition digit_val :: "nat \<Rightarrow> char \<Rightarrow> nat option" where
  "digit_val radix c =
     (let n = of_char c :: nat;
          d = (if 48 \<le> n \<and> n \<le> 57 then n - 48
               else if 97 \<le> n \<and> n \<le> 122 then n - 87
               else if 65 \<le> n \<and> n \<le> 90 then n - 55 else radix)
      in if d < radix then Some d else None)"

fun parse_digits :: "nat \<Rightarrow> nat \<Rightarrow> nat \<Rightarrow> string \<Rightarrow> nat option" where
  "parse_digits radix bound acc [] = Some acc"
| "parse_digits radix bound acc (c # cs) = do {
     d \<leftarrow> digit_val radix c;
     if acc * radix + d < bound then parse_digits radix bound (acc * radix + d) cs else None
   }"

definition from_str_radix :: "nat \<Rightarrow> nat \<Rightarrow> string \<Rightarrow> nat option" where
  "from_str_radix bound radix src =
     (case src of
        [] \<Rightarrow> None
      | c # cs \<Rightarrow>
          if (c = CHR ''+'' \<or> c = CHR ''-'') \<and> cs = [] then None
          else if c = CHR ''+'' then parse_digits radix bound 0 cs
          else parse_digits radix bound 0 src)"

section \<open>Round trip\<close>

lemma radix_digits_less: "2 \<le> b \<Longrightarrow> d \<in> set (radix_digits b n) \<Longrightarrow> d < b"
proof (induction b n rule: radix_digits.induct)
  case (1 b n)
  then show ?case by (subst (asm) (2) radix_digits.simps) (auto split: if_splits)
qed

lemma radix_digits_nonempty: "radix_digits b n \<noteq> []"
  by (subst radix_digits.simps) simp

lemma digit_val_digit_char: "d < radix \<Longrightarrow> radix \<le> 36 \<Longrightarrow> digit_val radix (digit_char d) = Some d"
  by (simp add: digit_val_def digit_char_def)

lemma parse_digits_append:
  "parse_digits radix bound acc (xs @ ys) =
     do { a \<leftarrow> parse_digits radix bound acc xs; parse_digits radix bound a ys }"
  by (induction xs arbitrary: acc) (auto split: Option.bind_split)

lemma parse_fmt_radix:
  assumes "2 \<le> b" "b \<le> 36"
  shows "n < bound \<Longrightarrow> parse_digits b bound 0 (fmt_radix b n) = Some n"
  using assms
proof (induction b n rule: radix_digits.induct)
  case (1 b n)
  show ?case
  proof (cases "n < b")
    case True
    then show ?thesis
      using 1 by (simp add: fmt_radix_def radix_digits.simps [of b n] digit_val_digit_char)
  next
    case False
    then have "parse_digits b bound 0 (fmt_radix b (n div b)) = Some (n div b)"
      using 1 by (meson div_le_dividend le_less_trans not_less)
    then show ?thesis
      using False 1 by (simp add: fmt_radix_def radix_digits.simps [of b n] parse_digits_append
          digit_val_digit_char)
  qed
qed

lemma digit_char_not_sign: "d < 36 \<Longrightarrow> digit_char d \<noteq> CHR ''+'' \<and> digit_char d \<noteq> CHR ''-''"
proof -
  assume "d < 36"
  then have "of_char (digit_char d) \<noteq> (43::nat) \<and> of_char (digit_char d) \<noteq> (45::nat)"
    by (simp add: digit_char_def)
  then show ?thesis by auto
qed

lemma from_str_radix_fmt:
  assumes "2 \<le> b" "b \<le> 36" "n < bound"
  shows "from_str_radix bound b (fmt_radix b n) = Some n"
proof -
  obtain d ds where ds: "radix_digits b n = d # ds"
    using radix_digits_nonempty by (meson list.exhaust)
  then have "d < b"
    using radix_digits_less [OF assms(1), of d n] by simp
  then have "digit_char d \<noteq> CHR ''+'' \<and> digit_char d \<noteq> CHR ''-''"
    using assms(2) by (intro digit_char_not_sign) simp
  then show ?thesis
    using parse_fmt_radix [OF assms] ds by (simp add: from_str_radix_def fmt_radix_def)
qed

end
