(* ===== verification/Cpu_State.thy ===== *)
theory Cpu_State
  imports Inst Memory_Bytes Float Fmt
begin

text \<open>
  The state of the processor, \<open>src/cpu.rs\<close> and the result types of \<open>src/lib.rs\<close>: errors and their
  messages, the CSR file, the integer and floating-point registers, interrupt delivery and the
  debugger snapshot. The machine of the model is the processor, the memory and the host state.

  Integer register \<open>x0\<close> reads as zero and ignores writes; a floating-point register is 64 bits, and a
  single-precision value occupies it NaN-boxed.
\<close>

section \<open>Constants\<close>

definition NAN_F32 :: u32 where "NAN_F32 = 0x7FC00000"
definition NAN_F64 :: u64 where "NAN_F64 = 0xFFFFFFFF7FC00000"
definition MSTATUS :: u16 where "MSTATUS = 0x300"
definition MEPC :: u16 where "MEPC = 0x341"
definition MCAUSE :: u16 where "MCAUSE = 0x342"
definition MTVEC :: u16 where "MTVEC = 0x305"
definition MSTATUS_MIE :: u32 where "MSTATUS_MIE = push_bit 3 1"
definition MSTATUS_MPIE :: u32 where "MSTATUS_MPIE = push_bit 7 1"
definition A0 :: nat where [simp]: "A0 = 10"
definition A1 :: nat where [simp]: "A1 = 11"
definition A2 :: nat where [simp]: "A2 = 12"
definition A3 :: nat where [simp]: "A3 = 13"
definition A7 :: nat where [simp]: "A7 = 17"
definition CSR_COUNT :: nat where "CSR_COUNT = 4096"
definition CSR_MASK :: nat where "CSR_MASK = CSR_COUNT - 1"
definition TRAP_EXIT_CODE :: i32 where "TRAP_EXIT_CODE = 134"

section \<open>Errors and results\<close>

record UnknownSyscall =
  sys_num :: u32
  sys_a0 :: u32
  sys_a1 :: u32
  sys_a2 :: u32
  sys_a3 :: u32

datatype cpu_error =
    IllegalInstruction u32 u32
  | UnknownOpcode u32 u8
  | UnalignedAccess u32 u32
  | MemoryFault u32 u32
  | UnhandledSyscall u32 i32
  | UnknownSyscallError UnknownSyscall
  | ExecutionError string

fun cpu_error_to_string :: "cpu_error \<Rightarrow> string" where
  "cpu_error_to_string (IllegalInstruction p raw) =
     ''Illegal instruction '' @ fmt_alt_hex 10 (unat raw) @ '' at PC '' @ fmt_alt_hex 10 (unat p)"
| "cpu_error_to_string (UnknownOpcode p opcode) =
     ''Unknown opcode '' @ fmt_alt_hex 4 (unat opcode) @ '' at PC '' @ fmt_alt_hex 10 (unat p)"
| "cpu_error_to_string (UnalignedAccess p addr) =
     ''Unaligned memory access at '' @ fmt_alt_hex 10 (unat addr) @ '' (PC '' @ fmt_alt_hex 10 (unat p) @ '')''"
| "cpu_error_to_string (MemoryFault p addr) =
     ''Memory fault at address '' @ fmt_alt_hex 10 (unat addr) @ '' (PC '' @ fmt_alt_hex 10 (unat p) @ '')''"
| "cpu_error_to_string (UnhandledSyscall p number) =
     ''Unhandled syscall '' @ fmt_int (sint number) @ '' at PC '' @ fmt_alt_hex 10 (unat p)"
| "cpu_error_to_string (UnknownSyscallError sys) =
     ''Unknown syscall '' @ fmt_dec (unat (sys_num sys)) @ '' (a0: '' @ fmt_alt_hex 0 (unat (sys_a0 sys))
     @ '', a1: '' @ fmt_alt_hex 0 (unat (sys_a1 sys)) @ '', a2: '' @ fmt_alt_hex 0 (unat (sys_a2 sys))
     @ '', a3: '' @ fmt_alt_hex 0 (unat (sys_a3 sys)) @ '')''"
| "cpu_error_to_string (ExecutionError msg) = msg"

datatype step_result = StepOk | BreakpointHit u32 | StepHalted i32 | Trap u32

datatype slice_status = Running | Halted | Trapped | Breakpoint

record slice_outcome =
  so_status :: slice_status
  so_steps :: u64
  so_pc :: u32
  so_exit_code :: i32

section \<open>The CSR file\<close>

type_synonym csr_file = "u32 array"

definition csr_new :: csr_file where
  "csr_new = (\<lambda>_. 0)"

definition csr_get :: "csr_file \<Rightarrow> u16 \<Rightarrow> u32 option" where
  "csr_get f num = idx CSR_COUNT f (unat num AND CSR_MASK)"

definition csr_set :: "csr_file \<Rightarrow> u16 \<Rightarrow> u32 \<Rightarrow> csr_file option" where
  "csr_set f num val = upd CSR_COUNT f (unat num AND CSR_MASK) val"

section \<open>The processor\<close>

record cpu =
  regs :: "u32 array"
  fregs :: "u64 array"
  pc :: u32
  fcsr :: u32
  csrs :: csr_file
  is_halted :: bool
  exit_code :: i32
  debug_enabled :: bool
  breakpoints :: "u32 set"
  step_counter :: u64
  has_custom_syscalls :: bool
  trapped :: bool
  resume_past_breakpoint :: "u32 option"

definition cpu_new :: cpu where
  "cpu_new =
     \<lparr>regs = (\<lambda>_. 0)(2 := 0x7FFFFFC), fregs = (\<lambda>_. 0), pc = 0, fcsr = 0, csrs = csr_new,
      is_halted = False, exit_code = 0, debug_enabled = False, breakpoints = {}, step_counter = 0,
      has_custom_syscalls = False, trapped = False, resume_past_breakpoint = None\<rparr>"

definition read_reg :: "cpu \<Rightarrow> nat \<Rightarrow> u32 option" where
  "read_reg c r = (if r = 0 then Some 0 else idx 32 (regs c) r)"

definition write_reg :: "cpu \<Rightarrow> nat \<Rightarrow> u32 \<Rightarrow> cpu option" where
  "write_reg c r val =
     (if r \<noteq> 0 then do { rs \<leftarrow> upd 32 (regs c) r val; Some (c\<lparr>regs := rs\<rparr>) } else Some c)"

text \<open>\<open>self.fregs[r]\<close> and \<open>self.fregs[r] = f64::from_bits(bits)\<close>.\<close>

definition read_freg :: "cpu \<Rightarrow> nat \<Rightarrow> u64 option" where
  "read_freg c r = idx 32 (fregs c) r"

definition write_freg :: "cpu \<Rightarrow> nat \<Rightarrow> u64 \<Rightarrow> cpu option" where
  "write_freg c r bits = do { fs \<leftarrow> upd 32 (fregs c) r bits; Some (c\<lparr>fregs := fs\<rparr>) }"

definition read_f32 :: "cpu \<Rightarrow> nat \<Rightarrow> u32 option" where
  "read_f32 c r = do {
     bits \<leftarrow> read_freg c r;
     Some (if drop_bit 32 bits = 0xFFFFFFFF then ucast bits else NAN_F32)
   }"

definition write_f32 :: "cpu \<Rightarrow> nat \<Rightarrow> u32 \<Rightarrow> cpu option" where
  "write_f32 c r val =
     (let bits = (if f32_is_nan val then NAN_F64 else push_bit 32 0xFFFFFFFF OR ucast val)
      in write_freg c r bits)"

definition read_f64 :: "cpu \<Rightarrow> nat \<Rightarrow> u64 option" where
  "read_f64 c r = read_freg c r"

definition write_f64 :: "cpu \<Rightarrow> nat \<Rightarrow> u64 \<Rightarrow> cpu option" where
  "write_f64 c r val =
     (let res_val = (if f64_is_nan val then 0x7FF8000000000000 else val) in write_freg c r res_val)"

section \<open>Interrupts\<close>

definition interrupts_enabled :: "cpu \<Rightarrow> bool option" where
  "interrupts_enabled c = do {
     mstatus \<leftarrow> csr_get (csrs c) MSTATUS;
     Some (mstatus AND MSTATUS_MIE \<noteq> 0)
   }"

definition handle_interrupt :: "cpu \<Rightarrow> i32 \<Rightarrow> cpu option" where
  "handle_interrupt c irq = do {
     f \<leftarrow> csr_set (csrs c) MEPC (pc c);
     f \<leftarrow> csr_set f MCAUSE (0x80000000 OR irq);
     mstatus \<leftarrow> csr_get f MSTATUS;
     let new_mstatus = mstatus AND NOT (MSTATUS_MIE OR MSTATUS_MPIE);
     let new_mstatus = (if mstatus AND MSTATUS_MIE \<noteq> 0 then new_mstatus OR MSTATUS_MPIE else new_mstatus);
     f \<leftarrow> csr_set f MSTATUS new_mstatus;
     mtvec \<leftarrow> csr_get f MTVEC;
     Some (c\<lparr>csrs := f, pc := (if mtvec \<noteq> 0 then mtvec else pc c)\<rparr>)
   }"

section \<open>The debugger snapshot\<close>

record debugger_snapshot =
  sn_pc :: u32
  sn_gpr :: "u32 list"
  sn_fpr :: "u64 list"
  sn_csrs :: "u32 list"
  sn_step_count :: u64
  sn_is_halted :: bool
  sn_is_breakpoint :: bool
  sn_hit_address :: u32
  sn_exit_code :: i32
  sn_trapped :: bool

definition snapshot :: "cpu \<Rightarrow> bool \<Rightarrow> u32 \<Rightarrow> debugger_snapshot option" where
  "snapshot c is_breakpoint hit_address = do {
     mstatus \<leftarrow> csr_get (csrs c) MSTATUS;
     mcause \<leftarrow> csr_get (csrs c) MCAUSE;
     mepc \<leftarrow> csr_get (csrs c) MEPC;
     mtvec \<leftarrow> csr_get (csrs c) MTVEC;
     Some \<lparr>sn_pc = pc c, sn_gpr = map (regs c) [0..<32], sn_fpr = map (fregs c) [0..<32],
       sn_csrs = [mstatus, mcause, mepc, mtvec, fcsr c], sn_step_count = step_counter c,
       sn_is_halted = is_halted c, sn_is_breakpoint = is_breakpoint, sn_hit_address = hit_address,
       sn_exit_code = exit_code c, sn_trapped = trapped c\<rparr>
   }"

section \<open>The machine\<close>

record 'h machine =
  cpu :: cpu
  mem :: memory
  host :: 'h

text \<open>A memory access by the processor: the host state is threaded through the device page.\<close>

definition mem_read_u8 :: "'h env \<Rightarrow> u32 \<Rightarrow> 'h machine \<Rightarrow> (u8 \<times> 'h machine) option" where
  "mem_read_u8 E addr s = do { (v, h) \<leftarrow> read_u8 E addr (mem s) (host s); Some (v, s\<lparr>host := h\<rparr>) }"

definition mem_read_u16 :: "'h env \<Rightarrow> u32 \<Rightarrow> 'h machine \<Rightarrow> (u16 \<times> 'h machine) option" where
  "mem_read_u16 E addr s = do { (v, h) \<leftarrow> read_u16 E addr (mem s) (host s); Some (v, s\<lparr>host := h\<rparr>) }"

definition mem_read_u32 :: "'h env \<Rightarrow> u32 \<Rightarrow> 'h machine \<Rightarrow> (u32 \<times> 'h machine) option" where
  "mem_read_u32 E addr s = do { (v, h) \<leftarrow> read_u32 E addr (mem s) (host s); Some (v, s\<lparr>host := h\<rparr>) }"

definition mem_fetch_window :: "'h env \<Rightarrow> u32 \<Rightarrow> 'h machine \<Rightarrow> ((u32 \<times> bool) \<times> 'h machine) option" where
  "mem_fetch_window E addr s =
     do { (v, h) \<leftarrow> fetch_window E addr (mem s) (host s); Some (v, s\<lparr>host := h\<rparr>) }"

definition mem_read_bytes :: "'h env \<Rightarrow> u32 \<Rightarrow> nat \<Rightarrow> 'h machine \<Rightarrow> (u8 list \<times> 'h machine) option" where
  "mem_read_bytes E addr n s =
     do { (v, h) \<leftarrow> read_bytes E addr n (mem s) (host s); Some (v, s\<lparr>host := h\<rparr>) }"

definition mem_write_u8 :: "'h env \<Rightarrow> u32 \<Rightarrow> u8 \<Rightarrow> 'h machine \<Rightarrow> 'h machine option" where
  "mem_write_u8 E addr v s =
     do { (m, h) \<leftarrow> write_u8 E addr v (mem s) (host s); Some (s\<lparr>mem := m, host := h\<rparr>) }"

definition mem_write_u16 :: "'h env \<Rightarrow> u32 \<Rightarrow> u16 \<Rightarrow> 'h machine \<Rightarrow> 'h machine option" where
  "mem_write_u16 E addr v s =
     do { (m, h) \<leftarrow> write_u16 E addr v (mem s) (host s); Some (s\<lparr>mem := m, host := h\<rparr>) }"

definition mem_write_u32 :: "'h env \<Rightarrow> u32 \<Rightarrow> u32 \<Rightarrow> 'h machine \<Rightarrow> 'h machine option" where
  "mem_write_u32 E addr v s =
     do { (m, h) \<leftarrow> write_u32 E addr v (mem s) (host s); Some (s\<lparr>mem := m, host := h\<rparr>) }"

definition mem_write_bytes :: "'h env \<Rightarrow> u32 \<Rightarrow> u8 list \<Rightarrow> 'h machine \<Rightarrow> 'h machine option" where
  "mem_write_bytes E addr bs s =
     do { (m, h) \<leftarrow> write_bytes E addr bs (mem s) (host s); Some (s\<lparr>mem := m, host := h\<rparr>) }"

text \<open>Register access by the machine.\<close>

definition get_reg :: "'h machine \<Rightarrow> nat \<Rightarrow> u32 option" where
  "get_reg s r = read_reg (cpu s) r"

definition set_reg :: "'h machine \<Rightarrow> nat \<Rightarrow> u32 \<Rightarrow> 'h machine option" where
  "set_reg s r v = do { c \<leftarrow> write_reg (cpu s) r v; Some (s\<lparr>cpu := c\<rparr>) }"

end
