(* ===== verification/Exec_Int.thy ===== *)
theory Exec_Int
  imports Cpu_State "HOL-Library.Signed_Division"
begin

text \<open>
  The integer instructions of \<open>src/cpu.rs\<close>: RV32I (\<open>exec_rv32i\<close>), M (\<open>exec_rv32m\<close>) and A (\<open>exec_rv32a\<close>).

  An instruction handler takes the machine and returns an \<open>outcome\<close>: \<open>None\<close> for a Rust panic, otherwise
  \<open>Inl\<close> the error or \<open>Inr\<close> the value, with the machine it leaves behind. Handlers that receive
  \<open>next_pc: &mut u32\<close> return the new \<open>next_pc\<close>. The functions that compute the value of an arm return an
  \<open>option\<close> of their own, \<open>None\<close> for the arm that the code rejects as an illegal instruction.
\<close>

section \<open>Outcomes\<close>

type_synonym ('a, 'h) outcome = "((cpu_error + 'a) \<times> 'h machine) option"

definition ok :: "'a \<Rightarrow> 'h machine \<Rightarrow> ('a, 'h) outcome" where
  "ok a s = Some (Inr a, s)"

definition err :: "cpu_error \<Rightarrow> 'h machine \<Rightarrow> ('a, 'h) outcome" where
  "err e s = Some (Inl e, s)"

definition illegal :: "DecodedInst32 \<Rightarrow> 'h machine \<Rightarrow> ('a, 'h) outcome" where
  "illegal inst s = err (IllegalInstruction (pc (cpu s)) (d_raw inst)) s"

text \<open>Rust's \<open>?\<close>: continue with the value, or return the error.\<close>

definition and_then :: "('a, 'h) outcome \<Rightarrow> ('a \<Rightarrow> 'h machine \<Rightarrow> ('b, 'h) outcome) \<Rightarrow> ('b, 'h) outcome" where
  "and_then r f = do {
     (res, s) \<leftarrow> r;
     case res of Inl e \<Rightarrow> Some (Inl e, s) | Inr a \<Rightarrow> f a s
   }"

text \<open>\<open>self.pc = next_pc; Ok(())\<close>, the end of both \<open>execute_inst32\<close> and \<open>execute_inst16\<close>.\<close>

definition set_pc :: "u32 \<Rightarrow> 'h machine \<Rightarrow> (unit, 'h) outcome" where
  "set_pc p s = ok () (s\<lparr>cpu := (cpu s)\<lparr>pc := p\<rparr>\<rparr>)"

section \<open>RV32I\<close>

definition bool_word :: "bool \<Rightarrow> u32" where
  "bool_word b = (if b then 1 else 0)"

definition branch_taken :: "u8 \<Rightarrow> u32 \<Rightarrow> u32 \<Rightarrow> bool option" where
  "branch_taken funct3 src1 src2 =
     (if funct3 = 0 then Some (src1 = src2)
      else if funct3 = 1 then Some (src1 \<noteq> src2)
      else if funct3 = 4 then Some (sint src1 < sint src2)
      else if funct3 = 5 then Some (sint src1 \<ge> sint src2)
      else if funct3 = 6 then Some (src1 < src2)
      else if funct3 = 7 then Some (src1 \<ge> src2)
      else None)"

definition exec_branch :: "DecodedInst32 \<Rightarrow> u32 \<Rightarrow> 'h machine \<Rightarrow> (u32, 'h) outcome" where
  "exec_branch inst next_pc s = do {
     src1 \<leftarrow> get_reg s (d_rs1 inst);
     src2 \<leftarrow> get_reg s (d_rs2 inst);
     case branch_taken (d_funct3 inst) src1 src2 of
       None \<Rightarrow> illegal inst s
     | Some taken \<Rightarrow> ok (if taken then pc (cpu s) + b_imm inst else next_pc) s
   }"

definition exec_load :: "'h env \<Rightarrow> DecodedInst32 \<Rightarrow> u32 \<Rightarrow> 'h machine \<Rightarrow> (u32, 'h) outcome" where
  "exec_load E inst next_pc s = do {
     base \<leftarrow> get_reg s (d_rs1 inst);
     let addr = base + i_imm inst;
     if d_funct3 inst = 0
     then do { (v, s) \<leftarrow> mem_read_u8 E addr s; s \<leftarrow> set_reg s (d_rd inst) (scast v); ok next_pc s }
     else if d_funct3 inst = 1
     then do { (v, s) \<leftarrow> mem_read_u16 E addr s; s \<leftarrow> set_reg s (d_rd inst) (scast v); ok next_pc s }
     else if d_funct3 inst = 2
     then do { (v, s) \<leftarrow> mem_read_u32 E addr s; s \<leftarrow> set_reg s (d_rd inst) v; ok next_pc s }
     else if d_funct3 inst = 4
     then do { (v, s) \<leftarrow> mem_read_u8 E addr s; s \<leftarrow> set_reg s (d_rd inst) (ucast v); ok next_pc s }
     else if d_funct3 inst = 5
     then do { (v, s) \<leftarrow> mem_read_u16 E addr s; s \<leftarrow> set_reg s (d_rd inst) (ucast v); ok next_pc s }
     else illegal inst s
   }"

definition exec_store :: "'h env \<Rightarrow> DecodedInst32 \<Rightarrow> u32 \<Rightarrow> 'h machine \<Rightarrow> (u32, 'h) outcome" where
  "exec_store E inst next_pc s = do {
     base \<leftarrow> get_reg s (d_rs1 inst);
     let addr = base + s_imm inst;
     val \<leftarrow> get_reg s (d_rs2 inst);
     if d_funct3 inst = 0 then do { s \<leftarrow> mem_write_u8 E addr (ucast val) s; ok next_pc s }
     else if d_funct3 inst = 1 then do { s \<leftarrow> mem_write_u16 E addr (ucast val) s; ok next_pc s }
     else if d_funct3 inst = 2 then do { s \<leftarrow> mem_write_u32 E addr val s; ok next_pc s }
     else illegal inst s
   }"

definition op_imm_val :: "DecodedInst32 \<Rightarrow> u32 \<Rightarrow> u32 option" where
  "op_imm_val inst src1 =
     (let imm = i_imm inst; shamt = d_rs2 inst AND 0x1F; funct3 = d_funct3 inst in
      if funct3 = 0 then Some (src1 + imm)
      else if funct3 = 2 then Some (bool_word (sint src1 < sint imm))
      else if funct3 = 3 then Some (bool_word (src1 < imm))
      else if funct3 = 4 then Some (src1 XOR imm)
      else if funct3 = 6 then Some (src1 OR imm)
      else if funct3 = 7 then Some (src1 AND imm)
      else if funct3 = 1 then Some (push_bit shamt src1)
      else if funct3 = 5
      then Some (if d_funct7 inst = 0x20 then signed_drop_bit shamt src1 else drop_bit shamt src1)
      else None)"

definition exec_op_imm :: "DecodedInst32 \<Rightarrow> u32 \<Rightarrow> 'h machine \<Rightarrow> (u32, 'h) outcome" where
  "exec_op_imm inst next_pc s = do {
     src1 \<leftarrow> get_reg s (d_rs1 inst);
     case op_imm_val inst src1 of
       None \<Rightarrow> illegal inst s
     | Some val \<Rightarrow> do { s \<leftarrow> set_reg s (d_rd inst) val; ok next_pc s }
   }"

definition op_val :: "u8 \<Rightarrow> u8 \<Rightarrow> u32 \<Rightarrow> u32 \<Rightarrow> u32 option" where
  "op_val funct7 funct3 src1 src2 =
     (let shamt = unat (src2 AND 0x1F) in
      if funct7 = 0x00 \<and> funct3 = 0 then Some (src1 + src2)
      else if funct7 = 0x20 \<and> funct3 = 0 then Some (src1 - src2)
      else if funct7 = 0x00 \<and> funct3 = 1 then Some (push_bit shamt src1)
      else if funct7 = 0x00 \<and> funct3 = 2 then Some (bool_word (sint src1 < sint src2))
      else if funct7 = 0x00 \<and> funct3 = 3 then Some (bool_word (src1 < src2))
      else if funct7 = 0x00 \<and> funct3 = 4 then Some (src1 XOR src2)
      else if funct7 = 0x00 \<and> funct3 = 5 then Some (drop_bit shamt src1)
      else if funct7 = 0x20 \<and> funct3 = 5 then Some (signed_drop_bit shamt src1)
      else if funct7 = 0x00 \<and> funct3 = 6 then Some (src1 OR src2)
      else if funct7 = 0x00 \<and> funct3 = 7 then Some (src1 AND src2)
      else None)"

definition exec_op :: "DecodedInst32 \<Rightarrow> u32 \<Rightarrow> 'h machine \<Rightarrow> (u32, 'h) outcome" where
  "exec_op inst next_pc s = do {
     src1 \<leftarrow> get_reg s (d_rs1 inst);
     src2 \<leftarrow> get_reg s (d_rs2 inst);
     case op_val (d_funct7 inst) (d_funct3 inst) src1 src2 of
       None \<Rightarrow> illegal inst s
     | Some val \<Rightarrow> do { s \<leftarrow> set_reg s (d_rd inst) val; ok next_pc s }
   }"

definition exec_rv32i :: "'h env \<Rightarrow> DecodedInst32 \<Rightarrow> u32 \<Rightarrow> 'h machine \<Rightarrow> (u32, 'h) outcome" where
  "exec_rv32i E inst next_pc s =
     (if d_opcode inst = OP_LUI
      then do { s \<leftarrow> set_reg s (d_rd inst) (u_imm inst); ok next_pc s }
      else if d_opcode inst = OP_AUIPC
      then do { s \<leftarrow> set_reg s (d_rd inst) (pc (cpu s) + u_imm inst); ok next_pc s }
      else if d_opcode inst = OP_JAL
      then do { s \<leftarrow> set_reg s (d_rd inst) next_pc; ok (pc (cpu s) + j_imm inst) s }
      else if d_opcode inst = OP_JALR
      then do {
        base \<leftarrow> get_reg s (d_rs1 inst);
        let target = (base + i_imm inst) AND NOT 1;
        s \<leftarrow> set_reg s (d_rd inst) next_pc;
        ok target s
      }
      else if d_opcode inst = OP_BRANCH then exec_branch inst next_pc s
      else if d_opcode inst = OP_LOAD then exec_load E inst next_pc s
      else if d_opcode inst = OP_STORE then exec_store E inst next_pc s
      else if d_opcode inst = OP_IMM then exec_op_imm inst next_pc s
      else if d_opcode inst = OP_OP then exec_op inst next_pc s
      else if d_opcode inst = OP_MISC_MEM then ok next_pc s
      else illegal inst s)"

section \<open>The M extension\<close>

text \<open>Rust's \<open>wrapping_div\<close> and \<open>wrapping_rem\<close> on \<open>i32\<close>, for a nonzero divisor.\<close>

definition wrapping_div :: "i32 \<Rightarrow> i32 \<Rightarrow> i32" where
  "wrapping_div a b = word_of_int (sint a sdiv sint b)"

definition wrapping_rem :: "i32 \<Rightarrow> i32 \<Rightarrow> i32" where
  "wrapping_rem a b = word_of_int (sint a smod sint b)"

definition rv32m_val :: "u8 \<Rightarrow> u32 \<Rightarrow> u32 \<Rightarrow> u32 option" where
  "rv32m_val funct3 src1 src2 =
     (if funct3 = 0 then Some (src1 * src2)
      else if funct3 = 1
      then Some (ucast (signed_drop_bit 32 ((scast src1 :: i64) * scast src2) AND 0xFFFFFFFF))
      else if funct3 = 2
      then Some (ucast (signed_drop_bit 32 ((scast src1 :: i64) * ucast src2) AND 0xFFFFFFFF))
      else if funct3 = 3
      then Some (ucast (drop_bit 32 ((ucast src1 :: u64) * ucast src2) AND 0xFFFFFFFF))
      else if funct3 = 4 then Some (if src2 = 0 then 0xFFFFFFFF else wrapping_div src1 src2)
      else if funct3 = 5 then Some (if src2 = 0 then 0xFFFFFFFF else src1 div src2)
      else if funct3 = 6 then Some (if src2 = 0 then src1 else wrapping_rem src1 src2)
      else if funct3 = 7 then Some (if src2 = 0 then src1 else src1 mod src2)
      else None)"

definition exec_rv32m :: "DecodedInst32 \<Rightarrow> 'h machine \<Rightarrow> (unit, 'h) outcome" where
  "exec_rv32m inst s = do {
     src1 \<leftarrow> get_reg s (d_rs1 inst);
     src2 \<leftarrow> get_reg s (d_rs2 inst);
     case rv32m_val (d_funct3 inst) src1 src2 of
       None \<Rightarrow> illegal inst s
     | Some val \<Rightarrow> do { s \<leftarrow> set_reg s (d_rd inst) val; ok () s }
   }"

section \<open>The A extension\<close>

definition smin :: "i32 \<Rightarrow> i32 \<Rightarrow> i32" where
  "smin a b = (if sint b < sint a then b else a)"

definition smax :: "i32 \<Rightarrow> i32 \<Rightarrow> i32" where
  "smax a b = (if sint b < sint a then a else b)"

definition amo_val :: "u8 \<Rightarrow> u32 \<Rightarrow> u32 \<Rightarrow> u32 option" where
  "amo_val funct5 old_val src2 =
     (if funct5 = 0x02 then Some old_val
      else if funct5 = 0x03 then Some src2
      else if funct5 = 0x01 then Some src2
      else if funct5 = 0x00 then Some (old_val + src2)
      else if funct5 = 0x04 then Some (old_val XOR src2)
      else if funct5 = 0x0C then Some (old_val AND src2)
      else if funct5 = 0x08 then Some (old_val OR src2)
      else if funct5 = 0x10 then Some (smin old_val src2)
      else if funct5 = 0x14 then Some (smax old_val src2)
      else if funct5 = 0x18 then Some (min old_val src2)
      else if funct5 = 0x1C then Some (max old_val src2)
      else None)"

definition exec_rv32a :: "'h env \<Rightarrow> DecodedInst32 \<Rightarrow> 'h machine \<Rightarrow> (unit, 'h) outcome" where
  "exec_rv32a E inst s = do {
     let funct5 = drop_bit 2 (d_funct7 inst);
     addr \<leftarrow> get_reg s (d_rs1 inst);
     src2 \<leftarrow> get_reg s (d_rs2 inst);
     (old_val, s) \<leftarrow> mem_read_u32 E addr s;
     let rd_val = (if funct5 = 0x03 then 0 else old_val);
     case amo_val funct5 old_val src2 of
       None \<Rightarrow> illegal inst s
     | Some new_val \<Rightarrow> do {
         s \<leftarrow> (if funct5 \<noteq> 0x02 then mem_write_u32 E addr new_val s else Some s);
         s \<leftarrow> set_reg s (d_rd inst) rd_val;
         ok () s
       }
   }"

end
