(* ===== verification/Exec_Float.thy ===== *)
theory Exec_Float
  imports Exec_Int
begin

text \<open>
  The F and D instructions of \<open>src/cpu.rs\<close>, \<open>exec_rv32fd\<close>: loads and stores, the single- and
  double-precision arms of \<open>OP_OP_FP\<close>, and the multiply-add group, which rounds twice. Floating-point
  values are bit patterns; \<open>Float\<close> models Rust's arithmetic on them.
\<close>

section \<open>Floating-point registers of the machine\<close>

definition get_freg :: "'h machine \<Rightarrow> nat \<Rightarrow> u64 option" where
  "get_freg s r = read_freg (cpu s) r"

definition set_freg :: "'h machine \<Rightarrow> nat \<Rightarrow> u64 \<Rightarrow> 'h machine option" where
  "set_freg s r bits = do { c \<leftarrow> write_freg (cpu s) r bits; Some (s\<lparr>cpu := c\<rparr>) }"

definition get_f32 :: "'h machine \<Rightarrow> nat \<Rightarrow> u32 option" where
  "get_f32 s r = read_f32 (cpu s) r"

definition set_f32 :: "'h machine \<Rightarrow> nat \<Rightarrow> u32 \<Rightarrow> 'h machine option" where
  "set_f32 s r val = do { c \<leftarrow> write_f32 (cpu s) r val; Some (s\<lparr>cpu := c\<rparr>) }"

definition get_f64 :: "'h machine \<Rightarrow> nat \<Rightarrow> u64 option" where
  "get_f64 s r = read_f64 (cpu s) r"

definition set_f64 :: "'h machine \<Rightarrow> nat \<Rightarrow> u64 \<Rightarrow> 'h machine option" where
  "set_f64 s r val = do { c \<leftarrow> write_f64 (cpu s) r val; Some (s\<lparr>cpu := c\<rparr>) }"

definition nan_box :: "u32 \<Rightarrow> u64" where
  "nan_box w = 0xFFFFFFFF00000000 OR ucast w"

definition join_words :: "u32 \<Rightarrow> u32 \<Rightarrow> u64" where
  "join_words low high = push_bit 32 (ucast high) OR ucast low"

section \<open>Loads and stores\<close>

definition exec_load_fp :: "'h env \<Rightarrow> DecodedInst32 \<Rightarrow> 'h machine \<Rightarrow> (unit, 'h) outcome" where
  "exec_load_fp E inst s = do {
     base \<leftarrow> get_reg s (d_rs1 inst);
     let addr = base + i_imm inst;
     if d_funct3 inst = 2
     then do {
       (raw, s) \<leftarrow> mem_read_u32 E addr s;
       s \<leftarrow> set_freg s (d_rd inst) (nan_box raw);
       ok () s
     }
     else if d_funct3 inst = 3
     then do {
       (low, s) \<leftarrow> mem_read_u32 E addr s;
       addr4 \<leftarrow> add_or_panic E addr 4;
       (high, s) \<leftarrow> mem_read_u32 E addr4 s;
       s \<leftarrow> set_f64 s (d_rd inst) (join_words low high);
       ok () s
     }
     else illegal inst s
   }"

definition exec_store_fp :: "'h env \<Rightarrow> DecodedInst32 \<Rightarrow> 'h machine \<Rightarrow> (unit, 'h) outcome" where
  "exec_store_fp E inst s = do {
     base \<leftarrow> get_reg s (d_rs1 inst);
     let addr = base + s_imm inst;
     if d_funct3 inst = 2
     then do {
       bits \<leftarrow> get_freg s (d_rs2 inst);
       s \<leftarrow> mem_write_u32 E addr (ucast (bits AND 0xFFFFFFFF)) s;
       ok () s
     }
     else if d_funct3 inst = 3
     then do {
       bits \<leftarrow> get_f64 s (d_rs2 inst);
       s \<leftarrow> mem_write_u32 E addr (ucast bits) s;
       addr4 \<leftarrow> add_or_panic E addr 4;
       s \<leftarrow> mem_write_u32 E addr4 (ucast (drop_bit 32 bits)) s;
       ok () s
     }
     else illegal inst s
   }"

section \<open>Single precision\<close>

definition sgnj_s :: "u8 \<Rightarrow> u32 \<Rightarrow> u32 \<Rightarrow> u32 option" where
  "sgnj_s funct3 b1 b2 =
     (if funct3 = 0 then Some ((b1 AND 0x7FFFFFFF) OR (b2 AND 0x80000000))
      else if funct3 = 1 then Some ((b1 AND 0x7FFFFFFF) OR (NOT b2 AND 0x80000000))
      else if funct3 = 2 then Some ((b1 AND 0x7FFFFFFF) OR ((b1 XOR b2) AND 0x80000000))
      else None)"

definition minmax_s :: "'h env \<Rightarrow> u8 \<Rightarrow> u32 \<Rightarrow> u32 \<Rightarrow> u32 option" where
  "minmax_s E funct3 s1 s2 =
     (if funct3 = 0
      then Some (if f32_is_nan s1 then s2 else if f32_is_nan s2 then s1 else f32_min (tie_first E) s1 s2)
      else if funct3 = 1
      then Some (if f32_is_nan s1 then s2 else if f32_is_nan s2 then s1 else f32_max (tie_first E) s1 s2)
      else None)"

definition class_s :: "u32 \<Rightarrow> u32" where
  "class_s bits =
     (let is_neg = (bits AND 0x80000000 \<noteq> 0) in
      if f32_is_infinite bits then (if is_neg then push_bit 0 1 else push_bit 7 1)
      else if f32_is_nan bits then (if bits AND 0x00400000 \<noteq> 0 then push_bit 9 1 else push_bit 8 1)
      else if f32_is_zero bits then (if is_neg then push_bit 3 1 else push_bit 4 1)
      else if f32_is_subnormal bits then (if is_neg then push_bit 2 1 else push_bit 5 1)
      else if is_neg then push_bit 1 1 else push_bit 6 1)"

definition cmp_s :: "u8 \<Rightarrow> u32 \<Rightarrow> u32 \<Rightarrow> u32 option" where
  "cmp_s funct3 s1 s2 =
     (if funct3 = 0 then Some (bool_word (fp_le (f32_val s1) (f32_val s2)))
      else if funct3 = 1 then Some (bool_word (fp_less (f32_val s1) (f32_val s2)))
      else if funct3 = 2 then Some (bool_word (fp_eq (f32_val s1) (f32_val s2)))
      else None)"

text \<open>The two-operand arithmetic arms of both formats, and square root.\<close>

definition arith_s :: "DecodedInst32 \<Rightarrow> (u32 \<Rightarrow> u32 \<Rightarrow> u32) \<Rightarrow> 'h machine \<Rightarrow> (unit, 'h) outcome" where
  "arith_s inst f s = do {
     s1 \<leftarrow> get_f32 s (d_rs1 inst);
     s2 \<leftarrow> get_f32 s (d_rs2 inst);
     s \<leftarrow> set_f32 s (d_rd inst) (f s1 s2);
     ok () s
   }"

definition exec_op_fp_s :: "'h env \<Rightarrow> DecodedInst32 \<Rightarrow> u8 \<Rightarrow> 'h machine \<Rightarrow> (unit, 'h) outcome" where
  "exec_op_fp_s E inst funct5 s =
     (let rd = d_rd inst; rs1 = d_rs1 inst; rs2 = d_rs2 inst; funct3 = d_funct3 inst in
      if funct5 = 0x00 then arith_s inst f32_add s
      else if funct5 = 0x01 then arith_s inst f32_sub s
      else if funct5 = 0x02 then arith_s inst f32_mul s
      else if funct5 = 0x03 then arith_s inst f32_div s
      else if funct5 = 0x0B
      then do { s1 \<leftarrow> get_f32 s rs1; s \<leftarrow> set_f32 s rd (f32_sqrt s1); ok () s }
      else if funct5 = 0x04
      then do {
        b1 \<leftarrow> get_f32 s rs1;
        b2 \<leftarrow> get_f32 s rs2;
        case sgnj_s funct3 b1 b2 of
          None \<Rightarrow> illegal inst s
        | Some res_bits \<Rightarrow> do { s \<leftarrow> set_freg s rd (nan_box res_bits); ok () s }
      }
      else if funct5 = 0x05
      then do {
        s1 \<leftarrow> get_f32 s rs1;
        s2 \<leftarrow> get_f32 s rs2;
        case minmax_s E funct3 s1 s2 of
          None \<Rightarrow> illegal inst s
        | Some res \<Rightarrow> do { s \<leftarrow> set_f32 s rd res; ok () s }
      }
      else if funct5 = 0x18
      then do {
        v \<leftarrow> get_f32 s rs1;
        s \<leftarrow> set_reg s rd (if rs2 = 0 then f32_to_i32 v else f32_to_u32 v);
        ok () s
      }
      else if funct5 = 0x1A
      then do {
        val \<leftarrow> get_reg s rs1;
        s \<leftarrow> set_f32 s rd (if rs2 = 0 then i32_to_f32 val else u32_to_f32 val);
        ok () s
      }
      else if funct5 = 0x1C
      then (if funct3 = 0
            then do { b \<leftarrow> get_freg s rs1; s \<leftarrow> set_reg s rd (ucast (b AND 0xFFFFFFFF)); ok () s }
            else if funct3 = 1
            then do { v \<leftarrow> get_f32 s rs1; s \<leftarrow> set_reg s rd (class_s v); ok () s }
            else ok () s)
      else if funct5 = 0x1E
      then do { val \<leftarrow> get_reg s rs1; s \<leftarrow> set_freg s rd (nan_box val); ok () s }
      else if funct5 = 0x14
      then do {
        s1 \<leftarrow> get_f32 s rs1;
        s2 \<leftarrow> get_f32 s rs2;
        case cmp_s funct3 s1 s2 of
          None \<Rightarrow> illegal inst s
        | Some res \<Rightarrow> do { s \<leftarrow> set_reg s rd res; ok () s }
      }
      else if funct5 = 0x08
      then do { d \<leftarrow> get_f64 s rs1; s \<leftarrow> set_f32 s rd (f64_to_f32 d); ok () s }
      else illegal inst s)"

section \<open>Double precision\<close>

definition sgnj_d :: "u8 \<Rightarrow> u64 \<Rightarrow> u64 \<Rightarrow> u64 option" where
  "sgnj_d funct3 b1 b2 =
     (if funct3 = 0 then Some ((b1 AND 0x7FFFFFFFFFFFFFFF) OR (b2 AND 0x8000000000000000))
      else if funct3 = 1 then Some ((b1 AND 0x7FFFFFFFFFFFFFFF) OR (NOT b2 AND 0x8000000000000000))
      else if funct3 = 2 then Some ((b1 AND 0x7FFFFFFFFFFFFFFF) OR ((b1 XOR b2) AND 0x8000000000000000))
      else None)"

definition minmax_d :: "'h env \<Rightarrow> u8 \<Rightarrow> u64 \<Rightarrow> u64 \<Rightarrow> u64 option" where
  "minmax_d E funct3 d1 d2 =
     (if funct3 = 0
      then Some (if f64_is_nan d1 then d2 else if f64_is_nan d2 then d1 else f64_min (tie_first E) d1 d2)
      else if funct3 = 1
      then Some (if f64_is_nan d1 then d2 else if f64_is_nan d2 then d1 else f64_max (tie_first E) d1 d2)
      else None)"

definition class_d :: "u64 \<Rightarrow> u32" where
  "class_d bits =
     (let is_neg = (bits AND 0x8000000000000000 \<noteq> 0) in
      if f64_is_infinite bits then (if is_neg then push_bit 0 1 else push_bit 7 1)
      else if f64_is_nan bits then (if bits AND 0x0008000000000000 \<noteq> 0 then push_bit 9 1 else push_bit 8 1)
      else if f64_is_zero bits then (if is_neg then push_bit 3 1 else push_bit 4 1)
      else if f64_is_subnormal bits then (if is_neg then push_bit 2 1 else push_bit 5 1)
      else if is_neg then push_bit 1 1 else push_bit 6 1)"

definition cmp_d :: "u8 \<Rightarrow> u64 \<Rightarrow> u64 \<Rightarrow> u32 option" where
  "cmp_d funct3 d1 d2 =
     (if funct3 = 0 then Some (bool_word (fp_le (f64_val d1) (f64_val d2)))
      else if funct3 = 1 then Some (bool_word (fp_less (f64_val d1) (f64_val d2)))
      else if funct3 = 2 then Some (bool_word (fp_eq (f64_val d1) (f64_val d2)))
      else None)"

definition arith_d :: "DecodedInst32 \<Rightarrow> (u64 \<Rightarrow> u64 \<Rightarrow> u64) \<Rightarrow> 'h machine \<Rightarrow> (unit, 'h) outcome" where
  "arith_d inst f s = do {
     d1 \<leftarrow> get_f64 s (d_rs1 inst);
     d2 \<leftarrow> get_f64 s (d_rs2 inst);
     s \<leftarrow> set_f64 s (d_rd inst) (f d1 d2);
     ok () s
   }"

definition exec_op_fp_d :: "'h env \<Rightarrow> DecodedInst32 \<Rightarrow> u8 \<Rightarrow> 'h machine \<Rightarrow> (unit, 'h) outcome" where
  "exec_op_fp_d E inst funct5 s =
     (let rd = d_rd inst; rs1 = d_rs1 inst; rs2 = d_rs2 inst; funct3 = d_funct3 inst in
      if funct5 = 0x00 then arith_d inst f64_add s
      else if funct5 = 0x01 then arith_d inst f64_sub s
      else if funct5 = 0x02 then arith_d inst f64_mul s
      else if funct5 = 0x03 then arith_d inst f64_div s
      else if funct5 = 0x0B
      then do { d1 \<leftarrow> get_f64 s rs1; s \<leftarrow> set_f64 s rd (f64_sqrt d1); ok () s }
      else if funct5 = 0x04
      then do {
        b1 \<leftarrow> get_freg s rs1;
        b2 \<leftarrow> get_freg s rs2;
        case sgnj_d funct3 b1 b2 of
          None \<Rightarrow> illegal inst s
        | Some res_bits \<Rightarrow> do { s \<leftarrow> set_freg s rd res_bits; ok () s }
      }
      else if funct5 = 0x05
      then do {
        d1 \<leftarrow> get_f64 s rs1;
        d2 \<leftarrow> get_f64 s rs2;
        case minmax_d E funct3 d1 d2 of
          None \<Rightarrow> illegal inst s
        | Some res \<Rightarrow> do { s \<leftarrow> set_f64 s rd res; ok () s }
      }
      else if funct5 = 0x08
      then do { v \<leftarrow> get_f32 s rs1; s \<leftarrow> set_f64 s rd (f32_to_f64 v); ok () s }
      else if funct5 = 0x18
      then do {
        d \<leftarrow> get_f64 s rs1;
        s \<leftarrow> set_reg s rd (if rs2 = 0 then f64_to_i32 d else f64_to_u32 d);
        ok () s
      }
      else if funct5 = 0x1A
      then do {
        val \<leftarrow> get_reg s rs1;
        s \<leftarrow> set_f64 s rd (if rs2 = 0 then i32_to_f64 val else u32_to_f64 val);
        ok () s
      }
      else if funct5 = 0x1C
      then (if funct3 = 1
            then do { d \<leftarrow> get_f64 s rs1; s \<leftarrow> set_reg s rd (class_d d); ok () s }
            else ok () s)
      else if funct5 = 0x14
      then do {
        d1 \<leftarrow> get_f64 s rs1;
        d2 \<leftarrow> get_f64 s rs2;
        case cmp_d funct3 d1 d2 of
          None \<Rightarrow> illegal inst s
        | Some res \<Rightarrow> do { s \<leftarrow> set_reg s rd res; ok () s }
      }
      else illegal inst s)"

definition exec_op_fp :: "'h env \<Rightarrow> DecodedInst32 \<Rightarrow> 'h machine \<Rightarrow> (unit, 'h) outcome" where
  "exec_op_fp E inst s =
     (let fmt = d_funct7 inst AND 0x3; funct5 = drop_bit 2 (d_funct7 inst) in
      if fmt = 0 then exec_op_fp_s E inst funct5 s
      else if fmt = 1 then exec_op_fp_d E inst funct5 s
      else illegal inst s)"

section \<open>Multiply-add\<close>

definition madd_s :: "u8 \<Rightarrow> u32 \<Rightarrow> u32 \<Rightarrow> u32 \<Rightarrow> u32 option" where
  "madd_s opcode s1 s2 s3 =
     (if opcode = OP_MADD then Some (f32_add (f32_mul s1 s2) s3)
      else if opcode = OP_MSUB then Some (f32_sub (f32_mul s1 s2) s3)
      else if opcode = OP_NMSUB then Some (f32_neg (f32_sub (f32_mul s1 s2) s3))
      else if opcode = OP_NMADD then Some (f32_neg (f32_add (f32_mul s1 s2) s3))
      else None)"

definition madd_d :: "u8 \<Rightarrow> u64 \<Rightarrow> u64 \<Rightarrow> u64 \<Rightarrow> u64 option" where
  "madd_d opcode d1 d2 d3 =
     (if opcode = OP_MADD then Some (f64_add (f64_mul d1 d2) d3)
      else if opcode = OP_MSUB then Some (f64_sub (f64_mul d1 d2) d3)
      else if opcode = OP_NMSUB then Some (f64_neg (f64_sub (f64_mul d1 d2) d3))
      else if opcode = OP_NMADD then Some (f64_neg (f64_add (f64_mul d1 d2) d3))
      else None)"

definition exec_madd :: "DecodedInst32 \<Rightarrow> 'h machine \<Rightarrow> (unit, 'h) outcome" where
  "exec_madd inst s =
     (let fmt = (ucast (shift_then_mask (d_raw inst) 25 3) :: u8) in
      if fmt = 0
      then do {
        s1 \<leftarrow> get_f32 s (d_rs1 inst);
        s2 \<leftarrow> get_f32 s (d_rs2 inst);
        s3 \<leftarrow> get_f32 s (d_rs3 inst);
        case madd_s (d_opcode inst) s1 s2 s3 of
          None \<Rightarrow> illegal inst s
        | Some res \<Rightarrow> do { s \<leftarrow> set_f32 s (d_rd inst) res; ok () s }
      }
      else if fmt = 1
      then do {
        d1 \<leftarrow> get_f64 s (d_rs1 inst);
        d2 \<leftarrow> get_f64 s (d_rs2 inst);
        d3 \<leftarrow> get_f64 s (d_rs3 inst);
        case madd_d (d_opcode inst) d1 d2 d3 of
          None \<Rightarrow> illegal inst s
        | Some res \<Rightarrow> do { s \<leftarrow> set_f64 s (d_rd inst) res; ok () s }
      }
      else illegal inst s)"

section \<open>Dispatch\<close>

definition exec_rv32fd :: "'h env \<Rightarrow> DecodedInst32 \<Rightarrow> 'h machine \<Rightarrow> (unit, 'h) outcome" where
  "exec_rv32fd E inst s =
     (if d_opcode inst = OP_LOAD_FP then exec_load_fp E inst s
      else if d_opcode inst = OP_STORE_FP then exec_store_fp E inst s
      else if d_opcode inst = OP_OP_FP then exec_op_fp E inst s
      else if d_opcode inst = OP_MADD \<or> d_opcode inst = OP_MSUB \<or> d_opcode inst = OP_NMSUB
        \<or> d_opcode inst = OP_NMADD then exec_madd inst s
      else illegal inst s)"

end
