(* ===== verification/Syscall.thy ===== *)
theory Syscall
  imports Exec_Int
begin

text \<open>
  System calls, \<open>src/syscall.rs\<close>. The host's own handler runs first when it is enabled and its nonzero
  result is final; otherwise the call is one of exit, write, read, brk, and the ignored close, lseek
  and fstat.
\<close>

definition SYS_BUF_MAX :: nat where
  "SYS_BUF_MAX = 16 * 1024 * 1024"

text \<open>\<open>vec![0u8; count]\<close> after the host stored \<open>bs\<close> at its start.\<close>

definition scratch_after :: "nat \<Rightarrow> u8 list \<Rightarrow> u8 list" where
  "scratch_after count bs = take count (bs @ replicate count 0)"

type_synonym 'h sys_outcome = "((UnknownSyscall + unit) \<times> 'h machine) option"

definition sys_ok :: "'h machine \<Rightarrow> 'h sys_outcome" where
  "sys_ok s = Some (Inr (), s)"

definition sys_exit :: "u32 \<Rightarrow> 'h machine \<Rightarrow> 'h sys_outcome" where
  "sys_exit a0 s = sys_ok (s\<lparr>cpu := (cpu s)\<lparr>is_halted := True, exit_code := a0\<rparr>\<rparr>)"

definition sys_write :: "'h env \<Rightarrow> u32 \<Rightarrow> u32 \<Rightarrow> u32 \<Rightarrow> 'h machine \<Rightarrow> 'h sys_outcome" where
  "sys_write E fd buf_ptr a2 s = do {
     let count = min (unat a2) SYS_BUF_MAX;
     (bytes, s) \<leftarrow> mem_read_bytes E buf_ptr count s;
     let s = (if fd = 1 then s\<lparr>host := js_write_stdout E bytes (host s)\<rparr>
              else if fd = 2 then s\<lparr>host := js_write_stderr E bytes (host s)\<rparr>
              else s);
     s \<leftarrow> set_reg s 10 a2;
     sys_ok s
   }"

definition sys_read :: "'h env \<Rightarrow> u32 \<Rightarrow> u32 \<Rightarrow> 'h machine \<Rightarrow> 'h sys_outcome" where
  "sys_read E buf_ptr a2 s = do {
     let count = min (unat a2) SYS_BUF_MAX;
     let ((bytes_read, bs), h) = read_from_stdin E (word_of_nat count) (host s);
     let s = s\<lparr>host := h\<rparr>;
     if sint bytes_read > 0
     then do {
       data \<leftarrow> slice (scratch_after count bs) 0 (nat (sint bytes_read));
       s \<leftarrow> mem_write_bytes E buf_ptr data s;
       s \<leftarrow> set_reg s 10 bytes_read;
       sys_ok s
     }
     else do { s \<leftarrow> set_reg s 10 0; sys_ok s }
   }"

definition sys_brk :: "u32 \<Rightarrow> 'h machine \<Rightarrow> 'h sys_outcome" where
  "sys_brk a0 s = do {
     let s = (if a0 \<noteq> 0 then s\<lparr>mem := set_brk a0 (mem s)\<rparr> else s);
     s \<leftarrow> set_reg s 10 (get_brk (mem s));
     sys_ok s
   }"

text \<open>The built-in calls, selected by \<open>a7\<close>.\<close>

definition builtin_syscall ::
  "'h env \<Rightarrow> u32 \<Rightarrow> u32 \<Rightarrow> u32 \<Rightarrow> u32 \<Rightarrow> u32 \<Rightarrow> 'h machine \<Rightarrow> 'h sys_outcome" where
  "builtin_syscall E a7 a0 a1 a2 a3 s =
     (if a7 = 93 \<or> a7 = 10 \<or> a7 = 1 then sys_exit a0 s
      else if a7 = 64 \<or> a7 = 4 then sys_write E a0 a1 a2 s
      else if a7 = 63 \<or> a7 = 3 then sys_read E a1 a2 s
      else if a7 = 214 \<or> a7 = 45 then sys_brk a0 s
      else if a7 = 57 \<or> a7 = 62 \<or> a7 = 80 then do { s \<leftarrow> set_reg s 10 0; sys_ok s }
      else Some (Inl \<lparr>sys_num = a7, sys_a0 = a0, sys_a1 = a1, sys_a2 = a2, sys_a3 = a3\<rparr>, s))"

definition handle_ecall :: "'h env \<Rightarrow> 'h machine \<Rightarrow> 'h sys_outcome" where
  "handle_ecall E s = do {
     a7 \<leftarrow> get_reg s A7;
     a0 \<leftarrow> get_reg s A0;
     a1 \<leftarrow> get_reg s A1;
     a2 \<leftarrow> get_reg s A2;
     a3 \<leftarrow> get_reg s A3;
     let (res, s) = (if has_custom_syscalls (cpu s)
                     then let (res, h) = custom_syscall E a0 a1 a2 a3 a7 (host s) in (res, s\<lparr>host := h\<rparr>)
                     else (0, s));
     if res \<noteq> 0 then do { s \<leftarrow> set_reg s A0 res; sys_ok s }
     else builtin_syscall E a7 a0 a1 a2 a3 s
   }"

end
