(* ===== verification/Exec32.thy ===== *)
theory Exec32
  imports Exec_Float Syscall
begin

text \<open>
  The SYSTEM instructions of \<open>src/cpu.rs\<close> (\<open>exec_csr\<close>: ecall, ebreak, mret and the CSR accesses) and the
  dispatch of a 32-bit instruction (\<open>execute_inst32\<close>).
\<close>

section \<open>SYSTEM\<close>

definition mret_mstatus :: "u32 \<Rightarrow> u32" where
  "mret_mstatus mstatus =
     (let new_mstatus = (mstatus AND NOT MSTATUS_MIE) OR MSTATUS_MPIE in
      if mstatus AND MSTATUS_MPIE \<noteq> 0 then new_mstatus OR MSTATUS_MIE else new_mstatus)"

definition exec_mret :: "u32 \<Rightarrow> 'h machine \<Rightarrow> (u32, 'h) outcome" where
  "exec_mret next_pc s = do {
     mepc \<leftarrow> csr_get (csrs (cpu s)) MEPC;
     mstatus \<leftarrow> csr_get (csrs (cpu s)) MSTATUS;
     f \<leftarrow> csr_set (csrs (cpu s)) MSTATUS (mret_mstatus mstatus);
     ok (if mepc \<noteq> 0 then mepc else next_pc) (s\<lparr>cpu := (cpu s)\<lparr>csrs := f\<rparr>\<rparr>)
   }"

definition csr_new_val :: "u8 \<Rightarrow> nat \<Rightarrow> u32 \<Rightarrow> u32 \<Rightarrow> u32" where
  "csr_new_val funct3 rs1 old_val src1_val =
     (if funct3 = 1 then src1_val
      else if funct3 = 2 then old_val OR src1_val
      else if funct3 = 3 then old_val AND NOT src1_val
      else if funct3 = 5 then word_of_nat rs1
      else if funct3 = 6 then old_val OR word_of_nat rs1
      else if funct3 = 7 then old_val AND NOT (word_of_nat rs1)
      else old_val)"

definition exec_csr :: "'h env \<Rightarrow> DecodedInst32 \<Rightarrow> u32 \<Rightarrow> 'h machine \<Rightarrow> (u32, 'h) outcome" where
  "exec_csr E inst next_pc s =
     (if d_funct3 inst = 0
      then let imm12 = drop_bit 20 (d_raw inst) in
        if imm12 = 0
        then do {
          (res, s) \<leftarrow> handle_ecall E s;
          case res of Inl sys \<Rightarrow> err (UnknownSyscallError sys) s | Inr _ \<Rightarrow> ok next_pc s
        }
        else if imm12 = 1 then ok next_pc (s\<lparr>cpu := (cpu s)\<lparr>is_halted := True\<rparr>\<rparr>)
        else if imm12 = 0x302 then exec_mret next_pc s
        else ok next_pc s
      else do {
        let csr_num = (ucast (drop_bit 20 (d_raw inst) AND 0xFFF) :: u16);
        old_val \<leftarrow> csr_get (csrs (cpu s)) csr_num;
        src1_val \<leftarrow> get_reg s (d_rs1 inst);
        f \<leftarrow> csr_set (csrs (cpu s)) csr_num (csr_new_val (d_funct3 inst) (d_rs1 inst) old_val src1_val);
        s \<leftarrow> set_reg (s\<lparr>cpu := (cpu s)\<lparr>csrs := f\<rparr>\<rparr>) (d_rd inst) old_val;
        ok next_pc s
      })"

section \<open>Dispatch\<close>

definition keep_pc :: "u32 \<Rightarrow> (unit, 'h) outcome \<Rightarrow> (u32, 'h) outcome" where
  "keep_pc next_pc r = and_then r (\<lambda>_. ok next_pc)"

definition dispatch32 :: "'h env \<Rightarrow> DecodedInst32 \<Rightarrow> u32 \<Rightarrow> 'h machine \<Rightarrow> (u32, 'h) outcome" where
  "dispatch32 E inst next_pc s =
     (let opcode = d_opcode inst in
      if opcode = OP_OP
      then (if d_funct7 inst = 0x01 then keep_pc next_pc (exec_rv32m inst s)
            else exec_rv32i E inst next_pc s)
      else if opcode \<in> {OP_LUI, OP_AUIPC, OP_JAL, OP_JALR, OP_BRANCH, OP_LOAD, OP_STORE, OP_IMM, OP_MISC_MEM}
      then exec_rv32i E inst next_pc s
      else if opcode = OP_AMO then keep_pc next_pc (exec_rv32a E inst s)
      else if opcode \<in> {OP_LOAD_FP, OP_STORE_FP, OP_MADD, OP_MSUB, OP_NMSUB, OP_NMADD, OP_OP_FP}
      then keep_pc next_pc (exec_rv32fd E inst s)
      else if opcode = OP_SYSTEM then exec_csr E inst next_pc s
      else err (UnknownOpcode (pc (cpu s)) opcode) s)"

definition execute_inst32 :: "'h env \<Rightarrow> u32 \<Rightarrow> 'h machine \<Rightarrow> (unit, 'h) outcome" where
  "execute_inst32 E raw s =
     and_then (dispatch32 E (decode32 raw) (pc (cpu s) + 4) s) set_pc"

end
