(* ===== verification/Exec16.thy ===== *)
theory Exec16
  imports Exec_Float
begin

text \<open>
  Compressed instructions, \<open>execute_inst16\<close> of \<open>src/cpu.rs\<close> and its field helpers. Each quadrant is a
  definition, and the arms with structure of their own are separate definitions in the order of the code.
\<close>

section \<open>Fields\<close>

definition creg :: "u16 \<Rightarrow> nat \<Rightarrow> nat" where
  "creg inst sh = unat (shift_then_mask inst sh 0x7 + 8)"

definition cl_word_offset :: "u16 \<Rightarrow> u32" where
  "cl_word_offset inst =
     push_bit 3 (ucast (shift_then_mask inst 10 0x7))
     OR push_bit 2 (ucast (shift_then_mask inst 6 0x1))
     OR push_bit 6 (ucast (shift_then_mask inst 5 0x1))"

definition cl_double_offset :: "u16 \<Rightarrow> u32" where
  "cl_double_offset inst =
     push_bit 3 (ucast (shift_then_mask inst 10 0x7)) OR push_bit 6 (ucast (shift_then_mask inst 5 0x3))"

definition ci_word_sp_offset :: "u16 \<Rightarrow> u32" where
  "ci_word_sp_offset inst =
     push_bit 5 (ucast (shift_then_mask inst 12 0x1))
     OR push_bit 2 (ucast (shift_then_mask inst 4 0x7))
     OR push_bit 6 (ucast (shift_then_mask inst 2 0x3))"

definition ci_double_sp_offset :: "u16 \<Rightarrow> u32" where
  "ci_double_sp_offset inst =
     push_bit 5 (ucast (shift_then_mask inst 12 0x1))
     OR push_bit 3 (ucast (shift_then_mask inst 5 0x3))
     OR push_bit 6 (ucast (shift_then_mask inst 2 0x7))"

definition css_word_sp_offset :: "u16 \<Rightarrow> u32" where
  "css_word_sp_offset inst =
     push_bit 2 (ucast (shift_then_mask inst 9 0xF)) OR push_bit 6 (ucast (shift_then_mask inst 7 0x3))"

definition css_double_sp_offset :: "u16 \<Rightarrow> u32" where
  "css_double_sp_offset inst =
     push_bit 3 (ucast (shift_then_mask inst 10 0x7)) OR push_bit 6 (ucast (shift_then_mask inst 7 0x7))"

text \<open>The register and immediate fields that the arms extract inline.\<close>

definition c_rd :: "u16 \<Rightarrow> nat" where
  "c_rd inst = unat (shift_then_mask inst 7 0x1F)"

definition c_rs2 :: "u16 \<Rightarrow> nat" where
  "c_rs2 inst = unat (shift_then_mask inst 2 0x1F)"

definition c_bit12 :: "u16 \<Rightarrow> u16" where
  "c_bit12 inst = shift_then_mask inst 12 1"

definition c_shamt :: "u16 \<Rightarrow> nat" where
  "c_shamt inst = unat (shift_then_mask inst 2 0x1F)"

definition c_addi4spn_imm :: "u16 \<Rightarrow> u32" where
  "c_addi4spn_imm inst =
     ucast (shift_then_mask inst 7 0x30 OR shift_then_mask inst 1 0x3C0
            OR shift_then_mask inst 4 0x4 OR shift_then_mask inst 2 0x8)"

definition c_imm6 :: "u16 \<Rightarrow> u16" where
  "c_imm6 inst = push_bit 5 (shift_then_mask inst 12 1) OR shift_then_mask inst 2 0x1F"

text \<open>\<open>((imm6 as i16) << 10) >> 10\<close>, and \<open>sign_ext as i32 as u32\<close>.\<close>

definition c_sign_ext6 :: "u16 \<Rightarrow> i16" where
  "c_sign_ext6 inst = signed_drop_bit 10 (push_bit 10 (c_imm6 inst))"

definition c_imm11 :: "u16 \<Rightarrow> u16" where
  "c_imm11 inst =
     push_bit 11 (shift_then_mask inst 12 1) OR push_bit 10 (shift_then_mask inst 8 1)
     OR push_bit 8 (shift_then_mask inst 9 3) OR push_bit 7 (shift_then_mask inst 6 1)
     OR push_bit 6 (shift_then_mask inst 7 1) OR push_bit 5 (shift_then_mask inst 2 1)
     OR push_bit 4 (shift_then_mask inst 11 1) OR push_bit 1 (shift_then_mask inst 3 7)"

definition c_j_offset :: "u16 \<Rightarrow> u32" where
  "c_j_offset inst = scast (signed_drop_bit 4 (push_bit 4 (c_imm11 inst)))"

definition c_addi16sp_imm :: "u16 \<Rightarrow> u16" where
  "c_addi16sp_imm inst =
     push_bit 9 (shift_then_mask inst 12 1) OR push_bit 7 (shift_then_mask inst 3 3)
     OR push_bit 6 (shift_then_mask inst 5 1) OR push_bit 5 (shift_then_mask inst 2 1)
     OR push_bit 4 (shift_then_mask inst 6 1)"

definition c_addi16sp_offset :: "u16 \<Rightarrow> u32" where
  "c_addi16sp_offset inst = scast (signed_drop_bit 6 (push_bit 6 (c_addi16sp_imm inst)))"

definition c_b_imm :: "u16 \<Rightarrow> u16" where
  "c_b_imm inst =
     push_bit 8 (shift_then_mask inst 12 1) OR push_bit 6 (shift_then_mask inst 5 3)
     OR push_bit 5 (shift_then_mask inst 2 1) OR push_bit 3 (shift_then_mask inst 10 3)
     OR push_bit 1 (shift_then_mask inst 3 3)"

definition c_b_offset :: "u16 \<Rightarrow> u32" where
  "c_b_offset inst = scast (signed_drop_bit 7 (push_bit 7 (c_b_imm inst)))"

definition illegal16 :: "u16 \<Rightarrow> 'h machine \<Rightarrow> ('a, 'h) outcome" where
  "illegal16 inst s = err (IllegalInstruction (pc (cpu s)) (ucast inst)) s"

section \<open>Memory arms\<close>

text \<open>The loads and stores of quadrants 0 and 2, given the register, the base register and the offset.\<close>

definition c_fld :: "'h env \<Rightarrow> nat \<Rightarrow> nat \<Rightarrow> u32 \<Rightarrow> u32 \<Rightarrow> 'h machine \<Rightarrow> (u32, 'h) outcome" where
  "c_fld E rd base off next_pc s = do {
     b \<leftarrow> get_reg s base;
     let addr = b + off;
     (low, s) \<leftarrow> mem_read_u32 E addr s;
     (high, s) \<leftarrow> mem_read_u32 E (addr + 4) s;
     s \<leftarrow> set_f64 s rd (join_words low high);
     ok next_pc s
   }"

definition c_lw :: "'h env \<Rightarrow> nat \<Rightarrow> nat \<Rightarrow> u32 \<Rightarrow> u32 \<Rightarrow> 'h machine \<Rightarrow> (u32, 'h) outcome" where
  "c_lw E rd base off next_pc s = do {
     b \<leftarrow> get_reg s base;
     (v, s) \<leftarrow> mem_read_u32 E (b + off) s;
     s \<leftarrow> set_reg s rd v;
     ok next_pc s
   }"

definition c_flw :: "'h env \<Rightarrow> nat \<Rightarrow> nat \<Rightarrow> u32 \<Rightarrow> u32 \<Rightarrow> 'h machine \<Rightarrow> (u32, 'h) outcome" where
  "c_flw E rd base off next_pc s = do {
     b \<leftarrow> get_reg s base;
     (raw, s) \<leftarrow> mem_read_u32 E (b + off) s;
     s \<leftarrow> set_freg s rd (nan_box raw);
     ok next_pc s
   }"

definition c_fsd :: "'h env \<Rightarrow> nat \<Rightarrow> nat \<Rightarrow> u32 \<Rightarrow> u32 \<Rightarrow> 'h machine \<Rightarrow> (u32, 'h) outcome" where
  "c_fsd E rs2 base off next_pc s = do {
     b \<leftarrow> get_reg s base;
     let addr = b + off;
     bits \<leftarrow> get_f64 s rs2;
     s \<leftarrow> mem_write_u32 E addr (ucast bits) s;
     s \<leftarrow> mem_write_u32 E (addr + 4) (ucast (drop_bit 32 bits)) s;
     ok next_pc s
   }"

definition c_sw :: "'h env \<Rightarrow> nat \<Rightarrow> nat \<Rightarrow> u32 \<Rightarrow> u32 \<Rightarrow> 'h machine \<Rightarrow> (u32, 'h) outcome" where
  "c_sw E rs2 base off next_pc s = do {
     b \<leftarrow> get_reg s base;
     v \<leftarrow> get_reg s rs2;
     s \<leftarrow> mem_write_u32 E (b + off) v s;
     ok next_pc s
   }"

definition c_fsw :: "'h env \<Rightarrow> nat \<Rightarrow> nat \<Rightarrow> u32 \<Rightarrow> u32 \<Rightarrow> 'h machine \<Rightarrow> (u32, 'h) outcome" where
  "c_fsw E rs2 base off next_pc s = do {
     b \<leftarrow> get_reg s base;
     bits \<leftarrow> get_freg s rs2;
     s \<leftarrow> mem_write_u32 E (b + off) (ucast (bits AND 0xFFFFFFFF)) s;
     ok next_pc s
   }"

section \<open>Quadrant 0\<close>

definition exec_q0 :: "'h env \<Rightarrow> u16 \<Rightarrow> u8 \<Rightarrow> u32 \<Rightarrow> 'h machine \<Rightarrow> (u32, 'h) outcome" where
  "exec_q0 E inst funct3 next_pc s =
     (let rdc = creg inst 2; rs1c = creg inst 7 in
      if funct3 = 0
      then (if c_addi4spn_imm inst = 0 then illegal16 inst s
            else do {
              sp \<leftarrow> get_reg s 2;
              s \<leftarrow> set_reg s rdc (sp + c_addi4spn_imm inst);
              ok next_pc s
            })
      else if funct3 = 1 then c_fld E rdc rs1c (cl_double_offset inst) next_pc s
      else if funct3 = 2 then c_lw E rdc rs1c (cl_word_offset inst) next_pc s
      else if funct3 = 3 then c_flw E rdc rs1c (cl_word_offset inst) next_pc s
      else if funct3 = 5 then c_fsd E rdc rs1c (cl_double_offset inst) next_pc s
      else if funct3 = 6 then c_sw E rdc rs1c (cl_word_offset inst) next_pc s
      else if funct3 = 7 then c_fsw E rdc rs1c (cl_word_offset inst) next_pc s
      else illegal16 inst s)"

section \<open>Quadrant 1\<close>

definition c_addi :: "u16 \<Rightarrow> u32 \<Rightarrow> 'h machine \<Rightarrow> (u32, 'h) outcome" where
  "c_addi inst next_pc s =
     (if c_rd inst \<noteq> 0 \<and> c_sign_ext6 inst \<noteq> 0
      then do {
        v \<leftarrow> get_reg s (c_rd inst);
        s \<leftarrow> set_reg s (c_rd inst) (v + scast (c_sign_ext6 inst));
        ok next_pc s
      }
      else ok next_pc s)"

definition c_lui_addi16sp :: "u16 \<Rightarrow> u32 \<Rightarrow> 'h machine \<Rightarrow> (u32, 'h) outcome" where
  "c_lui_addi16sp inst next_pc s =
     (if c_rd inst = 2
      then (if c_addi16sp_imm inst = 0 then illegal16 inst s
            else do {
              sp \<leftarrow> get_reg s 2;
              s \<leftarrow> set_reg s 2 (sp + c_addi16sp_offset inst);
              ok next_pc s
            })
      else if c_rd inst \<noteq> 0
      then (if c_imm6 inst = 0 then illegal16 inst s
            else do {
              s \<leftarrow> set_reg s (c_rd inst) (push_bit 12 (scast (c_sign_ext6 inst)));
              ok next_pc s
            })
      else illegal16 inst s)"

definition c_alu_val :: "u16 \<Rightarrow> u32 \<Rightarrow> u32 \<Rightarrow> u32" where
  "c_alu_val sel src1 src2 =
     (if sel = 0 then src1 - src2
      else if sel = 1 then src1 XOR src2
      else if sel = 2 then src1 OR src2
      else src1 AND src2)"

definition c_misc_alu :: "u16 \<Rightarrow> u32 \<Rightarrow> 'h machine \<Rightarrow> (u32, 'h) outcome" where
  "c_misc_alu inst next_pc s =
     (let rdc = creg inst 7; sel = shift_then_mask inst 10 0x3 in
      if sel = 0 \<or> sel = 1
      then (if c_bit12 inst \<noteq> 0 then illegal16 inst s
            else if c_shamt inst \<noteq> 0
            then do {
              src \<leftarrow> get_reg s rdc;
              s \<leftarrow> set_reg s rdc (if sel = 0 then drop_bit (c_shamt inst) src
                                 else signed_drop_bit (c_shamt inst) src);
              ok next_pc s
            }
            else ok next_pc s)
      else if sel = 2
      then do {
        src \<leftarrow> get_reg s rdc;
        s \<leftarrow> set_reg s rdc (src AND scast (c_sign_ext6 inst));
        ok next_pc s
      }
      else if c_bit12 inst \<noteq> 0 then illegal16 inst s
      else do {
        src1 \<leftarrow> get_reg s rdc;
        src2 \<leftarrow> get_reg s (creg inst 2);
        s \<leftarrow> set_reg s rdc (c_alu_val (shift_then_mask inst 5 0x3) src1 src2);
        ok next_pc s
      })"

definition exec_q1 :: "u16 \<Rightarrow> u8 \<Rightarrow> u32 \<Rightarrow> 'h machine \<Rightarrow> (u32, 'h) outcome" where
  "exec_q1 inst funct3 next_pc s =
     (if funct3 = 0 then c_addi inst next_pc s
      else if funct3 = 1
      then do { s \<leftarrow> set_reg s 1 next_pc; ok (pc (cpu s) + c_j_offset inst) s }
      else if funct3 = 2
      then do { s \<leftarrow> set_reg s (c_rd inst) (scast (c_sign_ext6 inst)); ok next_pc s }
      else if funct3 = 3 then c_lui_addi16sp inst next_pc s
      else if funct3 = 4 then c_misc_alu inst next_pc s
      else if funct3 = 5 then ok (pc (cpu s) + c_j_offset inst) s
      else if funct3 = 6
      then do {
        v \<leftarrow> get_reg s (creg inst 7);
        ok (if v = 0 then pc (cpu s) + c_b_offset inst else next_pc) s
      }
      else if funct3 = 7
      then do {
        v \<leftarrow> get_reg s (creg inst 7);
        ok (if v \<noteq> 0 then pc (cpu s) + c_b_offset inst else next_pc) s
      }
      else illegal16 inst s)"

section \<open>Quadrant 2\<close>

definition c_slli :: "u16 \<Rightarrow> u32 \<Rightarrow> 'h machine \<Rightarrow> (u32, 'h) outcome" where
  "c_slli inst next_pc s =
     (if c_bit12 inst \<noteq> 0 then illegal16 inst s
      else if c_rd inst \<noteq> 0 \<and> c_shamt inst \<noteq> 0
      then do {
        v \<leftarrow> get_reg s (c_rd inst);
        s \<leftarrow> set_reg s (c_rd inst) (push_bit (c_shamt inst) v);
        ok next_pc s
      }
      else ok next_pc s)"

definition c_jr_mv_add :: "u16 \<Rightarrow> u32 \<Rightarrow> 'h machine \<Rightarrow> (u32, 'h) outcome" where
  "c_jr_mv_add inst next_pc s =
     (let rd = c_rd inst; rs2 = c_rs2 inst; bit12 = c_bit12 inst in
      if bit12 = 0 \<and> rs2 = 0
      then (if rd = 0 then illegal16 inst s
            else do { v \<leftarrow> get_reg s rd; ok (v AND NOT 1) s })
      else if bit12 = 0 \<and> rs2 \<noteq> 0
      then (if rd \<noteq> 0
            then do { v \<leftarrow> get_reg s rs2; s \<leftarrow> set_reg s rd v; ok next_pc s }
            else ok next_pc s)
      else if rd = 0 \<and> rs2 = 0 then ok next_pc (s\<lparr>cpu := (cpu s)\<lparr>is_halted := True\<rparr>\<rparr>)
      else if rs2 = 0
      then do {
        v \<leftarrow> get_reg s rd;
        let target = v AND NOT 1;
        s \<leftarrow> set_reg s 1 next_pc;
        ok target s
      }
      else if rd \<noteq> 0
      then do {
        v \<leftarrow> get_reg s rd;
        w \<leftarrow> get_reg s rs2;
        s \<leftarrow> set_reg s rd (v + w);
        ok next_pc s
      }
      else ok next_pc s)"

definition exec_q2 :: "'h env \<Rightarrow> u16 \<Rightarrow> u8 \<Rightarrow> u32 \<Rightarrow> 'h machine \<Rightarrow> (u32, 'h) outcome" where
  "exec_q2 E inst funct3 next_pc s =
     (if funct3 = 0 then c_slli inst next_pc s
      else if funct3 = 1 then c_fld E (c_rd inst) 2 (ci_double_sp_offset inst) next_pc s
      else if funct3 = 2
      then (if c_rd inst = 0 then illegal16 inst s
            else c_lw E (c_rd inst) 2 (ci_word_sp_offset inst) next_pc s)
      else if funct3 = 3 then c_flw E (c_rd inst) 2 (ci_word_sp_offset inst) next_pc s
      else if funct3 = 4 then c_jr_mv_add inst next_pc s
      else if funct3 = 5 then c_fsd E (c_rs2 inst) 2 (css_double_sp_offset inst) next_pc s
      else if funct3 = 6 then c_sw E (c_rs2 inst) 2 (css_word_sp_offset inst) next_pc s
      else if funct3 = 7 then c_fsw E (c_rs2 inst) 2 (css_word_sp_offset inst) next_pc s
      else illegal16 inst s)"

section \<open>Dispatch\<close>

definition dispatch16 :: "'h env \<Rightarrow> u16 \<Rightarrow> u32 \<Rightarrow> 'h machine \<Rightarrow> (u32, 'h) outcome" where
  "dispatch16 E inst next_pc s =
     (let d = decode16 inst in
      if h_op d = 0 then exec_q0 E inst (h_funct3 d) next_pc s
      else if h_op d = 1 then exec_q1 inst (h_funct3 d) next_pc s
      else if h_op d = 2 then exec_q2 E inst (h_funct3 d) next_pc s
      else illegal16 inst s)"

definition execute_inst16 :: "'h env \<Rightarrow> u16 \<Rightarrow> 'h machine \<Rightarrow> (unit, 'h) outcome" where
  "execute_inst16 E inst s =
     and_then (dispatch16 E inst (pc (cpu s) + 2) s) set_pc"

end
