(* ===== verification/Run.thy ===== *)
theory Run
  imports Exec32 Exec16
begin

text \<open>
  The execution loops of \<open>src/cpu.rs\<close>: \<open>step_instruction\<close>, which the debugger calls once per instruction,
  \<open>run_slice\<close>, which runs at most \<open>budget\<close> instructions and polls the host for interrupts, and \<open>run\<close>,
  which drives slices until the guest stops.

  \<open>run_slice\<close> is two nested loops. The inner loop is \<open>slice_chunk\<close>, one iteration of it \<open>slice_iter\<close>; the
  outer loop is \<open>slice_loop\<close>. Both are total: the measure of the inner loop is the rest of the chunk and
  that of the outer loop the rest of the budget, which shrinks because a chunk that does not stop executes
  at least one instruction. The local counters are \<open>u64\<close>; they never exceed the \<open>u32\<close> budget, so their
  additions do not overflow. \<open>step_counter\<close> may, and its addition is checked in a debug build.

  \<open>run\<close> may not return. It is a partial function whose outer option is termination and whose inner
  option is \<open>None\<close> for a panic.
\<close>

section \<open>Fetch and execute\<close>

text \<open>
  The part that \<open>step_instruction\<close> and \<open>run_slice\<close> have in common; the flag says whether the instruction was
  compressed.
\<close>

definition fetch_execute :: "'h env \<Rightarrow> 'h machine \<Rightarrow> ((bool \<times> (cpu_error + unit)) \<times> 'h machine) option" where
  "fetch_execute E s = do {
     let p = pc (cpu s);
     ((window, wide), s) \<leftarrow> mem_fetch_window E p s;
     let inst16 = (ucast window :: u16);
     if inst16 AND 0x3 \<noteq> 0x3
     then do { (res, s) \<leftarrow> execute_inst16 E inst16 s; Some ((True, res), s) }
     else do {
       (inst32, s) \<leftarrow> (if wide then Some (window, s) else mem_read_u32 E p s);
       (res, s) \<leftarrow> execute_inst32 E inst32 s;
       Some ((False, res), s)
     }
   }"

definition count_step :: "'h env \<Rightarrow> 'h machine \<Rightarrow> 'h machine option" where
  "count_step E s = do {
     n \<leftarrow> add_or_panic E (step_counter (cpu s)) 1;
     Some (s\<lparr>cpu := (cpu s)\<lparr>step_counter := n\<rparr>\<rparr>)
   }"

definition print_err :: "'h env \<Rightarrow> string \<Rightarrow> 'h machine \<Rightarrow> 'h machine" where
  "print_err E msg s = s\<lparr>host := js_print_err E msg (host s)\<rparr>"

definition notify_unknown :: "'h env \<Rightarrow> UnknownSyscall \<Rightarrow> 'h machine \<Rightarrow> 'h machine" where
  "notify_unknown E sys s =
     s\<lparr>host := notify_unknown_syscall E (sys_num sys) (sys_a0 sys) (sys_a1 sys) (sys_a2 sys) (sys_a3 sys) (host s)\<rparr>"

definition stop_trapped :: "'h machine \<Rightarrow> 'h machine" where
  "stop_trapped s = s\<lparr>cpu := (cpu s)\<lparr>trapped := True, exit_code := TRAP_EXIT_CODE, is_halted := True\<rparr>\<rparr>"

section \<open>One step\<close>

definition step_report :: "'h env \<Rightarrow> cpu_error \<Rightarrow> 'h machine \<Rightarrow> 'h machine" where
  "step_report E e s =
     (let s = print_err E (cpu_error_to_string e) s in
      case e of
        UnknownSyscallError sys \<Rightarrow> notify_unknown E sys (print_err E (cpu_error_to_string e) s)
      | _ \<Rightarrow> s)"

definition step_instruction :: "'h env \<Rightarrow> 'h machine \<Rightarrow> (step_result \<times> 'h machine) option" where
  "step_instruction E s =
     (let c = cpu s in
      if debug_enabled c \<and> pc c \<in> breakpoints c \<and> resume_past_breakpoint c \<noteq> Some (pc c)
      then Some (BreakpointHit (pc c), s\<lparr>cpu := c\<lparr>resume_past_breakpoint := Some (pc c)\<rparr>\<rparr>)
      else let c = c\<lparr>resume_past_breakpoint := None\<rparr>; s = s\<lparr>cpu := c\<rparr> in
        if is_halted c then Some (StepHalted (exit_code c), s)
        else do {
          ((_, instruction_result), s) \<leftarrow> fetch_execute E s;
          s \<leftarrow> count_step E s;
          case instruction_result of
            Inl e \<Rightarrow> Some (Trap (pc c), stop_trapped (step_report E e s))
          | Inr _ \<Rightarrow>
              if is_halted (cpu s) then Some (StepHalted (exit_code (cpu s)), s) else Some (StepOk, s)
        })"

section \<open>One slice\<close>

definition unknown_syscall_message :: "UnknownSyscall \<Rightarrow> string" where
  "unknown_syscall_message sys =
     ''Unknown Syscall: '' @ fmt_dec (unat (sys_num sys)) @ '' (a0: '' @ fmt_alt_hex 0 (unat (sys_a0 sys))
     @ '', a1: '' @ fmt_alt_hex 0 (unat (sys_a1 sys)) @ '', a2: '' @ fmt_alt_hex 0 (unat (sys_a2 sys))
     @ '', a3: '' @ fmt_alt_hex 0 (unat (sys_a3 sys)) @ '')'' @ [CHR 0x0A]"

definition exec_error_message :: "bool \<Rightarrow> u32 \<Rightarrow> cpu_error \<Rightarrow> string" where
  "exec_error_message compressed p e =
     (if compressed then ''CPU Exec Error (Compressed) at PC '' else ''CPU Exec Error at PC '')
     @ fmt_alt_hex 10 (unat p) @ '': '' @ cpu_error_to_string e @ [CHR 0x0A]"

definition slice_report :: "'h env \<Rightarrow> bool \<Rightarrow> u32 \<Rightarrow> cpu_error \<Rightarrow> 'h machine \<Rightarrow> 'h machine" where
  "slice_report E compressed p e s =
     (case e of
        UnknownSyscallError sys \<Rightarrow> notify_unknown E sys (print_err E (unknown_syscall_message sys) s)
      | _ \<Rightarrow> print_err E (exec_error_message compressed p e) s)"

text \<open>
  One iteration of the inner loop: the status that stops the loop, if any, the breakpoint that may still
  be skipped, and the machine.
\<close>

definition slice_iter ::
  "'h env \<Rightarrow> bool \<Rightarrow> u32 option \<Rightarrow> 'h machine \<Rightarrow> (slice_status option \<times> u32 option \<times> 'h machine) option" where
  "slice_iter E watch_breakpoints skip_breakpoint s =
     (if is_halted (cpu s) then Some (Some Halted, skip_breakpoint, s)
      else if watch_breakpoints \<and> pc (cpu s) \<in> breakpoints (cpu s) \<and> skip_breakpoint \<noteq> Some (pc (cpu s))
      then Some (Some Breakpoint, skip_breakpoint,
                 s\<lparr>cpu := (cpu s)\<lparr>resume_past_breakpoint := Some (pc (cpu s))\<rparr>\<rparr>)
      else do {
        let skip_breakpoint = (if watch_breakpoints then None else skip_breakpoint);
        let p = pc (cpu s);
        ((compressed, result), s) \<leftarrow> fetch_execute E s;
        case result of
          Inl e \<Rightarrow> Some (Some Trapped, skip_breakpoint, stop_trapped (slice_report E compressed p e s))
        | Inr _ \<Rightarrow> do { s \<leftarrow> count_step E s; Some (None, skip_breakpoint, s) }
      })"

function slice_chunk ::
  "'h env \<Rightarrow> bool \<Rightarrow> u64 \<Rightarrow> u64 \<Rightarrow> u32 option \<Rightarrow> 'h machine
     \<Rightarrow> (u64 \<times> slice_status option \<times> u32 option \<times> 'h machine) option" where
  "slice_chunk E watch_breakpoints chunk done_cnt skip_breakpoint s =
     (if done_cnt < chunk
      then do {
        (stopped, skip_breakpoint, s) \<leftarrow> slice_iter E watch_breakpoints skip_breakpoint s;
        case stopped of
          Some status \<Rightarrow> Some (done_cnt, Some status, skip_breakpoint, s)
        | None \<Rightarrow> slice_chunk E watch_breakpoints chunk (done_cnt + 1) skip_breakpoint s
      }
      else Some (done_cnt, None, skip_breakpoint, s))"
  by pat_completeness auto
termination
  by (relation "measure (\<lambda>(E, w, chunk, done_cnt, sk, s). unat chunk - unat done_cnt)")
     (auto simp: unat_plus_1, simp add: word_less_nat_alt)

declare slice_chunk.simps [simp del]

definition poll_interrupt :: "'h env \<Rightarrow> 'h machine \<Rightarrow> (u64 \<times> 'h machine) option" where
  "poll_interrupt E s = do {
     let (d, h) = js_get_int_inst_delay E (host s);
     let delay = (if (scast d :: u64) = 0 then 1000 else scast d);
     let (enabled, h) = js_interrupt_enabled E h;
     let s = s\<lparr>host := h\<rparr>;
     mie \<leftarrow> (if enabled \<noteq> 0 then interrupts_enabled (cpu s) else Some False);
     if mie
     then do {
       let (irq, h) = js_external_interrupt E (host s);
       let s = s\<lparr>host := h\<rparr>;
       if irq \<noteq> 0 then do { c \<leftarrow> handle_interrupt (cpu s) irq; Some (delay, s\<lparr>cpu := c\<rparr>) }
       else Some (delay, s)
     }
     else Some (delay, s)
   }"

text \<open>A chunk that nothing stops runs to its end.\<close>

lemma slice_chunk_complete:
  "slice_chunk E w chunk n sk s = Some (n', None, sk', s') \<Longrightarrow> n \<le> chunk \<Longrightarrow> n' = chunk"
proof (induction E w chunk n sk s rule: slice_chunk.induct)
  case (1 E w chunk n sk s)
  show ?case
  proof (cases "n < chunk")
    case True
    then have "n + 1 \<le> chunk" by (simp add: inc_le)
    with True 1 show ?thesis
      by (subst (asm) (2) slice_chunk.simps) (auto split: Option.bind_split_asm option.splits)
  next
    case False
    with 1 show ?thesis by (subst (asm) (2) slice_chunk.simps) simp
  qed
qed

text \<open>The poll interval is never zero.\<close>

lemma poll_interrupt_pos: "poll_interrupt E s = Some (delay, s') \<Longrightarrow> 0 < delay"
  by (auto simp: poll_interrupt_def word_gt_0 Let_def split: prod.splits if_splits Option.bind_split_asm)

lemma chunk_progress:
  assumes "executed < budget" "0 < delay"
  shows "unat executed < unat (executed + min delay (budget - executed))"
    "unat (executed + min delay (budget - executed)) \<le> unat (budget::'a::len word)"
proof -
  let ?c = "min delay (budget - executed)"
  have d: "unat (budget - executed) = unat budget - unat executed"
    using assms(1) by (simp add: unat_sub order_less_imp_le)
  then have "unat ?c \<le> unat budget - unat executed"
    by (metis min.cobounded2 word_le_nat_alt)
  moreover have "unat executed < unat budget" using assms(1) by (simp add: word_less_nat_alt)
  moreover have "unat budget < 2 ^ LENGTH('a)" by (rule unsigned_less)
  ultimately have l: "unat executed + unat ?c \<le> unat budget" "unat executed + unat ?c < 2 ^ LENGTH('a)"
    by linarith+
  then have s: "unat (executed + ?c) = unat executed + unat ?c"
    by (simp add: unat_word_ariths)
  have "0 < budget - executed" using assms(1) by (simp add: word_gt_0)
  then have "0 < ?c" using assms(2) by (simp add: min_def)
  with s l show "unat executed < unat (executed + ?c)" "unat (executed + ?c) \<le> unat budget"
    by (simp_all add: word_less_nat_alt)
qed

function slice_loop ::
  "'h env \<Rightarrow> bool \<Rightarrow> u64 \<Rightarrow> u64 \<Rightarrow> u32 option \<Rightarrow> 'h machine
     \<Rightarrow> ((slice_status \<times> u64) \<times> 'h machine) option" where
  "slice_loop E watch_breakpoints budget executed skip_breakpoint s =
     (if is_halted (cpu s) then Some ((Halted, executed), s)
      else if executed \<ge> budget then Some ((Running, executed), s)
      else do {
        (interrupt_delay, s) \<leftarrow> poll_interrupt E s;
        let chunk = min interrupt_delay (budget - executed);
        (done_cnt, stopped, skip_breakpoint, s) \<leftarrow> slice_chunk E watch_breakpoints chunk 0 skip_breakpoint s;
        case stopped of
          Some status \<Rightarrow> Some ((status, executed + done_cnt), s)
        | None \<Rightarrow> slice_loop E watch_breakpoints budget (executed + done_cnt) skip_breakpoint s
      })"
  by pat_completeness auto
termination
proof (relation "measure (\<lambda>(E, w, budget, executed, sk, s). unat budget - unat executed)", goal_cases)
  case 1
  show ?case by simp
next
  case (2 E w budget executed sk s p delay s1 chunk q n r stopped t sk' s')
  then have "chunk = min delay (budget - executed)" "n = chunk" "0 < delay" "executed < budget"
    by (auto dest: poll_interrupt_pos slice_chunk_complete)
  with chunk_progress [of executed budget delay] show ?case by auto
qed

declare slice_loop.simps [simp del]

definition run_slice :: "'h env \<Rightarrow> u32 \<Rightarrow> 'h machine \<Rightarrow> (slice_outcome \<times> 'h machine) option" where
  "run_slice E budget s = do {
     let watch_breakpoints = (debug_enabled (cpu s) \<and> breakpoints (cpu s) \<noteq> {});
     let skip_breakpoint = resume_past_breakpoint (cpu s);
     let s = s\<lparr>cpu := (cpu s)\<lparr>resume_past_breakpoint := None\<rparr>\<rparr>;
     ((status, executed), s) \<leftarrow> slice_loop E watch_breakpoints (ucast budget) 0 skip_breakpoint s;
     Some (\<lparr>so_status = status, so_steps = executed, so_pc = pc (cpu s), so_exit_code = exit_code (cpu s)\<rparr>, s)
   }"

section \<open>Running to completion\<close>

partial_function (option) run :: "'h env \<Rightarrow> 'h machine \<Rightarrow> (i32 \<times> 'h machine) option option" where
  "run E s =
     (case run_slice E u32_max s of
        None \<Rightarrow> Some None
      | Some (outcome, s) \<Rightarrow>
          if so_status outcome = Running \<or> so_status outcome = Breakpoint then run E s
          else Some (Some (exit_code (cpu s), s\<lparr>cpu := (cpu s)\<lparr>is_halted := True\<rparr>\<rparr>)))"

end
