(* ===== verification/Memory_Total.thy ===== *)
theory Memory_Total
  imports Memory_Bytes
begin

text \<open>
  Totality of the memory: on a well-formed memory no access panics, at any address, and no access
  changes the heap break. \<open>returns r Q\<close> says that \<open>r\<close> does not panic and that its value satisfies \<open>Q\<close>; it
  is the weakest precondition that the proofs about instructions are written in.

  The contract \<open>total_memory\<close> asks totality of the two byte operations and derives it for the default
  methods of the trait; \<open>read_u8\<close> and \<open>write_u8\<close> satisfy it, and the fast paths inherit it.
\<close>

section \<open>Results that do not panic\<close>

definition returns :: "'a option \<Rightarrow> ('a \<Rightarrow> bool) \<Rightarrow> bool" where
  "returns r Q = (case r of None \<Rightarrow> False | Some x \<Rightarrow> Q x)"

lemma returns_Some [simp]: "returns (Some x) Q = Q x"
  by (simp add: returns_def)

lemma returns_None [simp]: "\<not> returns None Q"
  by (simp add: returns_def)

lemma returns_bind [simp]: "returns (r \<bind> f) Q = returns r (\<lambda>x. returns (f x) Q)"
  by (cases r) simp_all

lemma returns_mono: "returns r P \<Longrightarrow> (\<And>x. P x \<Longrightarrow> Q x) \<Longrightarrow> returns r Q"
  by (cases r) simp_all

lemma returnsE: "returns r Q \<Longrightarrow> (\<And>x. r = Some x \<Longrightarrow> Q x \<Longrightarrow> thesis) \<Longrightarrow> thesis"
  by (cases r) simp_all

lemma returns_if: "returns (if b then r else r') Q = (if b then returns r Q else returns r' Q)"
  by simp

section \<open>The contract\<close>

locale total_memory =
  fixes rd8 :: "('m, 'h) rd8"
    and wr8 :: "('m, 'h) wr8"
    and inv :: "'m \<Rightarrow> bool"
  assumes rd8_total: "inv m \<Longrightarrow> rd8 a m h \<noteq> None"
    and wr8_total: "inv m \<Longrightarrow> returns (wr8 a v m h) (\<lambda>(m', h'). inv m')"
begin

lemma rd8_returns: "inv m \<Longrightarrow> (\<And>v h'. Q (v, h')) \<Longrightarrow> returns (rd8 a m h) Q"
  using rd8_total [of m a h] by (cases "rd8 a m h") auto

lemma wr8_returns: "inv m \<Longrightarrow> (\<And>m' h'. inv m' \<Longrightarrow> Q (m', h')) \<Longrightarrow> returns (wr8 a v m h) Q"
  by (rule returns_mono [OF wr8_total]) auto

lemma default_read_u16_total: "inv m \<Longrightarrow> (\<And>v h'. Q (v, h')) \<Longrightarrow> returns (default_read_u16 rd8 a m h) Q"
  by (simp add: default_read_u16_def rd8_returns)

lemma default_read_u32_total: "inv m \<Longrightarrow> (\<And>v h'. Q (v, h')) \<Longrightarrow> returns (default_read_u32 rd8 a m h) Q"
  by (simp add: default_read_u32_def rd8_returns)

lemma default_write_u16_total:
  "inv m \<Longrightarrow> (\<And>m' h'. inv m' \<Longrightarrow> Q (m', h')) \<Longrightarrow> returns (default_write_u16 wr8 a v m h) Q"
  by (auto simp: default_write_u16_def intro!: wr8_returns)

lemma default_write_u32_total:
  "inv m \<Longrightarrow> (\<And>m' h'. inv m' \<Longrightarrow> Q (m', h')) \<Longrightarrow> returns (default_write_u32 wr8 a v m h) Q"
  by (auto simp: default_write_u32_def intro!: wr8_returns)

lemma read_each_total: "inv m \<Longrightarrow> returns (read_each rd8 a i n m h) (\<lambda>(bs, h'). length bs = n)"
proof (induction n arbitrary: i h)
  case (Suc n)
  then show ?case
    by (auto intro!: rd8_returns returns_mono [OF Suc.IH])
qed simp

lemma write_each_total: "inv m \<Longrightarrow> returns (write_each wr8 a i bs m h) (\<lambda>(m', h'). inv m')"
  by (induction bs arbitrary: i m h) (auto intro!: wr8_returns)

end

section \<open>The paged memory is total\<close>

lemma not_ram: "\<not> a < MMIO_BASE \<Longrightarrow> MMIO_BASE \<le> a"
  by (rule leI)

text \<open>The invariant of the interpretation fixes the heap break, so that no access can move it.\<close>

definition mem_inv :: "u32 \<Rightarrow> u32 \<Rightarrow> memory \<Rightarrow> bool" where
  "mem_inv b i m \<longleftrightarrow> wf_memory m \<and> brk_ptr m = b \<and> initial_brk m = i"

lemma mem_inv_self: "wf_memory m \<Longrightarrow> mem_inv (brk_ptr m) (initial_brk m) m"
  by (simp add: mem_inv_def)

interpretation total_ram: total_memory "read_u8 E" "write_u8 E" "mem_inv b i" for E :: "'h env" and b i
proof
  fix m a and h :: 'h and v
  assume m: "mem_inv b i m"
  show "read_u8 E a m h \<noteq> None"
  proof (cases "a < MMIO_BASE")
    case True
    with m show ?thesis by (simp add: mem_inv_def mem_simps)
  next
    case False
    then show ?thesis using not_ram [of a] by (simp add: read_u8_def split: prod.split)
  qed
  show "returns (write_u8 E a v m h) (\<lambda>(m', h'). mem_inv b i m')"
  proof (cases "a < MMIO_BASE")
    case True
    with m show ?thesis by (simp add: mem_inv_def mem_simps)
  next
    case False
    with m show ?thesis using not_ram [of a] by (simp add: write_u8_def)
  qed
qed

lemma read_u8_returns: "wf_memory m \<Longrightarrow> (\<And>v h'. Q (v, h')) \<Longrightarrow> returns (read_u8 E a m h) Q"
  by (rule total_ram.rd8_returns [OF mem_inv_self])

lemma read_u16_returns:
  assumes "wf_memory m" "\<And>v h'. Q (v, h')" shows "returns (read_u16 E a m h) Q"
proof (cases "a < MMIO_BASE")
  case True
  with assms show ?thesis
    by (simp add: read_u16_default total_ram.default_read_u16_total [OF mem_inv_self])
next
  case False
  with assms show ?thesis using not_ram [of a] by (simp add: read_u16_def split: prod.split)
qed

lemma read_u32_returns:
  assumes "wf_memory m" "\<And>v h'. Q (v, h')" shows "returns (read_u32 E a m h) Q"
proof (cases "a < MMIO_BASE")
  case True
  with assms show ?thesis
    by (simp add: read_u32_default total_ram.default_read_u32_total [OF mem_inv_self])
next
  case False
  with assms show ?thesis using not_ram [of a] by (cases "js_read_mmio E a 4 h") (simp add: read_u32_def)
qed

lemma write_u8_returns:
  "wf_memory m \<Longrightarrow> (\<And>m' h'. mem_inv (brk_ptr m) (initial_brk m) m' \<Longrightarrow> Q (m', h')) \<Longrightarrow>
     returns (write_u8 E a v m h) Q"
  by (rule total_ram.wr8_returns [OF mem_inv_self])

lemma write_u16_returns:
  assumes "wf_memory m" "\<And>m' h'. mem_inv (brk_ptr m) (initial_brk m) m' \<Longrightarrow> Q (m', h')"
  shows "returns (write_u16 E a v m h) Q"
proof (cases "a < MMIO_BASE")
  case True
  with assms show ?thesis
    by (simp add: write_u16_default total_ram.default_write_u16_total [OF mem_inv_self])
next
  case False
  with assms show ?thesis using not_ram [of a] by (simp add: write_u16_def mem_inv_self)
qed

lemma write_u32_returns:
  assumes "wf_memory m" "\<And>m' h'. mem_inv (brk_ptr m) (initial_brk m) m' \<Longrightarrow> Q (m', h')"
  shows "returns (write_u32 E a v m h) Q"
proof (cases "a < MMIO_BASE")
  case True
  with assms show ?thesis
    by (simp add: write_u32_default total_ram.default_write_u32_total [OF mem_inv_self])
next
  case False
  with assms show ?thesis using not_ram [of a] by (simp add: write_u32_def mem_inv_self)
qed

lemma read_bytes_returns:
  assumes "wf_memory m" "\<And>bs h'. length bs = n \<Longrightarrow> Q (bs, h')"
  shows "returns (read_bytes E a n m h) Q"
  unfolding read_bytes_default [OF assms(1)] default_read_bytes_def
  by (rule returns_mono [OF total_ram.read_each_total [OF mem_inv_self [OF assms(1)]]]) (use assms(2) in auto)

lemma write_bytes_returns:
  assumes "wf_memory m" "\<And>m' h'. mem_inv (brk_ptr m) (initial_brk m) m' \<Longrightarrow> Q (m', h')"
  shows "returns (write_bytes E a bs m h) Q"
  unfolding write_bytes_default [OF assms(1)] default_write_bytes_def
  by (rule returns_mono [OF total_ram.write_each_total [OF mem_inv_self [OF assms(1)]]]) (use assms(2) in auto)

text \<open>The fetch window never writes, so its low halfword is the halfword the memory would read.\<close>

lemma fetch_window_ram:
  assumes "wf_memory m" "a < MMIO_BASE" "offset_of a + 3 < 65536"
  shows "\<exists>wide. fetch_window E a m h =
    Some ((from_le_bytes4 (ram m a) (ram m (a + 1)) (ram m (a + 2)) (ram m (a + 3)), wide), h)
    \<and> (wide \<longleftrightarrow> snd (pages m) (idx_of a) \<noteq> None)"
  using assms ram_in_page [of a 1 m] ram_in_page [of a 2 m] ram_in_page [of a 3 m]
  by (cases "snd (pages m) (idx_of a)")
     (auto simp: fetch_window_def Let_def PAGE_SIZE_def mem_simps ram_def page_at_def from_le_bytes4_def)

lemma fetch_window_returns:
  assumes "wf_memory m" "\<And>v h'. Q (v, h')" shows "returns (fetch_window E a m h) Q"
proof (cases "a < MMIO_BASE \<and> offset_of a + 3 < 65536")
  case True
  with assms fetch_window_ram [of m a E h] show ?thesis by auto
next
  case False
  with assms show ?thesis
    by (auto simp: fetch_window_def Let_def PAGE_SIZE_def intro!: read_u16_returns)
qed

end
