(* ===== verification/Safe_Exec.thy ===== *)
theory Safe_Exec
  imports Exec32 Exec16 Memory_Total
begin

text \<open>
  Safety of one instruction. For every instruction word and every machine that satisfies \<open>machine_ok\<close>,
  \<open>execute_inst32\<close> and \<open>execute_inst16\<close> return (no index, slice or arithmetic check panics), keep
  \<open>machine_ok\<close>, leave the control fields of the processor alone and, when they report an error, leave the
  processor and the memory exactly as they were.

  The handlers are run by weakest preconditions: the lemmas in \<open>exec_simps\<close> compute register accesses, and
  the \<open>_wp\<close> rules reduce a memory access to an arbitrary result that keeps the invariant.
\<close>

section \<open>Invariant and postcondition\<close>

definition machine_ok :: "'h machine \<Rightarrow> bool" where
  "machine_ok s \<longleftrightarrow> wf_memory (mem s) \<and> brk_ok (mem s) \<and> regs (cpu s) 0 = 0"

text \<open>The fields of the processor that no instruction changes.\<close>

definition ctrl_of :: "cpu \<Rightarrow> u32 \<times> bool \<times> u32 set \<times> u64 \<times> bool \<times> bool \<times> u32 option" where
  "ctrl_of c = (fcsr c, debug_enabled c, breakpoints c, step_counter c, has_custom_syscalls c, trapped c,
     resume_past_breakpoint c)"

definition exec_inv :: "'h machine \<Rightarrow> 'h machine \<Rightarrow> bool" where
  "exec_inv s s' \<longleftrightarrow> machine_ok s' \<and> ctrl_of (cpu s') = ctrl_of (cpu s) \<and> pc (cpu s') = pc (cpu s)
     \<and> initial_brk (mem s') = initial_brk (mem s) \<and> (is_halted (cpu s) \<longrightarrow> is_halted (cpu s'))"

definition exec_post :: "'h machine \<Rightarrow> ('e + 'a) \<times> 'h machine \<Rightarrow> bool" where
  "exec_post s = (\<lambda>(res, s'). exec_inv s s' \<and> (isl res \<longrightarrow> cpu s' = cpu s \<and> mem s' = mem s))"

lemma exec_inv_refl: "machine_ok s \<Longrightarrow> exec_inv s s"
  by (simp add: exec_inv_def)

lemma exec_inv_ok: "exec_inv s s' \<Longrightarrow> machine_ok s'"
  by (simp add: exec_inv_def)

lemma machine_ok_wf: "machine_ok s \<Longrightarrow> wf_memory (mem s)"
  by (simp add: machine_ok_def)

lemma exec_inv_wf: "exec_inv s s' \<Longrightarrow> wf_memory (mem s')"
  by (simp add: exec_inv_def machine_ok_def)

section \<open>Registers\<close>

definition xreg :: "'h machine \<Rightarrow> nat \<Rightarrow> u32" where
  "xreg s r = (if r = 0 then 0 else regs (cpu s) r)"

definition put_xreg :: "'h machine \<Rightarrow> nat \<Rightarrow> u32 \<Rightarrow> 'h machine" where
  "put_xreg s r v = (if r = 0 then s else s\<lparr>cpu := (cpu s)\<lparr>regs := (regs (cpu s))(r := v)\<rparr>\<rparr>)"

definition put_freg :: "'h machine \<Rightarrow> nat \<Rightarrow> u64 \<Rightarrow> 'h machine" where
  "put_freg s r v = s\<lparr>cpu := (cpu s)\<lparr>fregs := (fregs (cpu s))(r := v)\<rparr>\<rparr>"

text \<open>The machine with the program counter behind a 32-bit instruction.\<close>

definition next_inst :: "'h machine \<Rightarrow> 'h machine" where
  "next_inst s = s\<lparr>cpu := (cpu s)\<lparr>pc := pc (cpu s) + 4\<rparr>\<rparr>"

lemma next_inst_simps [simp]:
  "xreg (next_inst s) r = xreg s r" "fregs (cpu (next_inst s)) = fregs (cpu s)"
  by (simp_all add: next_inst_def xreg_def)

definition unbox :: "u64 \<Rightarrow> u32" where
  "unbox bits = (if drop_bit 32 bits = 0xFFFFFFFF then ucast bits else NAN_F32)"

definition box :: "u32 \<Rightarrow> u64" where
  "box v = (if f32_is_nan v then NAN_F64 else nan_box v)"

definition canon64 :: "u64 \<Rightarrow> u64" where
  "canon64 v = (if f64_is_nan v then 0x7FF8000000000000 else v)"

lemma get_reg_xreg [exec_simps]: "r < 32 \<Longrightarrow> get_reg s r = Some (xreg s r)"
  by (simp add: get_reg_def read_reg_def xreg_def)

lemma set_reg_xreg [exec_simps]: "r < 32 \<Longrightarrow> set_reg s r v = Some (put_xreg s r v)"
  by (simp add: set_reg_def write_reg_def put_xreg_def)

lemma get_freg_simp [exec_simps]: "r < 32 \<Longrightarrow> get_freg s r = Some (fregs (cpu s) r)"
  by (simp add: get_freg_def read_freg_def)

lemma set_freg_simp [exec_simps]: "r < 32 \<Longrightarrow> set_freg s r v = Some (put_freg s r v)"
  by (simp add: set_freg_def write_freg_def put_freg_def)

lemma get_f32_simp [exec_simps]: "r < 32 \<Longrightarrow> get_f32 s r = Some (unbox (fregs (cpu s) r))"
  by (simp add: get_f32_def read_f32_def read_freg_def unbox_def)

lemma set_f32_simp [exec_simps]: "r < 32 \<Longrightarrow> set_f32 s r v = Some (put_freg s r (box v))"
  by (simp add: set_f32_def write_f32_def write_freg_def put_freg_def box_def nan_box_def)

lemma get_f64_simp [exec_simps]: "r < 32 \<Longrightarrow> get_f64 s r = Some (fregs (cpu s) r)"
  by (simp add: get_f64_def read_f64_def read_freg_def)

lemma set_f64_simp [exec_simps]: "r < 32 \<Longrightarrow> set_f64 s r v = Some (put_freg s r (canon64 v))"
  by (simp add: set_f64_def write_f64_def write_freg_def put_freg_def canon64_def)

lemma put_xreg_simps [simp]:
  "mem (put_xreg s r v) = mem s" "host (put_xreg s r v) = host s" "pc (cpu (put_xreg s r v)) = pc (cpu s)"
  "csrs (cpu (put_xreg s r v)) = csrs (cpu s)" "fregs (cpu (put_xreg s r v)) = fregs (cpu s)"
  "is_halted (cpu (put_xreg s r v)) = is_halted (cpu s)" "exit_code (cpu (put_xreg s r v)) = exit_code (cpu s)"
  "ctrl_of (cpu (put_xreg s r v)) = ctrl_of (cpu s)"
  by (simp_all add: put_xreg_def ctrl_of_def)

lemma put_freg_simps [simp]:
  "mem (put_freg s r v) = mem s" "host (put_freg s r v) = host s" "pc (cpu (put_freg s r v)) = pc (cpu s)"
  "csrs (cpu (put_freg s r v)) = csrs (cpu s)" "regs (cpu (put_freg s r v)) = regs (cpu s)"
  "is_halted (cpu (put_freg s r v)) = is_halted (cpu s)" "exit_code (cpu (put_freg s r v)) = exit_code (cpu s)"
  "ctrl_of (cpu (put_freg s r v)) = ctrl_of (cpu s)"
  by (simp_all add: put_freg_def ctrl_of_def)

lemma put_xreg_x0 [simp]: "regs (cpu (put_xreg s r v)) 0 = regs (cpu s) 0"
  by (simp add: put_xreg_def)

lemma exec_inv_put_xreg [simp]: "exec_inv s (put_xreg s' r v) = exec_inv s s'"
  by (simp add: exec_inv_def machine_ok_def)

lemma exec_inv_put_freg [simp]: "exec_inv s (put_freg s' r v) = exec_inv s s'"
  by (simp add: exec_inv_def machine_ok_def)

lemma exec_inv_host [simp]: "exec_inv s (s'\<lparr>host := h\<rparr>) = exec_inv s s'"
  by (simp add: exec_inv_def machine_ok_def)

lemma exec_inv_csrs [simp]: "exec_inv s (s'\<lparr>cpu := (cpu s')\<lparr>csrs := f\<rparr>\<rparr>) = exec_inv s s'"
  by (simp add: exec_inv_def machine_ok_def ctrl_of_def)

lemma exec_inv_halt: "exec_inv s s' \<Longrightarrow> exec_inv s (s'\<lparr>cpu := (cpu s')\<lparr>is_halted := True\<rparr>\<rparr>)"
  by (simp add: exec_inv_def machine_ok_def ctrl_of_def)

lemma exec_inv_exit:
  "exec_inv s s' \<Longrightarrow> exec_inv s (s'\<lparr>cpu := (cpu s')\<lparr>is_halted := True, exit_code := n\<rparr>\<rparr>)"
  by (simp add: exec_inv_def machine_ok_def ctrl_of_def)

lemma exec_inv_mem:
  "exec_inv s s' \<Longrightarrow> mem_inv (brk_ptr (mem s')) (initial_brk (mem s')) m \<Longrightarrow>
     exec_inv s (s'\<lparr>mem := m, host := h\<rparr>)"
  by (auto simp: exec_inv_def machine_ok_def mem_inv_def brk_ok_def)

lemma set_brk_wf [simp]: "wf_memory (set_brk v m) = wf_memory m"
  by (simp add: set_brk_def wf_memory_def)

lemma set_brk_initial [simp]: "initial_brk (set_brk v m) = initial_brk m"
  by (simp add: set_brk_def)

lemma set_brk_ok: "brk_ok m \<Longrightarrow> brk_ok (set_brk v m)"
  by (simp add: set_brk_def brk_ok_def)

lemma exec_inv_brk: "exec_inv s s' \<Longrightarrow> exec_inv s (s'\<lparr>mem := set_brk v (mem s')\<rparr>)"
  by (simp add: exec_inv_def machine_ok_def set_brk_ok)

section \<open>Weakest preconditions of memory accesses\<close>

lemma mem_read_u8_wp: "exec_inv s0 s \<Longrightarrow> (\<And>v h. Q (v, s\<lparr>host := h\<rparr>)) \<Longrightarrow> returns (mem_read_u8 E a s) Q"
  by (auto simp: mem_read_u8_def dest: exec_inv_wf intro!: read_u8_returns)

lemma mem_read_u16_wp: "exec_inv s0 s \<Longrightarrow> (\<And>v h. Q (v, s\<lparr>host := h\<rparr>)) \<Longrightarrow> returns (mem_read_u16 E a s) Q"
  by (auto simp: mem_read_u16_def dest: exec_inv_wf intro!: read_u16_returns)

lemma mem_read_u32_wp: "exec_inv s0 s \<Longrightarrow> (\<And>v h. Q (v, s\<lparr>host := h\<rparr>)) \<Longrightarrow> returns (mem_read_u32 E a s) Q"
  by (auto simp: mem_read_u32_def dest: exec_inv_wf intro!: read_u32_returns)

lemma mem_fetch_window_wp:
  "exec_inv s0 s \<Longrightarrow> (\<And>v h. Q (v, s\<lparr>host := h\<rparr>)) \<Longrightarrow> returns (mem_fetch_window E a s) Q"
  by (auto simp: mem_fetch_window_def dest: exec_inv_wf intro!: fetch_window_returns)

lemma mem_read_bytes_wp:
  "exec_inv s0 s \<Longrightarrow> (\<And>bs h. length bs = n \<Longrightarrow> Q (bs, s\<lparr>host := h\<rparr>)) \<Longrightarrow>
     returns (mem_read_bytes E a n s) Q"
  by (auto simp: mem_read_bytes_def dest: exec_inv_wf intro!: read_bytes_returns)

text \<open>After a write the memory is any one that keeps the invariant.\<close>

lemma mem_write_u8_wp: "exec_inv s0 s \<Longrightarrow> (\<And>s'. exec_inv s0 s' \<Longrightarrow> Q s') \<Longrightarrow> returns (mem_write_u8 E a v s) Q"
  by (simp add: mem_write_u8_def, rule write_u8_returns [OF exec_inv_wf]) (auto intro: exec_inv_mem)

lemma mem_write_u16_wp: "exec_inv s0 s \<Longrightarrow> (\<And>s'. exec_inv s0 s' \<Longrightarrow> Q s') \<Longrightarrow> returns (mem_write_u16 E a v s) Q"
  by (simp add: mem_write_u16_def, rule write_u16_returns [OF exec_inv_wf]) (auto intro: exec_inv_mem)

lemma mem_write_u32_wp: "exec_inv s0 s \<Longrightarrow> (\<And>s'. exec_inv s0 s' \<Longrightarrow> Q s') \<Longrightarrow> returns (mem_write_u32 E a v s) Q"
  by (simp add: mem_write_u32_def, rule write_u32_returns [OF exec_inv_wf]) (auto intro: exec_inv_mem)

lemma mem_write_bytes_wp:
  "exec_inv s0 s \<Longrightarrow> (\<And>s'. exec_inv s0 s' \<Longrightarrow> Q s') \<Longrightarrow> returns (mem_write_bytes E a bs s) Q"
  by (simp add: mem_write_bytes_def, rule write_bytes_returns [OF exec_inv_wf]) (auto intro: exec_inv_mem)

lemmas mem_wp = mem_read_u8_wp mem_read_u16_wp mem_read_u32_wp mem_fetch_window_wp mem_read_bytes_wp
  mem_write_u8_wp mem_write_u16_wp mem_write_u32_wp mem_write_bytes_wp

section \<open>Outcomes\<close>

lemma exec_post_ok [simp]: "returns (ok a s') (exec_post s) = exec_inv s s'"
  by (simp add: ok_def exec_post_def)

lemma exec_post_err [simp]:
  "returns (err e s') (exec_post s) \<longleftrightarrow> exec_inv s s' \<and> cpu s' = cpu s \<and> mem s' = mem s"
  by (simp add: err_def exec_post_def)

lemma exec_post_illegal [simp]:
  "returns (illegal inst s') (exec_post s) \<longleftrightarrow> exec_inv s s' \<and> cpu s' = cpu s \<and> mem s' = mem s"
  by (simp add: illegal_def)

lemma exec_post_illegal16 [simp]:
  "returns (illegal16 inst s') (exec_post s) \<longleftrightarrow> exec_inv s s' \<and> cpu s' = cpu s \<and> mem s' = mem s"
  by (simp add: illegal16_def)

lemma returns_case_option [simp]:
  "returns (case x of None \<Rightarrow> r | Some y \<Rightarrow> f y) Q \<longleftrightarrow>
     (x = None \<longrightarrow> returns r Q) \<and> (\<forall>y. x = Some y \<longrightarrow> returns (f y) Q)"
  by (cases x) simp_all

lemma and_then_post:
  assumes "returns r (exec_post s)" "\<And>a s'. exec_inv s s' \<Longrightarrow> returns (f a s') (exec_post s)"
  shows "returns (and_then r f) (exec_post s)"
proof -
  obtain res s' where r: "r = Some (res, s')" "exec_post s (res, s')"
    using assms(1) by (auto elim!: returnsE)
  then show ?thesis
    using assms(2) by (cases res) (auto simp: and_then_def exec_post_def)
qed

section \<open>The handlers\<close>

definition regs_in_range :: "DecodedInst32 \<Rightarrow> bool" where
  "regs_in_range d \<longleftrightarrow> d_rd d < 32 \<and> d_rs1 d < 32 \<and> d_rs2 d < 32 \<and> d_rs3 d < 32"

lemma regs_in_rangeD [simp]:
  "regs_in_range d \<Longrightarrow> d_rd d < 32" "regs_in_range d \<Longrightarrow> d_rs1 d < 32"
  "regs_in_range d \<Longrightarrow> d_rs2 d < 32" "regs_in_range d \<Longrightarrow> d_rs3 d < 32"
  by (simp_all add: regs_in_range_def)

lemma regs_in_range_decode [simp]: "regs_in_range (decode32 w)"
  by (simp add: regs_in_range_def)

lemma exec_branch_safe:
  "machine_ok s \<Longrightarrow> regs_in_range d \<Longrightarrow> returns (exec_branch d np s) (exec_post s)"
  by (simp add: exec_branch_def exec_simps exec_inv_refl)

lemma exec_load_safe:
  "machine_ok s \<Longrightarrow> regs_in_range d \<Longrightarrow> returns (exec_load E d np s) (exec_post s)"
  by (auto simp: exec_load_def exec_simps exec_inv_refl Let_def intro!: mem_wp [where ?s0.0 = s])

lemma exec_store_safe:
  "machine_ok s \<Longrightarrow> regs_in_range d \<Longrightarrow> returns (exec_store E d np s) (exec_post s)"
  by (auto simp: exec_store_def exec_simps exec_inv_refl Let_def intro!: mem_wp [where ?s0.0 = s])

lemma exec_op_imm_safe:
  "machine_ok s \<Longrightarrow> regs_in_range d \<Longrightarrow> returns (exec_op_imm d np s) (exec_post s)"
  by (simp add: exec_op_imm_def exec_simps exec_inv_refl)

lemma exec_op_safe:
  "machine_ok s \<Longrightarrow> regs_in_range d \<Longrightarrow> returns (exec_op d np s) (exec_post s)"
  by (simp add: exec_op_def exec_simps exec_inv_refl)

lemma exec_rv32i_safe:
  "machine_ok s \<Longrightarrow> regs_in_range d \<Longrightarrow> returns (exec_rv32i E d np s) (exec_post s)"
  by (simp add: exec_rv32i_def exec_simps exec_inv_refl Let_def exec_branch_safe exec_load_safe
      exec_store_safe exec_op_imm_safe exec_op_safe)

lemma exec_rv32m_safe:
  "machine_ok s \<Longrightarrow> regs_in_range d \<Longrightarrow> returns (exec_rv32m d s) (exec_post s)"
  by (simp add: exec_rv32m_def exec_simps exec_inv_refl)

lemma exec_rv32a_safe:
  "machine_ok s \<Longrightarrow> regs_in_range d \<Longrightarrow> returns (exec_rv32a E d s) (exec_post s)"
  by (auto simp: exec_rv32a_def exec_simps exec_inv_refl Let_def
      intro!: mem_wp [where ?s0.0 = s])

lemma add_or_panic_wp: "\<not> overflow_checks E \<Longrightarrow> Q (a + b) \<Longrightarrow> returns (add_or_panic E a b) Q"
  by simp

lemma exec_load_fp_safe:
  "machine_ok s \<Longrightarrow> regs_in_range d \<Longrightarrow> \<not> overflow_checks E \<Longrightarrow> returns (exec_load_fp E d s) (exec_post s)"
  by (auto simp: exec_load_fp_def exec_simps exec_inv_refl Let_def intro!: mem_wp [where ?s0.0 = s])

lemma exec_store_fp_safe:
  "machine_ok s \<Longrightarrow> regs_in_range d \<Longrightarrow> \<not> overflow_checks E \<Longrightarrow> returns (exec_store_fp E d s) (exec_post s)"
  by (auto simp: exec_store_fp_def exec_simps exec_inv_refl Let_def intro!: mem_wp [where ?s0.0 = s])

lemma arith_s_safe: "machine_ok s \<Longrightarrow> regs_in_range d \<Longrightarrow> returns (arith_s d f s) (exec_post s)"
  by (simp add: arith_s_def exec_simps exec_inv_refl)

lemma arith_d_safe: "machine_ok s \<Longrightarrow> regs_in_range d \<Longrightarrow> returns (arith_d d f s) (exec_post s)"
  by (simp add: arith_d_def exec_simps exec_inv_refl)

lemma exec_op_fp_s_safe:
  "machine_ok s \<Longrightarrow> regs_in_range d \<Longrightarrow> returns (exec_op_fp_s E d f5 s) (exec_post s)"
  by (simp add: exec_op_fp_s_def exec_simps exec_inv_refl Let_def arith_s_safe)

lemma exec_op_fp_d_safe:
  "machine_ok s \<Longrightarrow> regs_in_range d \<Longrightarrow> returns (exec_op_fp_d E d f5 s) (exec_post s)"
  by (simp add: exec_op_fp_d_def exec_simps exec_inv_refl Let_def arith_d_safe)

lemma exec_madd_safe: "machine_ok s \<Longrightarrow> regs_in_range d \<Longrightarrow> returns (exec_madd d s) (exec_post s)"
  by (simp add: exec_madd_def exec_simps exec_inv_refl Let_def)

lemma exec_rv32fd_safe:
  "machine_ok s \<Longrightarrow> regs_in_range d \<Longrightarrow> \<not> overflow_checks E \<Longrightarrow> returns (exec_rv32fd E d s) (exec_post s)"
  by (simp add: exec_rv32fd_def exec_op_fp_def Let_def exec_inv_refl exec_load_fp_safe exec_store_fp_safe
      exec_op_fp_s_safe exec_op_fp_d_safe exec_madd_safe)

section \<open>CSRs\<close>

lemma csr_index [simp]: "n AND CSR_MASK < CSR_COUNT"
proof -
  have "CSR_MASK = mask 12" by (simp add: CSR_MASK_def CSR_COUNT_def mask_eq_exp_minus_1)
  then have "n AND CSR_MASK = take_bit 12 n" by (simp add: take_bit_eq_mask)
  then show ?thesis by (simp add: CSR_COUNT_def take_bit_eq_mod)
qed

lemma csr_access [exec_simps]:
  "csr_get f n = Some (f (unat n AND CSR_MASK))" "csr_set f n v = Some (f(unat n AND CSR_MASK := v))"
  by (simp_all add: csr_get_def csr_set_def)

section \<open>System calls\<close>

lemma sys_ok_post [simp]: "returns (sys_ok s') (exec_post s) = exec_inv s s'"
  by (simp add: sys_ok_def exec_post_def)

lemma sys_write_safe: "exec_inv s s' \<Longrightarrow> returns (sys_write E fd p n s') (exec_post s)"
  by (auto simp: sys_write_def exec_simps Let_def intro!: mem_wp [where ?s0.0 = s])

lemma length_scratch_after [simp]: "length (scratch_after n bs) = n"
  by (simp add: scratch_after_def)

lemma sys_brk_safe: "exec_inv s s' \<Longrightarrow> returns (sys_brk a s') (exec_post s)"
  by (auto simp: sys_brk_def exec_simps Let_def exec_inv_brk)

lemma sys_exit_safe: "exec_inv s s' \<Longrightarrow> returns (sys_exit a s') (exec_post s)"
  by (simp add: sys_exit_def exec_inv_exit)

context stdin_host
begin

text \<open>The slice that \<open>sys_read\<close> takes of its buffer is in range, by the contract of the host.\<close>

lemma sys_read_safe: "exec_inv s s' \<Longrightarrow> returns (sys_read E p n s') (exec_post s)"
proof -
  assume a: "exec_inv s s'"
  let ?count = "min (unat n) SYS_BUF_MAX"
  obtain k bs h where r: "read_from_stdin E (word_of_nat ?count) (host s') = ((k, bs), h)"
    by (metis surj_pair)
  have "?count < 2 ^ 32" by (simp add: SYS_BUF_MAX_def min_less_iff_disj)
  then have "unat (word_of_nat ?count :: u32) = ?count" by (simp add: unat_of_nat)
  with stdin_count [OF r] have "nat (sint k) \<le> ?count" by (metis nat_le_iff uint_nat)
  with a r show ?thesis
    by (auto simp: sys_read_def exec_simps Let_def slice_def intro!: mem_wp [where ?s0.0 = s])
qed

lemma handle_ecall_safe: "machine_ok s \<Longrightarrow> returns (handle_ecall E s) (exec_post s)"
proof -
  assume "machine_ok s"
  then have i: "exec_inv s s" "\<And>h. exec_inv s (s\<lparr>host := h\<rparr>)" by (simp_all add: exec_inv_refl)
  have b: "returns (builtin_syscall E a7 a0 a1 a2 a3 s') (exec_post s)"
    if "exec_inv s s'" "cpu s' = cpu s" "mem s' = mem s" for a7 a0 a1 a2 a3 s'
    using that sys_read_safe
    by (simp add: builtin_syscall_def sys_exit_safe sys_write_safe sys_brk_safe exec_simps)
       (simp add: exec_post_def)
  show ?thesis
    by (auto simp: handle_ecall_def exec_simps Let_def i b split: prod.splits)
qed

lemma exec_csr_safe:
  "machine_ok s \<Longrightarrow> regs_in_range d \<Longrightarrow> returns (exec_csr E d np s) (exec_post s)"
proof -
  assume a: "machine_ok s" "regs_in_range d"
  have e: "returns (handle_ecall E s \<bind> (\<lambda>(res, s).
      case res of Inl sys \<Rightarrow> err (UnknownSyscallError sys) s | Inr _ \<Rightarrow> ok np s)) (exec_post s)"
    using handle_ecall_safe [OF a(1)]
    by (auto elim!: returnsE simp: exec_post_def ok_def err_def split: sum.splits)
  show ?thesis
    using a e
    by (simp add: exec_csr_def exec_mret_def Let_def exec_simps exec_inv_refl exec_inv_halt)
qed

lemma keep_pc_safe: "returns r (exec_post s) \<Longrightarrow> returns (keep_pc np r) (exec_post s)"
  unfolding keep_pc_def by (rule and_then_post) simp_all

lemma dispatch32_safe:
  "machine_ok s \<Longrightarrow> regs_in_range d \<Longrightarrow> \<not> overflow_checks E \<Longrightarrow>
     returns (dispatch32 E d np s) (exec_post s)"
  by (simp add: dispatch32_def Let_def exec_inv_refl keep_pc_safe exec_rv32i_safe exec_rv32m_safe
      exec_rv32a_safe exec_rv32fd_safe exec_csr_safe)

end

section \<open>Compressed instructions\<close>

lemma creg_bounds [simp]: "creg inst k < 32" "creg inst k \<noteq> 0"
proof -
  have "unat (shift_then_mask inst k 0x7) < 8" by (simp add: width_simps)
  then have "creg inst k = unat (shift_then_mask inst k 0x7) + 8"
    by (simp add: creg_def unat_word_ariths)
  then show "creg inst k < 32" "creg inst k \<noteq> 0"
    using \<open>unat (shift_then_mask inst k 0x7) < 8\<close> by auto
qed

lemma c_reg_bounds [simp]: "c_rd inst < 32" "c_rs2 inst < 32"
  by (simp_all add: c_rd_def c_rs2_def width_simps)

lemma c_mem_safe:
  assumes "machine_ok s" "r < 32" "b < 32"
  shows "returns (c_fld E r b off np s) (exec_post s)" "returns (c_lw E r b off np s) (exec_post s)"
    "returns (c_flw E r b off np s) (exec_post s)" "returns (c_fsd E r b off np s) (exec_post s)"
    "returns (c_sw E r b off np s) (exec_post s)" "returns (c_fsw E r b off np s) (exec_post s)"
  using assms
  by (auto simp: c_fld_def c_lw_def c_flw_def c_fsd_def c_sw_def c_fsw_def exec_simps exec_inv_refl Let_def
      intro!: mem_wp [where ?s0.0 = s])

lemma exec_q0_safe: "machine_ok s \<Longrightarrow> returns (exec_q0 E inst f3 np s) (exec_post s)"
  by (simp add: exec_q0_def Let_def exec_simps exec_inv_refl c_mem_safe)

lemma exec_q1_safe: "machine_ok s \<Longrightarrow> returns (exec_q1 inst f3 np s) (exec_post s)"
  by (simp add: exec_q1_def c_addi_def c_lui_addi16sp_def c_misc_alu_def Let_def exec_simps exec_inv_refl)

lemma exec_q2_safe: "machine_ok s \<Longrightarrow> returns (exec_q2 E inst f3 np s) (exec_post s)"
  by (simp add: exec_q2_def c_slli_def c_jr_mv_add_def Let_def exec_simps exec_inv_refl exec_inv_halt c_mem_safe)

lemma dispatch16_safe: "machine_ok s \<Longrightarrow> returns (dispatch16 E inst np s) (exec_post s)"
  by (simp add: dispatch16_def Let_def exec_inv_refl exec_q0_safe exec_q1_safe exec_q2_safe)

section \<open>Whole instructions\<close>

text \<open>The postcondition of an executed instruction: as \<open>exec_post\<close>, with the program counter moved.\<close>

definition inst_post :: "'h machine \<Rightarrow> (cpu_error + unit) \<times> 'h machine \<Rightarrow> bool" where
  "inst_post s = (\<lambda>(res, s'). machine_ok s' \<and> ctrl_of (cpu s') = ctrl_of (cpu s)
     \<and> initial_brk (mem s') = initial_brk (mem s) \<and> (is_halted (cpu s) \<longrightarrow> is_halted (cpu s'))
     \<and> (isl res \<longrightarrow> cpu s' = cpu s \<and> mem s' = mem s))"

lemma and_then_set_pc:
  assumes "returns r (exec_post s)"
  shows "returns (and_then r set_pc) (inst_post s)"
proof -
  obtain res s' where r: "r = Some (res, s')" "exec_post s (res, s')"
    using assms by (auto elim!: returnsE)
  then show ?thesis
    by (cases res)
       (auto simp: and_then_def set_pc_def ok_def exec_post_def inst_post_def exec_inv_def machine_ok_def ctrl_of_def)
qed

lemma execute_inst16_safe: "machine_ok s \<Longrightarrow> returns (execute_inst16 E inst s) (inst_post s)"
  unfolding execute_inst16_def by (intro and_then_set_pc dispatch16_safe)

context stdin_host
begin

lemma execute_inst32_safe:
  "machine_ok s \<Longrightarrow> \<not> overflow_checks E \<Longrightarrow> returns (execute_inst32 E raw s) (inst_post s)"
  unfolding execute_inst32_def by (intro and_then_set_pc dispatch32_safe) simp_all

end

end
