(* ===== verification/Safe_Run.thy ===== *)
theory Safe_Run
  imports Run Safe_Exec
begin

text \<open>
  Safety and meaning of the execution loops. A step and a slice never panic and keep \<open>machine_ok\<close>; the
  outcome of a slice describes the machine it leaves; the step counter grows by exactly the reported
  number of steps.
\<close>

section \<open>Fetch and execute\<close>

text \<open>The configuration that no run changes.\<close>

definition conf_of :: "cpu \<Rightarrow> u32 \<times> bool \<times> u32 set \<times> bool" where
  "conf_of c = (fcsr c, debug_enabled c, breakpoints c, has_custom_syscalls c)"

lemma ctrl_conf: "ctrl_of c' = ctrl_of c \<Longrightarrow> conf_of c' = conf_of c"
  by (simp add: ctrl_of_def conf_of_def)

lemma machine_ok_host [simp]: "machine_ok (s\<lparr>host := h\<rparr>) = machine_ok s"
  by (simp add: machine_ok_def)

lemma inst_post_host [simp]: "inst_post (s\<lparr>host := h\<rparr>) = inst_post s"
  by (simp add: inst_post_def fun_eq_iff)

context stdin_host
begin

lemma fetch_execute_safe:
  assumes "machine_ok s" "\<not> overflow_checks E"
  shows "returns (fetch_execute E s) (\<lambda>((c, res), s'). inst_post s (res, s'))"
proof -
  have e: "returns (execute_inst16 E i (s\<lparr>host := h\<rparr>)) (inst_post s)"
    "returns (execute_inst32 E w (s\<lparr>host := h\<rparr>)) (inst_post s)" for i w h
    using execute_inst16_safe [of "s\<lparr>host := h\<rparr>" E i] execute_inst32_safe [of "s\<lparr>host := h\<rparr>" w] assms
    by simp_all
  have i: "exec_inv s s" using assms(1) by (rule exec_inv_refl)
  have p: "returns (r \<bind> (\<lambda>(res, s). Some ((c, res), s))) (\<lambda>((c, res), s'). inst_post s (res, s'))"
    if "returns r (inst_post s)" for r c
    using that by (auto elim!: returnsE)
  have w: "returns ((if wide then Some (window, s\<lparr>host := h\<rparr>) else mem_read_u32 E a (s\<lparr>host := h\<rparr>)) \<bind>
      (\<lambda>(w, s). execute_inst32 E w s \<bind> (\<lambda>(res, s). Some ((False, res), s))))
      (\<lambda>((c, res), s'). inst_post s (res, s'))" for wide window a h
    unfolding returns_bind [of "if wide then _ else _"]
    using i by (auto simp: p e simp del: returns_bind intro!: mem_wp [where ?s0.0 = s])
  show ?thesis
    unfolding fetch_execute_def Let_def returns_bind [of "mem_fetch_window _ _ _"]
    by (rule mem_wp(4) [OF i]) (auto simp: p e w simp del: returns_bind)
qed

end

lemma stop_trapped_ok [simp]: "machine_ok (stop_trapped s) = machine_ok s"
  by (simp add: machine_ok_def stop_trapped_def)

lemma report_simps [simp]:
  "cpu (step_report E e s) = cpu s" "mem (step_report E e s) = mem s"
  "cpu (slice_report E c p e s) = cpu s" "mem (slice_report E c p e s) = mem s"
  by (simp_all add: step_report_def slice_report_def print_err_def notify_unknown_def Let_def
      split: cpu_error.splits)

lemma report_ok [simp]:
  "machine_ok (step_report E e s) = machine_ok s" "machine_ok (slice_report E c p e s) = machine_ok s"
  by (simp_all add: machine_ok_def)

lemma machine_ok_cpu_fields [simp]:
  "machine_ok (s\<lparr>cpu := (cpu s)\<lparr>step_counter := n\<rparr>\<rparr>) = machine_ok s"
  "machine_ok (s\<lparr>cpu := (cpu s)\<lparr>resume_past_breakpoint := r\<rparr>\<rparr>) = machine_ok s"
  "machine_ok (s\<lparr>cpu := (cpu s)\<lparr>is_halted := b\<rparr>\<rparr>) = machine_ok s"
  by (simp_all add: machine_ok_def)

section \<open>One iteration\<close>

text \<open>What a status says of the machine; \<open>trap_ok\<close> is the state after a trap.\<close>

fun status_ok :: "slice_status \<Rightarrow> 'h machine \<Rightarrow> bool" where
  "status_ok Running s = (\<not> is_halted (cpu s))"
| "status_ok Halted s = is_halted (cpu s)"
| "status_ok Trapped s =
     (is_halted (cpu s) \<and> trapped (cpu s) \<and> exit_code (cpu s) = TRAP_EXIT_CODE)"
| "status_ok Breakpoint s =
     (\<not> is_halted (cpu s) \<and> debug_enabled (cpu s) \<and> pc (cpu s) \<in> breakpoints (cpu s)
      \<and> resume_past_breakpoint (cpu s) = Some (pc (cpu s)))"

text \<open>The part of the state that relates a machine in a slice to the machine \<open>n\<close> instructions earlier.\<close>

definition after_steps :: "'h machine \<Rightarrow> u64 \<Rightarrow> 'h machine \<Rightarrow> bool" where
  "after_steps s n s' \<longleftrightarrow> machine_ok s' \<and> conf_of (cpu s') = conf_of (cpu s)
     \<and> initial_brk (mem s') = initial_brk (mem s) \<and> step_counter (cpu s') = step_counter (cpu s) + n"

lemma after_steps_0: "machine_ok s \<Longrightarrow> after_steps s 0 s"
  by (simp add: after_steps_def)

lemma after_steps_trans: "after_steps s m s' \<Longrightarrow> after_steps s' n s'' \<Longrightarrow> after_steps s (m + n) s''"
  by (simp add: after_steps_def)

definition iter_post :: "bool \<Rightarrow> 'h machine \<Rightarrow> slice_status option \<times> u32 option \<times> 'h machine \<Rightarrow> bool" where
  "iter_post w s = (\<lambda>(stopped, sk, s').
     case stopped of
       None \<Rightarrow> after_steps s 1 s' \<and> trapped (cpu s') = trapped (cpu s)
         \<and> resume_past_breakpoint (cpu s') = resume_past_breakpoint (cpu s)
     | Some st \<Rightarrow> after_steps s 0 s' \<and> st \<noteq> Running \<and> status_ok st s'
         \<and> (st = Breakpoint \<longrightarrow> w))"

context stdin_host
begin

lemma slice_iter_safe:
  assumes "machine_ok s" "\<not> overflow_checks E" "w \<Longrightarrow> debug_enabled (cpu s)"
  shows "returns (slice_iter E w sk s) (iter_post w s)"
proof -
  have f: "returns (fetch_execute E s \<bind> (\<lambda>((c, res), s').
      case res of Inl e \<Rightarrow> Some (Some Trapped, sk', stop_trapped (slice_report E c p e s'))
        | Inr _ \<Rightarrow> do { s \<leftarrow> count_step E s'; Some (None, sk', s) })) (iter_post w s)" for sk' p
    by (simp, rule returns_mono [OF fetch_execute_safe [OF assms(1,2)]])
       (auto simp: iter_post_def inst_post_def after_steps_def count_step_def stop_trapped_def conf_of_def
         ctrl_of_def machine_ok_def assms(2) split: sum.splits)
  show ?thesis
    using assms f by (auto simp: slice_iter_def Let_def iter_post_def after_steps_def conf_of_def
        simp del: returns_bind)
qed

lemma slice_chunk_safe:
  assumes "\<not> overflow_checks E"
  shows "after_steps s0 n s \<Longrightarrow> n \<le> chunk \<Longrightarrow> (w \<Longrightarrow> debug_enabled (cpu s0)) \<Longrightarrow>
    returns (slice_chunk E w chunk n sk s) (\<lambda>(n', stopped, sk', s'). after_steps s0 n' s' \<and> n' \<le> chunk \<and>
      (case stopped of None \<Rightarrow> n' = chunk
       | Some st \<Rightarrow> st \<noteq> Running \<and> status_ok st s' \<and> (st = Breakpoint \<longrightarrow> w)))"
proof (induction "unat chunk - unat n" arbitrary: n sk s rule: less_induct)
  case less
  show ?case
  proof (cases "n < chunk")
    case False
    with less.prems show ?thesis by (subst slice_chunk.simps) simp
  next
    case True
    have m: "unat chunk - unat (n + 1) < unat chunk - unat n" "n + 1 \<le> chunk"
      using True by (simp_all add: unat_plus_1 inc_le, simp add: word_less_nat_alt)
    have ok: "machine_ok s" "w \<Longrightarrow> debug_enabled (cpu s)"
      using less.prems by (auto simp: after_steps_def conf_of_def)
    obtain st sk' s1 where i: "slice_iter E w sk s = Some (st, sk', s1)" "iter_post w s (st, sk', s1)"
      using slice_iter_safe [OF ok(1) assms ok(2), of w sk] by (auto elim!: returnsE)
    show ?thesis
    proof (cases st)
      case None
      with i have "after_steps s0 (n + 1) s1"
        using after_steps_trans [OF less.prems(1)] by (simp add: iter_post_def)
      from less.hyps [OF m(1) this m(2) less.prems(3)] show ?thesis
        using True i None by (subst slice_chunk.simps) simp
    next
      case (Some st')
      with i have "after_steps s0 n s1"
        using after_steps_trans [OF less.prems(1), of 0 s1] by (simp add: iter_post_def)
      then show ?thesis
        using True i Some less.prems by (subst slice_chunk.simps) (simp add: iter_post_def)
    qed
  qed
qed

end

section \<open>Interrupts\<close>

lemma csr_indices [simp]:
  "unat MSTATUS AND CSR_MASK = 0x300" "unat MEPC AND CSR_MASK = 0x341"
  "unat MCAUSE AND CSR_MASK = 0x342" "unat MTVEC AND CSR_MASK = 0x305"
  by (simp_all add: MSTATUS_def MEPC_def MCAUSE_def MTVEC_def CSR_MASK_def CSR_COUNT_def)

text \<open>\<open>mstatus\<close> after an interrupt is taken: MIE is saved in MPIE and cleared.\<close>

definition trap_mstatus :: "u32 \<Rightarrow> u32" where
  "trap_mstatus mstatus =
     (if mstatus AND MSTATUS_MIE \<noteq> 0 then mstatus AND NOT (MSTATUS_MIE OR MSTATUS_MPIE) OR MSTATUS_MPIE
      else mstatus AND NOT (MSTATUS_MIE OR MSTATUS_MPIE))"

lemma handle_interrupt_eq:
  "handle_interrupt c irq =
     Some (c\<lparr>csrs := (csrs c)(0x341 := pc c, 0x342 := 0x80000000 OR irq, 0x300 := trap_mstatus (csrs c 0x300)),
       pc := (if csrs c 0x305 \<noteq> 0 then csrs c 0x305 else pc c)\<rparr>)"
  by (simp add: handle_interrupt_def exec_simps Let_def trap_mstatus_def)

lemma poll_interrupt_safe:
  assumes "machine_ok s"
  shows "returns (poll_interrupt E s) (\<lambda>(d, s'). after_steps s 0 s' \<and> 0 < d)"
proof -
  have "returns (poll_interrupt E s) (\<lambda>(d, s'). after_steps s 0 s')"
    using assms
    by (auto simp: poll_interrupt_def Let_def interrupts_enabled_def exec_simps after_steps_def machine_ok_def
        conf_of_def handle_interrupt_eq split: prod.splits)
  then show ?thesis by (auto elim!: returnsE dest: poll_interrupt_pos)
qed

context stdin_host
begin

lemma slice_loop_safe:
  assumes "\<not> overflow_checks E"
  shows "after_steps s0 n s \<Longrightarrow> n \<le> budget \<Longrightarrow> (w \<Longrightarrow> debug_enabled (cpu s0)) \<Longrightarrow>
    returns (slice_loop E w budget n sk s) (\<lambda>((st, n'), s'). after_steps s0 n' s' \<and> n' \<le> budget
      \<and> status_ok st s' \<and> (st = Running \<longrightarrow> n' = budget) \<and> (st = Breakpoint \<longrightarrow> w))"
proof (induction "unat budget - unat n" arbitrary: n sk s rule: less_induct)
  case less
  show ?case
  proof (cases "is_halted (cpu s) \<or> budget \<le> n")
    case True
    with less.prems show ?thesis by (subst slice_loop.simps) auto
  next
    case False
    then have lt: "n < budget" using not_less by blast
    have ok: "machine_ok s" using less.prems by (simp add: after_steps_def)
    obtain d s1 where p: "poll_interrupt E s = Some (d, s1)" "after_steps s 0 s1" "0 < d"
      using poll_interrupt_safe [OF ok, of E] by (auto elim!: returnsE)
    let ?chunk = "min d (budget - n)"
    have ok1: "after_steps s1 0 s1" "w \<Longrightarrow> debug_enabled (cpu s1)" "after_steps s0 n s1"
      using p(2) less.prems after_steps_trans [OF less.prems(1) p(2)]
      by (auto simp: after_steps_def conf_of_def)
    obtain k st sk' s2 where c: "slice_chunk E w ?chunk 0 sk s1 = Some (k, st, sk', s2)"
      "after_steps s1 k s2" "k \<le> ?chunk" "case st of None \<Rightarrow> k = ?chunk
        | Some st \<Rightarrow> st \<noteq> Running \<and> status_ok st s2 \<and> (st = Breakpoint \<longrightarrow> w)"
      using slice_chunk_safe [OF assms ok1(1) _ ok1(2), of ?chunk w sk] by (auto elim!: returnsE)
    note g = chunk_progress [OF lt p(3)]
    have k: "n + k \<le> budget"
      using c(3) g(2) lt by (metis add.commute le_plus min.bounded_iff order_less_imp_le)
    have a: "after_steps s0 (n + k) s2" by (rule after_steps_trans [OF ok1(3) c(2)])
    show ?thesis
    proof (cases st)
      case None
      with c g have "unat budget - unat (n + k) < unat budget - unat n" by auto
      from less.hyps [OF this a k less.prems(3)] show ?thesis
        using False p c None by (subst slice_loop.simps) simp
    next
      case (Some st')
      then show ?thesis
        using False p c a k less.prems by (subst slice_loop.simps) auto
    qed
  qed
qed

end

section \<open>A slice\<close>

definition slice_post :: "u32 \<Rightarrow> 'h machine \<Rightarrow> slice_outcome \<times> 'h machine \<Rightarrow> bool" where
  "slice_post budget s = (\<lambda>(out, s'). after_steps s (so_steps out) s' \<and> so_steps out \<le> ucast budget
     \<and> status_ok (so_status out) s' \<and> (so_status out = Running \<longrightarrow> so_steps out = ucast budget)
     \<and> so_pc out = pc (cpu s') \<and> so_exit_code out = exit_code (cpu s'))"

section \<open>A single step\<close>

fun step_ok :: "step_result \<Rightarrow> 'h machine \<Rightarrow> 'h machine \<Rightarrow> bool" where
  "step_ok StepOk s s' = (after_steps s 1 s' \<and> \<not> is_halted (cpu s'))"
| "step_ok (BreakpointHit p) s s' =
     (p = pc (cpu s) \<and> debug_enabled (cpu s) \<and> p \<in> breakpoints (cpu s)
      \<and> resume_past_breakpoint (cpu s) \<noteq> Some p
      \<and> s' = s\<lparr>cpu := (cpu s)\<lparr>resume_past_breakpoint := Some p\<rparr>\<rparr>)"
| "step_ok (StepHalted n) s s' =
     (is_halted (cpu s') \<and> exit_code (cpu s') = n \<and>
      after_steps s (if is_halted (cpu s) then 0 else 1) s')"
| "step_ok (Trap p) s s' = (after_steps s 1 s' \<and> status_ok Trapped s' \<and> p = pc (cpu s) \<and> p = pc (cpu s'))"

context stdin_host
begin

lemma run_slice_safe:
  assumes "machine_ok s" "\<not> overflow_checks E"
  shows "returns (run_slice E budget s) (slice_post budget s)"
proof -
  let ?s = "s\<lparr>cpu := (cpu s)\<lparr>resume_past_breakpoint := None\<rparr>\<rparr>"
  let ?w = "debug_enabled (cpu s) \<and> breakpoints (cpu s) \<noteq> {}"
  have "after_steps s 0 ?s"
    using assms(1) by (simp add: after_steps_def conf_of_def)
  from slice_loop_safe [OF assms(2) this, of "ucast budget" ?w "resume_past_breakpoint (cpu s)"]
  show ?thesis
    by (auto simp: run_slice_def Let_def slice_post_def elim!: returnsE)
qed

lemma step_instruction_safe:
  assumes "machine_ok s" "\<not> overflow_checks E"
  shows "returns (step_instruction E s) (\<lambda>(r, s'). step_ok r s s')"
proof -
  let ?s = "s\<lparr>cpu := (cpu s)\<lparr>resume_past_breakpoint := None\<rparr>\<rparr>"
  have ok: "machine_ok ?s" using assms(1) by simp
  have f: "returns (fetch_execute E ?s \<bind> (\<lambda>((c, res), s'). count_step E s' \<bind> (\<lambda>s'.
      case res of Inl e \<Rightarrow> Some (Trap (pc (cpu s\<lparr>resume_past_breakpoint := None\<rparr>)), stop_trapped (step_report E e s'))
        | Inr _ \<Rightarrow> if is_halted (cpu s') then Some (StepHalted (exit_code (cpu s')), s') else Some (StepOk, s'))))
      (\<lambda>(r, s'). step_ok r s s')" if "\<not> is_halted (cpu s)"
    using that
    by (simp, intro returns_mono [OF fetch_execute_safe [OF ok assms(2)]])
       (auto simp: inst_post_def after_steps_def count_step_def stop_trapped_def conf_of_def ctrl_of_def
         machine_ok_def assms(2) split: sum.splits)
  show ?thesis
    using assms f by (auto simp: step_instruction_def Let_def after_steps_def conf_of_def simp del: returns_bind)
qed

end

end
