(* ===== verification/Slices.thy ===== *)
theory Slices
  imports Safe_Run
begin

text \<open>
  What slicing means. \<open>exec_n\<close> is the reference semantics of a run: at most \<open>n\<close> iterations of the
  fetch-execute cycle, with no slices, chunks or polls. On a host that delivers no interrupts, a slice is
  \<open>exec_n\<close>; so two consecutive slices are one slice with the sum of the budgets, and \<open>run\<close> returns whenever
  the guest stops after finitely many instructions.
\<close>

section \<open>The reference semantics\<close>

fun exec_n :: "'h env \<Rightarrow> bool \<Rightarrow> nat \<Rightarrow> u32 option \<Rightarrow> 'h machine
    \<Rightarrow> (nat \<times> slice_status option \<times> u32 option \<times> 'h machine) option" where
  "exec_n E w 0 sk s = Some (0, None, sk, s)"
| "exec_n E w (Suc n) sk s = do {
     (st, sk, s) \<leftarrow> slice_iter E w sk s;
     case st of
       Some st \<Rightarrow> Some (0, Some st, sk, s)
     | None \<Rightarrow> do { (k, st, sk, s) \<leftarrow> exec_n E w n sk s; Some (Suc k, st, sk, s) }
   }"

lemma exec_n_add:
  "exec_n E w (a + b) sk s = do {
     (k, st, sk, s) \<leftarrow> exec_n E w a sk s;
     case st of
       Some st \<Rightarrow> Some (k, Some st, sk, s)
     | None \<Rightarrow> do { (k', st, sk, s) \<leftarrow> exec_n E w b sk s; Some (k + k', st, sk, s) }
   }"
  by (induction a arbitrary: sk s) (auto split: Option.bind_split option.splits)

lemma exec_n_count:
  "exec_n E w n sk s = Some (k, st, sk', s') \<Longrightarrow> k \<le> n \<and> (st = None \<longrightarrow> k = n)"
  by (induction n arbitrary: k sk s) (fastforce split: Option.bind_split_asm option.splits)+

text \<open>Once stopped, more fuel changes nothing.\<close>

lemma exec_n_stopped:
  "exec_n E w n sk s = Some (k, Some st, sk', s') \<Longrightarrow> n \<le> m \<Longrightarrow>
     exec_n E w m sk s = Some (k, Some st, sk', s')"
  using exec_n_add [of E w n "m - n" sk s] by simp

section \<open>A chunk is a reference run\<close>

lemma slice_chunk_exec_n:
  "n \<le> chunk \<Longrightarrow> slice_chunk E w chunk n sk s =
     map_option (\<lambda>(k, r). (n + word_of_nat k, r)) (exec_n E w (unat chunk - unat n) sk s)"
proof (induction "unat chunk - unat n" arbitrary: n sk s)
  case 0
  then have "n = chunk" by (simp add: word_le_nat_alt word_unat_eq_iff)
  then show ?case by (subst slice_chunk.simps) simp
next
  case (Suc m)
  then have lt: "n < chunk" by (simp add: word_less_nat_alt)
  have m: "m = unat chunk - unat (n + 1)" "n + 1 \<le> chunk"
    using Suc.hyps(2) lt by (simp_all add: unat_plus_1 [OF lt] inc_le)
  show ?case
    unfolding Suc.hyps(2) [symmetric]
    using lt Suc.hyps(1) [OF m] m(1)
    by (subst slice_chunk.simps)
       (auto split: Option.bind_split option.splits simp: option.map_comp o_def ac_simps)
qed

section \<open>A slice on a quiet host\<close>

definition final_status :: "slice_status option \<Rightarrow> 'h machine \<Rightarrow> slice_status" where
  "final_status st s =
     (case st of Some st \<Rightarrow> st | None \<Rightarrow> if is_halted (cpu s) then Halted else Running)"

lemma slice_iter_halted: "is_halted (cpu s) \<Longrightarrow> slice_iter E w sk s = Some (Some Halted, sk, s)"
  by (simp add: slice_iter_def)

context quiet_host
begin

lemma poll_quiet: "\<exists>d. poll_interrupt E s = Some (d, s)"
  using quiet_delay [of "host s"]
  by (cases "js_get_int_inst_delay E (host s)") (simp add: poll_interrupt_def Let_def quiet_enabled)

lemma slice_loop_exec_n:
  "n \<le> budget \<Longrightarrow> slice_loop E w budget n sk s =
     map_option (\<lambda>(k, st, sk, s). ((final_status st s, n + word_of_nat k), s))
       (exec_n E w (unat budget - unat n) sk s)"
proof (induction "unat budget - unat n" arbitrary: n sk s rule: less_induct)
  case less
  show ?case
  proof (cases "is_halted (cpu s) \<or> budget \<le> n")
    case True
    then show ?thesis
      using less.prems
      by (cases "unat budget - unat n")
         (auto simp: slice_loop.simps [of E w budget n] final_status_def slice_iter_halted word_le_nat_alt)
  next
    case False
    then have lt: "n < budget" using not_less by blast
    obtain d where d: "poll_interrupt E s = Some (d, s)" using poll_quiet by blast
    note g = chunk_progress [OF lt poll_interrupt_pos [OF d]]
    let ?c = "min d (budget - n)"
    have c: "unat (n + ?c) = unat n + unat ?c"
      using g lt by (metis add_diff_cancel_left' le_add_diff_inverse less_imp_le unat_sub word_le_nat_alt
          add.commute)
    have split: "unat budget - unat n = unat ?c + (unat budget - unat (n + ?c))"
      using g c by simp
    have IH: "slice_loop E w budget (n + ?c) sk' s' =
        map_option (\<lambda>(k, st, sk, s). ((final_status st s, n + ?c + word_of_nat k), s))
          (exec_n E w (unat budget - unat (n + ?c)) sk' s')" for sk' s'
      by (rule less.hyps) (use g lt in \<open>auto simp: word_le_nat_alt word_less_nat_alt\<close>)
    have k: "word_of_nat k = ?c" if "exec_n E w (unat ?c) sk s = Some (k, None, sk', s')" for k sk' s'
      using exec_n_count [OF that] by simp
    have "slice_loop E w budget n sk s = do {
        (k, st, sk, s) \<leftarrow> exec_n E w (unat ?c) sk s;
        case st of Some st \<Rightarrow> Some ((st, n + word_of_nat k), s)
          | None \<Rightarrow> slice_loop E w budget (n + word_of_nat k) sk s }"
      using False lt d slice_chunk_exec_n [of 0 ?c E w sk s]
      by (subst slice_loop.simps) (auto simp: Let_def split: Option.bind_split option.splits)
    also have "\<dots> = map_option (\<lambda>(k, st, sk, s). ((final_status st s, n + word_of_nat k), s))
       (exec_n E w (unat budget - unat n) sk s)"
      unfolding split exec_n_add
      by (auto simp: IH k final_status_def ac_simps split: Option.bind_split option.splits dest: k)
    finally show ?thesis .
  qed
qed

lemma unat_u32_u64: "unat (ucast (w :: u32) :: u64) = unat w"
  by (simp add: unsigned_ucast_eq take_bit_nat_eq_self_iff less_trans [OF unsigned_less])

lemma run_slice_exec_n:
  "run_slice E budget s = map_option
     (\<lambda>(k, st, sk, s'). (\<lparr>so_status = final_status st s', so_steps = word_of_nat k, so_pc = pc (cpu s'),
        so_exit_code = exit_code (cpu s')\<rparr>, s'))
     (exec_n E (debug_enabled (cpu s) \<and> breakpoints (cpu s) \<noteq> {}) (unat budget)
        (resume_past_breakpoint (cpu s)) (s\<lparr>cpu := (cpu s)\<lparr>resume_past_breakpoint := None\<rparr>\<rparr>))"
  by (simp add: run_slice_def Let_def slice_loop_exec_n unat_u32_u64
      split: Option.bind_split option.splits)
     (auto split: Option.bind_split option.splits)

end

section \<open>Breakpoints to skip\<close>

lemma slice_iter_unwatched:
  "slice_iter E False sk s = map_option (\<lambda>(st, _, s). (st, sk, s)) (slice_iter E False None s)"
  by (auto simp: slice_iter_def Let_def split: Option.bind_split option.splits sum.splits)

lemma exec_n_unwatched:
  "exec_n E False n sk s = map_option (\<lambda>(k, st, _, s). (k, st, sk, s)) (exec_n E False n None s)"
proof (induction n arbitrary: s)
  case (Suc n)
  have sk: "sk' = None" if "slice_iter E False None s = Some (st, sk', s')" for st sk' s'
    using that slice_iter_unwatched [of E None s] by (cases "slice_iter E False None s") auto
  show ?case
    by (subst (1 2) exec_n.simps, subst slice_iter_unwatched)
       (auto simp: Suc.IH [of s for s] dest: sk split: Option.bind_split option.splits)
qed simp

lemma slice_iter_skip: "slice_iter E True sk s = Some (None, sk', s') \<Longrightarrow> sk' = None"
  by (auto simp: slice_iter_def Let_def split: if_splits Option.bind_split_asm sum.splits)

lemma exec_n_skip: "exec_n E True n sk s = Some (k, None, sk', s') \<Longrightarrow> 0 < n \<Longrightarrow> sk' = None"
proof (induction n arbitrary: sk s k)
  case (Suc n)
  then show ?case
    by (cases "n = 0") (auto dest: slice_iter_skip split: Option.bind_split_asm option.splits)
qed simp

text \<open>The breakpoint to skip matters only at the start of a run.\<close>

lemma exec_n_resume:
  assumes "exec_n E w a sk s = Some (k, None, sk', s')" "0 < a"
  shows "map_option (\<lambda>(k, st, _, s). (k, st, s)) (exec_n E w b sk' s')
    = map_option (\<lambda>(k, st, _, s). (k, st, s)) (exec_n E w b None s')"
proof (cases w)
  case True
  with assms have "sk' = None" by (auto dest: exec_n_skip)
  then show ?thesis by simp
next
  case False
  then have "w = False" by simp
  then show ?thesis
    by (simp only:) (subst exec_n_unwatched, simp add: option.map_comp o_def split_def)
qed

section \<open>Slices on a host that honours both contracts\<close>

locale calm_host = stdin_host + quiet_host
begin

lemma exec_n_safe:
  assumes "\<not> overflow_checks E"
  shows "machine_ok s \<Longrightarrow> (w \<Longrightarrow> debug_enabled (cpu s)) \<Longrightarrow>
    returns (exec_n E w n sk s) (\<lambda>(k, st, sk', s'). after_steps s (word_of_nat k) s' \<and>
      (case st of None \<Rightarrow> resume_past_breakpoint (cpu s') = resume_past_breakpoint (cpu s)
       | Some st \<Rightarrow> st \<noteq> Running \<and> status_ok st s' \<and> (st = Breakpoint \<longrightarrow> w)))"
proof (induction n arbitrary: sk s)
  case 0
  then show ?case by (simp add: after_steps_0)
next
  case (Suc n)
  obtain st sk1 s1 where i: "slice_iter E w sk s = Some (st, sk1, s1)" "iter_post w s (st, sk1, s1)"
    using slice_iter_safe [OF Suc.prems(1) assms Suc.prems(2), of w sk] by (auto elim!: returnsE)
  show ?case
  proof (cases st)
    case (Some st')
    with i show ?thesis by (simp add: iter_post_def)
  next
    case None
    with i have a: "after_steps s 1 s1" "resume_past_breakpoint (cpu s1) = resume_past_breakpoint (cpu s)"
      by (simp_all add: iter_post_def)
    then have "machine_ok s1" "w \<Longrightarrow> debug_enabled (cpu s1)"
      using Suc.prems by (auto simp: after_steps_def conf_of_def)
    from Suc.IH [OF this, of sk1] show ?thesis
      using i None a after_steps_trans [OF a(1)]
      by (auto elim!: returnsE split: option.splits)
  qed
qed

lemma run_slice_add:
  assumes ok: "machine_ok s" "\<not> overflow_checks E"
    and one: "run_slice E a s = Some (out1, s1)" "so_status out1 = Running" "a \<noteq> 0"
    and two: "run_slice E b s1 = Some (out2, s2)" and sum: "unat a + unat b < 2 ^ 32"
  shows "run_slice E (a + b) s = Some (out2\<lparr>so_steps := so_steps out1 + so_steps out2\<rparr>, s2)"
proof -
  let ?w = "\<lambda>s. debug_enabled (cpu s) \<and> breakpoints (cpu s) \<noteq> {}"
  let ?s = "s\<lparr>cpu := (cpu s)\<lparr>resume_past_breakpoint := None\<rparr>\<rparr>"
  let ?sk = "resume_past_breakpoint (cpu s)"
  have ok': "machine_ok ?s" using ok by simp
  obtain k st sk where e1: "exec_n E (?w s) (unat a) ?sk ?s = Some (k, st, sk, s1)"
      "out1 = \<lparr>so_status = final_status st s1, so_steps = word_of_nat k, so_pc = pc (cpu s1),
        so_exit_code = exit_code (cpu s1)\<rparr>"
    using one(1) unfolding run_slice_exec_n by auto
  have f1: "after_steps ?s (word_of_nat k) s1" "case st of None \<Rightarrow> resume_past_breakpoint (cpu s1) = None
       | Some st \<Rightarrow> st \<noteq> Running"
    using exec_n_safe [OF ok(2) ok', of "?w s" "unat a" ?sk] e1(1) by (auto split: option.splits)
  with one(2) e1(2) have st: "st = None" "resume_past_breakpoint (cpu s1) = None"
    by (auto simp: final_status_def split: option.splits)
  have w: "?w s1 = ?w s" using f1(1) by (simp add: after_steps_def conf_of_def)
  have s1: "s1\<lparr>cpu := (cpu s1)\<lparr>resume_past_breakpoint := None\<rparr>\<rparr> = s1"
    using st(2) by simp
  have "0 < unat a" using one(3) by (simp add: unat_gt_0)
  note r = exec_n_resume [OF e1(1) [unfolded st] this, of "unat b"]
  obtain k2 st2 sk2 where e2: "exec_n E (?w s) (unat b) None s1 = Some (k2, st2, sk2, s2)"
      "out2 = \<lparr>so_status = final_status st2 s2, so_steps = word_of_nat k2, so_pc = pc (cpu s2),
        so_exit_code = exit_code (cpu s2)\<rparr>"
    using two unfolding run_slice_exec_n w s1 st(2) by auto
  then obtain sk3 where e3: "exec_n E (?w s) (unat b) sk s1 = Some (k2, st2, sk3, s2)"
    using r by auto
  have "unat (a + b) = unat a + unat b" using sum by (simp add: unat_word_ariths)
  then show ?thesis
    using e1 e2 e3 st by (simp add: run_slice_exec_n exec_n_add)
qed

text \<open>
  A guest that stops after some number of instructions stops in the next slice, or that slice uses up its budget
  and leaves a machine that stops sooner.
\<close>

lemma slice_towards_stop:
  fixes s :: "'a machine"
  defines "w \<equiv> debug_enabled (cpu s) \<and> breakpoints (cpu s) \<noteq> {}"
    and "t \<equiv> s\<lparr>cpu := (cpu s)\<lparr>resume_past_breakpoint := None\<rparr>\<rparr>"
  assumes ok: "machine_ok s" "\<not> overflow_checks E"
    and stop: "exec_n E w n (resume_past_breakpoint (cpu s)) t = Some (k, Some st, sk', s')"
  obtains (stopped) out where "run_slice E u32_max s = Some (out, s')" "so_status out = st" "so_pc out = pc (cpu s')"
      "st \<noteq> Running" "status_ok st s'" "st = Breakpoint \<Longrightarrow> w"
  | (running) out s1 n' k' sk'' where "run_slice E u32_max s = Some (out, s1)" "so_status out = Running" "n' < n"
      "machine_ok s1" "conf_of (cpu s1) = conf_of (cpu s)" "resume_past_breakpoint (cpu s1) = None"
      "exec_n E w n' None s1 = Some (k', Some st, sk'', s')"
proof -
  let ?B = "unat u32_max" and ?sk = "resume_past_breakpoint (cpu s)"
  have ok': "machine_ok t" "w \<Longrightarrow> debug_enabled (cpu t)" using ok(1) by (simp_all add: t_def w_def)
  obtain k1 st1 sk1 s1 where e: "exec_n E w ?B ?sk t = Some (k1, st1, sk1, s1)"
      "after_steps t (word_of_nat k1) s1" "case st1 of None \<Rightarrow> resume_past_breakpoint (cpu s1) = None
        | Some st \<Rightarrow> st \<noteq> Running \<and> status_ok st s1 \<and> (st = Breakpoint \<longrightarrow> w)"
    using exec_n_safe [OF ok(2) ok', of w ?B ?sk] by (auto simp: t_def elim!: returnsE split: option.splits)
  have s1: "machine_ok s1" "conf_of (cpu s1) = conf_of (cpu s)" using e(2) by (simp_all add: after_steps_def conf_of_def t_def)
  have slice: "\<exists>out. run_slice E u32_max s = Some (out, s1) \<and> so_status out = final_status st1 s1 \<and> so_pc out = pc (cpu s1)"
    using e(1) unfolding run_slice_exec_n w_def t_def by simp
  show thesis
  proof (cases st1)
    case (Some st1')
    have "st1' = st \<and> s1 = s'"
    proof (cases "n \<le> ?B")
      case True
      from exec_n_stopped [OF stop this] e(1) Some show ?thesis by simp
    next
      case False
      then have "?B \<le> n" by simp
      from exec_n_stopped [OF e(1) [unfolded Some] this] stop show ?thesis by simp
    qed
    with slice e(3) Some stopped show thesis by (auto simp: final_status_def)
  next
    case None
    have n: "?B < n"
    proof (rule ccontr)
      assume "\<not> ?B < n"
      then have "n \<le> ?B" by simp
      from exec_n_stopped [OF stop this] e(1) None show False by simp
    qed
    then have "exec_n E w (?B + (n - ?B)) ?sk t = Some (k, Some st, sk', s')" using stop by (simp only: le_add_diff_inverse less_imp_le)
    then obtain k2 sk2 where "exec_n E w (n - ?B) sk1 s1 = Some (k2, Some st, sk2, s')"
      unfolding exec_n_add e(1) None by (auto split: Option.bind_split_asm)
    moreover have "0 < ?B" by simp
    ultimately obtain sk3 where rest: "exec_n E w (n - ?B) None s1 = Some (k2, Some st, sk3, s')"
      using exec_n_resume [OF e(1) [unfolded None], of "n - ?B"] by (cases "exec_n E w (n - ?B) None s1") auto
    show thesis
    proof (cases "is_halted (cpu s1)")
      case True
      obtain m where "n - ?B = Suc m" using n by (cases "n - ?B") auto
      with rest True have "s' = s1" "st = Halted" by (simp_all add: slice_iter_halted)
      with slice None True stopped show thesis by (auto simp: final_status_def)
    next
      case False
      with slice None obtain out where "run_slice E u32_max s = Some (out, s1)" "so_status out = Running"
        by (auto simp: final_status_def)
      from running [OF this _ s1 _ rest] e(3) None n show thesis by simp
    qed
  qed
qed

text \<open>
  A run with breakpoints off: if the guest stops after some number of instructions, \<open>run\<close> returns its
  exit code and the stopped machine.
\<close>

lemma run_stops:
  assumes "\<not> overflow_checks E"
  shows "machine_ok s \<Longrightarrow> \<not> debug_enabled (cpu s) \<Longrightarrow> resume_past_breakpoint (cpu s) = None \<Longrightarrow>
    exec_n E False n None s = Some (k, Some st, sk', s') \<Longrightarrow>
    run E s = Some (Some (exit_code (cpu s'), s'))"
proof (induction n arbitrary: s k sk' rule: less_induct)
  case (less n)
  have self: "s\<lparr>cpu := (cpu s)\<lparr>resume_past_breakpoint := None\<rparr>\<rparr> = s" using less.prems(3) by simp
  have w: "(debug_enabled (cpu s) \<and> breakpoints (cpu s) \<noteq> {}) = False" using less.prems(2) by simp
  show ?case
  proof (rule slice_towards_stop [OF less.prems(1) assms, of n k st sk' s', unfolded self less.prems(3) w])
    show "exec_n E False n None s = Some (k, Some st, sk', s')" by (rule less.prems(4))
  next
    fix out assume o: "run_slice E u32_max s = Some (out, s')" "so_status out = st" "st \<noteq> Running" "status_ok st s'"
      "st = Breakpoint \<Longrightarrow> False"
    then have st: "st \<noteq> Breakpoint" "is_halted (cpu s')" by (blast, cases st) auto
    then have "s'\<lparr>cpu := (cpu s')\<lparr>is_halted := True\<rparr>\<rparr> = s'" by simp
    with o(1-3) st less.prems(2) show ?thesis by (subst run.simps) simp
  next
    fix out s1 n' k' sk'' assume o: "run_slice E u32_max s = Some (out, s1)" "so_status out = Running"
      and r: "n' < n" "machine_ok s1" "conf_of (cpu s1) = conf_of (cpu s)" "resume_past_breakpoint (cpu s1) = None"
        "exec_n E False n' None s1 = Some (k', Some st, sk'', s')"
    have "run E s1 = Some (Some (exit_code (cpu s'), s'))"
      by (rule less.IH [OF r(1,2) _ r(4,5)]) (use r(3) less.prems(2) in \<open>simp add: conf_of_def\<close>)
    with o less.prems(2) show ?thesis by (subst run.simps) simp
  qed
qed

end

interpretation native_calm: calm_host "native_env checks" for checks :: bool
  by unfold_locales

end
