(* ===== verification/Disasm.thy ===== *)
theory Disasm
  imports Exec16
begin

text \<open>
  The disassembler, \<open>src/disasm.rs\<close>. Text is a string, the symbol table an optional map from addresses to
  names. The immediate extractors of the compressed formats are those of \<open>execute_inst16\<close>, which the code
  repeats here.
\<close>

record DisassembledInst =
  di_address :: u32
  di_opcode_hex :: string
  di_asm_text :: string
  di_is_compressed :: bool
  di_label :: "string option"

section \<open>Names\<close>

definition reg_names :: "string list" where
  "reg_names =
     [''zero'', ''ra'', ''sp'', ''gp'', ''tp'', ''t0'', ''t1'', ''t2'', ''s0'', ''s1'', ''a0'', ''a1'', ''a2'',
      ''a3'', ''a4'', ''a5'', ''a6'', ''a7'', ''s2'', ''s3'', ''s4'', ''s5'', ''s6'', ''s7'', ''s8'', ''s9'',
      ''s10'', ''s11'', ''t3'', ''t4'', ''t5'', ''t6'']"

definition freg_names :: "string list" where
  "freg_names =
     [''ft0'', ''ft1'', ''ft2'', ''ft3'', ''ft4'', ''ft5'', ''ft6'', ''ft7'', ''fs0'', ''fs1'', ''fa0'', ''fa1'',
      ''fa2'', ''fa3'', ''fa4'', ''fa5'', ''fa6'', ''fa7'', ''fs2'', ''fs3'', ''fs4'', ''fs5'', ''fs6'', ''fs7'',
      ''fs8'', ''fs9'', ''fs10'', ''fs11'', ''ft8'', ''ft9'', ''ft10'', ''ft11'']"

definition reg_name :: "u32 \<Rightarrow> string" where
  "reg_name reg = reg_names ! unat (reg AND 0x1F)"

definition freg_name :: "u32 \<Rightarrow> string" where
  "freg_name reg = freg_names ! unat (reg AND 0x1F)"

type_synonym symbols = "u32 \<Rightarrow> string option"

definition format_target :: "u32 \<Rightarrow> symbols option \<Rightarrow> string" where
  "format_target addr syms =
     (case syms of
        Some m \<Rightarrow>
          (case m addr of
             Some name \<Rightarrow> ''0x'' @ fmt_hex (unat addr) @ '' <'' @ name @ ''>''
           | None \<Rightarrow> ''0x'' @ fmt_hex (unat addr))
      | None \<Rightarrow> ''0x'' @ fmt_hex (unat addr))"

text \<open>The shapes \<open>op a, b, c\<close>, \<open>op a, b\<close> and \<open>op a, n(b)\<close>.\<close>

definition asm3 :: "string \<Rightarrow> string \<Rightarrow> string \<Rightarrow> string \<Rightarrow> string" where
  "asm3 op a b c = op @ '' '' @ a @ '', '' @ b @ '', '' @ c"

definition asm2 :: "string \<Rightarrow> string \<Rightarrow> string \<Rightarrow> string" where
  "asm2 op a b = op @ '' '' @ a @ '', '' @ b"

definition asm_mem :: "string \<Rightarrow> string \<Rightarrow> string \<Rightarrow> string \<Rightarrow> string" where
  "asm_mem op a n b = op @ '' '' @ a @ '', '' @ n @ ''('' @ b @ '')''"

section \<open>32-bit instructions\<close>

definition branch_name :: "u8 \<Rightarrow> bool \<Rightarrow> string" where
  "branch_name funct3 rs2_zero =
     (if funct3 = 0 then (if rs2_zero then ''beqz'' else ''beq'')
      else if funct3 = 1 then (if rs2_zero then ''bnez'' else ''bne'')
      else if funct3 = 4 then (if rs2_zero then ''bltz'' else ''blt'')
      else if funct3 = 5 then (if rs2_zero then ''bgez'' else ''bge'')
      else if funct3 = 6 then ''bltu''
      else if funct3 = 7 then ''bgeu''
      else ''unknown_branch'')"

definition load_name :: "u8 \<Rightarrow> string" where
  "load_name funct3 =
     (if funct3 = 0 then ''lb'' else if funct3 = 1 then ''lh'' else if funct3 = 2 then ''lw''
      else if funct3 = 4 then ''lbu'' else if funct3 = 5 then ''lhu'' else ''load_unknown'')"

definition store_name :: "u8 \<Rightarrow> string" where
  "store_name funct3 =
     (if funct3 = 0 then ''sb'' else if funct3 = 1 then ''sh'' else if funct3 = 2 then ''sw''
      else ''store_unknown'')"

definition disasm_op_imm :: "u32 \<Rightarrow> DecodedInst32 \<Rightarrow> string" where
  "disasm_op_imm raw_inst d =
     (let rd = reg_name (word_of_nat (d_rd d)); rs1 = reg_name (word_of_nat (d_rs1 d));
          imm = i_imm d; shamt = fmt_dec (d_rs2 d); f3 = d_funct3 d in
      if f3 = 0
      then (if raw_inst = 0x00000013 then ''nop''
            else if d_rs1 d = 0 then asm2 ''li'' rd (fmt_int (sint imm))
            else if imm = 0 then asm2 ''mv'' rd rs1
            else asm3 ''addi'' rd rs1 (fmt_int (sint imm)))
      else if f3 = 2 then asm3 ''slti'' rd rs1 (fmt_int (sint imm))
      else if f3 = 3 then asm3 ''sltiu'' rd rs1 (fmt_dec (unat imm))
      else if f3 = 4 then asm3 ''xori'' rd rs1 (fmt_int (sint imm))
      else if f3 = 6 then asm3 ''ori'' rd rs1 (fmt_int (sint imm))
      else if f3 = 7 then asm3 ''andi'' rd rs1 (fmt_int (sint imm))
      else if f3 = 1 then asm3 ''slli'' rd rs1 shamt
      else if f3 = 5 then (if d_funct7 d = 0x20 then asm3 ''srai'' rd rs1 shamt else asm3 ''srli'' rd rs1 shamt)
      else ''op_imm_unknown 0x'' @ fmt_hex0 8 (unat raw_inst))"

definition op_name :: "u8 \<Rightarrow> u8 \<Rightarrow> string" where
  "op_name funct7 funct3 =
     (if funct7 = 0x00
      then (if funct3 = 0 then ''add'' else if funct3 = 1 then ''sll'' else if funct3 = 2 then ''slt''
            else if funct3 = 3 then ''sltu'' else if funct3 = 4 then ''xor'' else if funct3 = 5 then ''srl''
            else if funct3 = 6 then ''or'' else if funct3 = 7 then ''and'' else ''op_unknown'')
      else if funct7 = 0x20
      then (if funct3 = 0 then ''sub'' else if funct3 = 5 then ''sra'' else ''op_unknown'')
      else if funct7 = 0x01
      then (if funct3 = 0 then ''mul'' else if funct3 = 1 then ''mulh'' else if funct3 = 2 then ''mulhsu''
            else if funct3 = 3 then ''mulhu'' else if funct3 = 4 then ''div'' else if funct3 = 5 then ''divu''
            else if funct3 = 6 then ''rem'' else if funct3 = 7 then ''remu'' else ''op_unknown'')
      else ''op_unknown'')"

definition csr_name :: "u8 \<Rightarrow> string" where
  "csr_name funct3 =
     (if funct3 = 1 then ''csrrw'' else if funct3 = 2 then ''csrrs'' else if funct3 = 3 then ''csrrc''
      else if funct3 = 5 then ''csrrwi'' else if funct3 = 6 then ''csrrsi'' else if funct3 = 7 then ''csrrci''
      else ''csr_op'')"

definition disasm_branch :: "u32 \<Rightarrow> DecodedInst32 \<Rightarrow> symbols option \<Rightarrow> string" where
  "disasm_branch address d syms =
     (let target_str = format_target (address + b_imm d) syms;
          op = branch_name (d_funct3 d) (d_rs2 d = 0);
          rs1 = reg_name (word_of_nat (d_rs1 d)); rs2 = reg_name (word_of_nat (d_rs2 d)) in
      if op = ''beqz'' \<or> op = ''bnez'' \<or> op = ''bltz'' \<or> op = ''bgez'' then asm2 op rs1 target_str
      else asm3 op rs1 rs2 target_str)"

definition disasm_system :: "u32 \<Rightarrow> DecodedInst32 \<Rightarrow> string" where
  "disasm_system raw_inst d =
     (if raw_inst = 0x00000073 then ''ecall''
      else if raw_inst = 0x00100073 then ''ebreak''
      else if raw_inst = 0x30200073 then ''mret''
      else asm3 (csr_name (d_funct3 d)) (reg_name (word_of_nat (d_rd d)))
             (''0x'' @ fmt_hex (unat (drop_bit 20 raw_inst))) (reg_name (word_of_nat (d_rs1 d))))"

definition decode_rv32 :: "u32 \<Rightarrow> u32 \<Rightarrow> symbols option \<Rightarrow> string" where
  "decode_rv32 address raw_inst syms =
     (let d = decode32 raw_inst; rd = word_of_nat (d_rd d); rs1 = word_of_nat (d_rs1 d);
          rs2 = word_of_nat (d_rs2 d); opcode = d_opcode d in
      if opcode = OP_LUI then asm2 ''lui'' (reg_name rd) (fmt_int (sint (signed_drop_bit 12 (u_imm d))))
      else if opcode = OP_AUIPC
      then asm2 ''auipc'' (reg_name rd) (fmt_int (sint (signed_drop_bit 12 (u_imm d))))
      else if opcode = OP_JAL
      then (let target_str = format_target (address + j_imm d) syms in
            if rd = 0 then ''j '' @ target_str else asm2 ''jal'' (reg_name rd) target_str)
      else if opcode = OP_JALR
      then (if rd = 0 \<and> rs1 = 1 \<and> i_imm d = 0 then ''ret''
            else if rd = 0 \<and> i_imm d = 0 then ''jr '' @ reg_name rs1
            else asm_mem ''jalr'' (reg_name rd) (fmt_int (sint (i_imm d))) (reg_name rs1))
      else if opcode = OP_BRANCH then disasm_branch address d syms
      else if opcode = OP_LOAD
      then asm_mem (load_name (d_funct3 d)) (reg_name rd) (fmt_int (sint (i_imm d))) (reg_name rs1)
      else if opcode = OP_STORE
      then asm_mem (store_name (d_funct3 d)) (reg_name rs2) (fmt_int (sint (s_imm d))) (reg_name rs1)
      else if opcode = OP_IMM then disasm_op_imm raw_inst d
      else if opcode = OP_OP
      then asm3 (op_name (d_funct7 d) (d_funct3 d)) (reg_name rd) (reg_name rs1) (reg_name rs2)
      else if opcode = OP_LOAD_FP
      then asm_mem ''flw'' (freg_name rd) (fmt_int (sint (i_imm d))) (reg_name rs1)
      else if opcode = OP_STORE_FP
      then asm_mem ''fsw'' (freg_name rs2) (fmt_int (sint (s_imm d))) (reg_name rs1)
      else if opcode = OP_SYSTEM then disasm_system raw_inst d
      else ''unimpl 0x'' @ fmt_hex0 8 (unat raw_inst))"

section \<open>16-bit instructions\<close>

definition format_target_rvc :: "u32 \<Rightarrow> u16 \<Rightarrow> string" where
  "format_target_rvc address inst = ''0x'' @ fmt_hex (unat (address + c_j_offset inst))"

definition format_branch_target_rvc :: "u32 \<Rightarrow> u16 \<Rightarrow> string" where
  "format_branch_target_rvc address inst = ''0x'' @ fmt_hex (unat (address + c_b_offset inst))"

definition c_reserved :: "u16 \<Rightarrow> string" where
  "c_reserved inst = ''c.reserved 0x'' @ fmt_hex0 4 (unat inst)"

definition fmt_offset :: "u32 \<Rightarrow> string" where
  "fmt_offset off = fmt_dec (unat off)"

definition rvc_q0 :: "u16 \<Rightarrow> u16 \<Rightarrow> string" where
  "rvc_q0 inst funct3 =
     (let rdc = word_of_nat (creg inst 2); rs1c = reg_name (word_of_nat (creg inst 7)) in
      if funct3 = 0
      then (if c_addi4spn_imm inst = 0 then c_reserved inst
            else asm3 ''c.addi4spn'' (reg_name rdc) ''sp'' (fmt_offset (c_addi4spn_imm inst)))
      else if funct3 = 1 then asm_mem ''c.fld'' (freg_name rdc) (fmt_offset (cl_double_offset inst)) rs1c
      else if funct3 = 2 then asm_mem ''c.lw'' (reg_name rdc) (fmt_offset (cl_word_offset inst)) rs1c
      else if funct3 = 3 then asm_mem ''c.flw'' (freg_name rdc) (fmt_offset (cl_word_offset inst)) rs1c
      else if funct3 = 5 then asm_mem ''c.fsd'' (freg_name rdc) (fmt_offset (cl_double_offset inst)) rs1c
      else if funct3 = 6 then asm_mem ''c.sw'' (reg_name rdc) (fmt_offset (cl_word_offset inst)) rs1c
      else if funct3 = 7 then asm_mem ''c.fsw'' (freg_name rdc) (fmt_offset (cl_word_offset inst)) rs1c
      else c_reserved inst)"

definition rvc_alu_name :: "u16 \<Rightarrow> string" where
  "rvc_alu_name sel =
     (if sel = 0 then ''c.sub'' else if sel = 1 then ''c.xor'' else if sel = 2 then ''c.or'' else ''c.and'')"

definition rvc_misc_alu :: "u16 \<Rightarrow> string" where
  "rvc_misc_alu inst =
     (let rs1c = reg_name (word_of_nat (creg inst 7)); sel = shift_then_mask inst 10 0x3 in
      if sel = 0 \<or> sel = 1
      then (let op_name = (if sel = 0 then ''c.srli'' else ''c.srai'') in
            if c_bit12 inst \<noteq> 0 then c_reserved inst
            else asm2 op_name rs1c (fmt_dec (unat (shift_then_mask inst 2 0x1F))))
      else if sel = 2 then asm2 ''c.andi'' rs1c (fmt_int (sint (c_sign_ext6 inst)))
      else if c_bit12 inst \<noteq> 0 then c_reserved inst
      else asm2 (rvc_alu_name (shift_then_mask inst 5 0x3)) rs1c (reg_name (word_of_nat (creg inst 2))))"

definition rvc_q1 :: "u32 \<Rightarrow> u16 \<Rightarrow> u16 \<Rightarrow> string" where
  "rvc_q1 address inst funct3 =
     (let rd = c_rd inst; rdn = reg_name (word_of_nat (c_rd inst));
          rs1c = reg_name (word_of_nat (creg inst 7)); imm6_sext = fmt_int (sint (c_sign_ext6 inst)) in
      if funct3 = 0 then (if rd = 0 then ''c.nop'' else asm2 ''c.addi'' rdn imm6_sext)
      else if funct3 = 1 then ''c.jal '' @ format_target_rvc address inst
      else if funct3 = 2 then asm2 ''c.li'' rdn imm6_sext
      else if funct3 = 3
      then (if rd = 2
            then (if c_addi16sp_imm inst = 0 then c_reserved inst
                  else asm2 ''c.addi16sp'' ''sp'' (fmt_int (sint (c_addi16sp_offset inst))))
            else if rd = 0 \<or> c_imm6 inst = 0 then c_reserved inst
            else asm2 ''c.lui'' rdn imm6_sext)
      else if funct3 = 4 then rvc_misc_alu inst
      else if funct3 = 5 then ''c.j '' @ format_target_rvc address inst
      else if funct3 = 6 then asm2 ''c.beqz'' rs1c (format_branch_target_rvc address inst)
      else if funct3 = 7 then asm2 ''c.bnez'' rs1c (format_branch_target_rvc address inst)
      else c_reserved inst)"

definition asm_sp :: "string \<Rightarrow> string \<Rightarrow> u32 \<Rightarrow> string" where
  "asm_sp op a off = op @ '' '' @ a @ '', '' @ fmt_offset off @ ''(sp)''"

definition rvc_q2 :: "u16 \<Rightarrow> u16 \<Rightarrow> string" where
  "rvc_q2 inst funct3 =
     (let rd = c_rd inst; rs2 = c_rs2 inst; rdw = word_of_nat rd; rs2w = word_of_nat rs2 in
      if funct3 = 0
      then (if c_bit12 inst \<noteq> 0 then c_reserved inst
            else asm2 ''c.slli'' (reg_name rdw) (fmt_dec (unat (shift_then_mask inst 2 0x1F))))
      else if funct3 = 1 then asm_sp ''c.fldsp'' (freg_name rdw) (ci_double_sp_offset inst)
      else if funct3 = 2
      then (if rd = 0 then c_reserved inst else asm_sp ''c.lwsp'' (reg_name rdw) (ci_word_sp_offset inst))
      else if funct3 = 3 then asm_sp ''c.flwsp'' (freg_name rdw) (ci_word_sp_offset inst)
      else if funct3 = 4
      then (if c_bit12 inst = 0 \<and> rs2 = 0
            then (if rd = 0 then c_reserved inst else ''c.jr '' @ reg_name rdw)
            else if c_bit12 inst = 0 then asm2 ''c.mv'' (reg_name rdw) (reg_name rs2w)
            else if rd = 0 \<and> rs2 = 0 then ''c.ebreak''
            else if rs2 = 0 then ''c.jalr '' @ reg_name rdw
            else asm2 ''c.add'' (reg_name rdw) (reg_name rs2w))
      else if funct3 = 5 then asm_sp ''c.fsdsp'' (freg_name rs2w) (css_double_sp_offset inst)
      else if funct3 = 6 then asm_sp ''c.swsp'' (reg_name rs2w) (css_word_sp_offset inst)
      else if funct3 = 7 then asm_sp ''c.fswsp'' (freg_name rs2w) (css_word_sp_offset inst)
      else c_reserved inst)"

definition decode_rvc :: "u32 \<Rightarrow> u16 \<Rightarrow> string" where
  "decode_rvc address inst =
     (let op = inst AND 0x3; funct3 = shift_then_mask inst 13 0x7 in
      if op = 0 then rvc_q0 inst funct3
      else if op = 1 then rvc_q1 address inst funct3
      else if op = 2 then rvc_q2 inst funct3
      else c_reserved inst)"

section \<open>Entry points\<close>

definition decode_instruction_with_symbols :: "u32 \<Rightarrow> u32 \<Rightarrow> symbols option \<Rightarrow> DisassembledInst" where
  "decode_instruction_with_symbols address opcode syms =
     (let is_compressed = (opcode AND 0x3 \<noteq> 0x3);
          half = (ucast (opcode AND 0xFFFF) :: u16);
          (hex_str, text) = (if is_compressed then (fmt_hex0 4 (unat half), decode_rvc address half)
                             else (fmt_hex0 8 (unat opcode), decode_rv32 address opcode syms));
          lbl = (case syms of Some m \<Rightarrow> m address | None \<Rightarrow> None)
      in \<lparr>di_address = address, di_opcode_hex = hex_str, di_asm_text = text,
          di_is_compressed = is_compressed, di_label = lbl\<rparr>)"

definition decode_instruction :: "u32 \<Rightarrow> u32 \<Rightarrow> DisassembledInst" where
  "decode_instruction address opcode = decode_instruction_with_symbols address opcode None"

end
