(* ===== verification/Cli.thy ===== *)
theory Cli
  imports Fmt
begin

text \<open>
  The command line, \<open>src/cli.rs\<close>. A \<open>&str\<close> is the list of its UTF-8 bytes.
\<close>

section \<open>What the code uses of \<open>str\<close>\<close>

definition starts_with :: "string \<Rightarrow> string \<Rightarrow> bool" where
  "starts_with s p \<longleftrightarrow> take (length p) s = p"

definition strip_prefix :: "string \<Rightarrow> string \<Rightarrow> string option" where
  "strip_prefix s p = (if starts_with s p then Some (drop (length p) s) else None)"

text \<open>\<open>trim_start_matches\<close> with a nonempty pattern removes it as often as it occurs at the front.\<close>

function trim_start_matches :: "string \<Rightarrow> string \<Rightarrow> string" where
  "trim_start_matches s p =
     (if p \<noteq> [] \<and> starts_with s p then trim_start_matches (drop (length p) s) p else s)"
  by pat_completeness auto
termination
  by (relation "measure (length o fst)")
     (auto simp: starts_with_def, metis diff_less length_greater_0_conv take_Nil)

declare trim_start_matches.simps [simp del]

text \<open>\<open>split_once('=')\<close>: around the first separator.\<close>

fun split_once :: "char \<Rightarrow> string \<Rightarrow> (string \<times> string) option" where
  "split_once sep [] = None"
| "split_once sep (c # cs) =
     (if c = sep then Some ([], cs) else map_option (\<lambda>(a, b). (c # a, b)) (split_once sep cs))"

text \<open>The UTF-8 encodings of the characters with the property \<open>White_Space\<close>, which \<open>trim\<close> removes.\<close>

definition whitespace :: "string list" where
  "whitespace = map (map char_of)
     ([[9], [10], [11], [12], [13], [32], [0xC2, 0x85], [0xC2, 0xA0], [0xE1, 0x9A, 0x80],
       [0xE2, 0x80, 0xA8], [0xE2, 0x80, 0xA9], [0xE2, 0x80, 0xAF], [0xE2, 0x81, 0x9F], [0xE3, 0x80, 0x80]]
      @ map (\<lambda>b. [0xE2, 0x80, b]) [0x80..<0x8B] :: nat list list)"

definition leading_space :: "string list \<Rightarrow> string \<Rightarrow> nat" where
  "leading_space ws s = (case find (starts_with s) ws of Some p \<Rightarrow> length p | None \<Rightarrow> 0)"

function trim_front :: "string list \<Rightarrow> string \<Rightarrow> string" where
  "trim_front ws s =
     (let n = leading_space ws s in if n = 0 \<or> s = [] then s else trim_front ws (drop n s))"
  by pat_completeness auto
termination
  by (relation "measure (length o snd)") auto

declare trim_front.simps [simp del]

definition trim :: "string \<Rightarrow> string" where
  "trim s = rev (trim_front (map rev whitespace) (rev (trim_front whitespace s)))"

section \<open>Configuration\<close>

record SimConfig =
  binary_path :: "string option"
  isa_string :: string
  register_inits :: "(nat \<times> u32) list"
  is_interactive :: bool
  is_newlib :: bool

definition SimConfig_default :: SimConfig where
  "SimConfig_default =
     \<lparr>binary_path = None, isa_string = [], register_inits = [], is_interactive = False, is_newlib = False\<rparr>"

text \<open>
  \<open>parse::<usize>\<close> is modelled at 64 bits; a number that overflows a narrower \<open>usize\<close> is rejected by the
  range check that follows in either case.
\<close>

definition setreg_index :: "string \<Rightarrow> nat" where
  "setreg_index name =
     (if name = ''sp'' \<or> name = ''x2'' then 2
      else if name = ''ra'' \<or> name = ''x1'' then 1
      else if name = ''gp'' \<or> name = ''x3'' then 3
      else if name = ''tp'' \<or> name = ''x4'' then 4
      else if name = ''t0'' \<or> name = ''x5'' then 5
      else if name = ''a0'' \<or> name = ''x10'' then 10
      else if name = ''a1'' \<or> name = ''x11'' then 11
      else if name = ''a7'' \<or> name = ''x17'' then 17
      else if starts_with name ''x''
      then (case from_str_radix (2 ^ 64) 10 (drop 1 name) of Some n \<Rightarrow> n | None \<Rightarrow> 0)
      else 0)"

definition setreg_value :: "string \<Rightarrow> u32" where
  "setreg_value val_clean =
     word_of_nat (case (if starts_with val_clean ''0x'' \<or> starts_with val_clean ''0X''
                        then from_str_radix (2 ^ 32) 16 (drop 2 val_clean)
                        else from_str_radix (2 ^ 32) 10 val_clean)
                  of Some n \<Rightarrow> n | None \<Rightarrow> 0)"

definition parse_setreg :: "SimConfig \<Rightarrow> string \<Rightarrow> SimConfig" where
  "parse_setreg config kv =
     (case split_once (CHR ''='') kv of
        Some (reg_name, val_str) \<Rightarrow>
          (let reg_idx = setreg_index (trim reg_name); val = setreg_value (trim val_str) in
           if reg_idx > 0 \<and> reg_idx < 32
           then config\<lparr>register_inits := register_inits config @ [(reg_idx, val)]\<rparr>
           else config)
      | None \<Rightarrow> config)"

section \<open>Arguments\<close>

text \<open>The loop over \<open>i\<close>, on the arguments from \<open>i\<close> on.\<close>

fun parse_args_from :: "SimConfig \<Rightarrow> string list \<Rightarrow> SimConfig" where
  "parse_args_from config [] = config"
| "parse_args_from config (arg # rest) =
     (if arg = ''--newlib'' \<or> arg = ''-n''
      then (let config = config\<lparr>is_newlib := True\<rparr> in
            case rest of
              nxt # rest' \<Rightarrow>
                if \<not> starts_with nxt ''-'' then parse_args_from (config\<lparr>binary_path := Some nxt\<rparr>) rest'
                else parse_args_from config rest
            | [] \<Rightarrow> config)
      else if arg = ''--isa''
      then (case rest of
              nxt # rest' \<Rightarrow> parse_args_from (config\<lparr>isa_string := nxt\<rparr>) rest'
            | [] \<Rightarrow> config)
      else if starts_with arg ''--setreg''
      then (case strip_prefix arg ''--setreg='' of
              Some kv \<Rightarrow> parse_args_from (parse_setreg config kv) rest
            | None \<Rightarrow>
                (case rest of
                   kv # rest' \<Rightarrow> parse_args_from (parse_setreg config kv) rest'
                 | [] \<Rightarrow> config))
      else if arg = ''--interactive'' then parse_args_from (config\<lparr>is_interactive := True\<rparr>) rest
      else if starts_with arg ''-'' \<and> binary_path config = None
      then (let cleaned = trim_start_matches (trim_start_matches arg ''/'') ''working/'' in
            parse_args_from (config\<lparr>binary_path := Some cleaned\<rparr>) rest)
      else parse_args_from config rest)"

definition parse_args :: "string list \<Rightarrow> SimConfig" where
  "parse_args args = parse_args_from SimConfig_default args"

section \<open>Register initialisers are in range\<close>

definition inits_ok :: "SimConfig \<Rightarrow> bool" where
  "inits_ok config \<longleftrightarrow> (\<forall>(r, v) \<in> set (register_inits config). 0 < r \<and> r < 32)"

lemma parse_setreg_ok: "inits_ok config \<Longrightarrow> inits_ok (parse_setreg config kv)"
  by (auto simp: parse_setreg_def inits_ok_def Let_def split: option.splits)

lemma inits_ok_updates [simp]:
  "inits_ok (config\<lparr>binary_path := p\<rparr>) = inits_ok config" "inits_ok (config\<lparr>isa_string := i\<rparr>) = inits_ok config"
  "inits_ok (config\<lparr>is_newlib := b\<rparr>) = inits_ok config" "inits_ok (config\<lparr>is_interactive := b\<rparr>) = inits_ok config"
  by (simp_all add: inits_ok_def)

lemma parse_args_from_ok: "inits_ok config \<Longrightarrow> inits_ok (parse_args_from config args)"
  by (induction config args rule: parse_args_from.induct)
     (auto simp: parse_setreg_ok Let_def split: option.splits list.splits)

lemma parse_args_ok: "inits_ok (parse_args args)"
  unfolding parse_args_def by (rule parse_args_from_ok) (simp add: inits_ok_def SimConfig_default_def)

section \<open>Round trip of \<open>--setreg\<close>\<close>

text \<open>A string that starts and ends with a printing ASCII character has nothing to trim.\<close>

definition plain :: "char \<Rightarrow> bool" where
  "plain c \<longleftrightarrow> 33 \<le> (of_char c :: nat) \<and> (of_char c :: nat) \<le> 126"

lemma whitespace_ends: "p \<in> set whitespace \<Longrightarrow> p \<noteq> [] \<and> \<not> plain (hd p) \<and> \<not> plain (last p)"
  by (auto simp: whitespace_def plain_def)

lemma trim_front_plain:
  assumes "\<And>p. p \<in> set ws \<Longrightarrow> p \<noteq> [] \<and> \<not> plain (hd p)" "plain (hd s)"
  shows "trim_front ws s = s"
proof -
  have "\<not> starts_with s p" if "p \<in> set ws" for p
    using assms(1) [OF that] assms(2) by (cases p; cases s) (auto simp: starts_with_def)
  then have "find (starts_with s) ws = None" by (simp add: find_None_iff)
  then show ?thesis by (simp add: trim_front.simps [of ws s] leading_space_def)
qed

lemma trim_plain:
  assumes "s \<noteq> []" "plain (hd s)" "plain (last s)"
  shows "trim s = s"
proof -
  have "trim_front whitespace s = s"
    by (rule trim_front_plain) (use assms whitespace_ends in auto)
  moreover have "trim_front (map rev whitespace) (rev s) = rev s"
    by (rule trim_front_plain) (use assms whitespace_ends in \<open>auto simp: hd_rev\<close>)
  ultimately show ?thesis by (simp add: trim_def)
qed

lemma plain_digit: "d < 36 \<Longrightarrow> plain (digit_char d)"
  by (simp add: plain_def digit_char_def)

lemma fmt_radix_chars:
  assumes "2 \<le> b" "b \<le> 36" "c \<in> set (fmt_radix b n)"
  shows "plain c" "c \<noteq> CHR ''=''"
proof -
  obtain d where d: "c = digit_char d" "d < b"
    using assms radix_digits_less [OF assms(1)] by (auto simp: fmt_radix_def)
  then show "plain c" using assms by (simp add: plain_digit)
  have "of_char (digit_char d) \<noteq> (61::nat)" using d assms by (simp add: digit_char_def)
  then show "c \<noteq> CHR ''=''" using d by auto
qed

lemma split_once_append: "sep \<notin> set a \<Longrightarrow> split_once sep (a @ sep # b) = Some (a, b)"
  by (induction a) auto

lemma fmt_radix_nonempty [simp]: "fmt_radix b n \<noteq> []"
  by (simp add: fmt_radix_def radix_digits_nonempty)

lemma trim_number:
  assumes "2 \<le> b" "b \<le> 36" "\<And>c. c \<in> set pre \<Longrightarrow> plain c"
  shows "trim (pre @ fmt_radix b n) = pre @ fmt_radix b n"
proof (rule trim_plain)
  have l: "last (fmt_radix b n) \<in> set (fmt_radix b n)" "hd (fmt_radix b n) \<in> set (fmt_radix b n)" by simp_all
  show "plain (last (pre @ fmt_radix b n))" using fmt_radix_chars(1) [OF assms(1,2) l(1)] by simp
  show "plain (hd (pre @ fmt_radix b n))"
    using fmt_radix_chars(1) [OF assms(1,2) l(2)] assms(3) by (cases pre) simp_all
qed simp

lemma parse_literals:
  "from_str_radix (2 ^ 64) 10 ''1'' = Some 1" "from_str_radix (2 ^ 64) 10 ''2'' = Some 2"
  "from_str_radix (2 ^ 64) 10 ''3'' = Some 3" "from_str_radix (2 ^ 64) 10 ''4'' = Some 4"
  "from_str_radix (2 ^ 64) 10 ''5'' = Some 5" "from_str_radix (2 ^ 64) 10 ''10'' = Some 10"
  "from_str_radix (2 ^ 64) 10 ''11'' = Some 11" "from_str_radix (2 ^ 64) 10 ''17'' = Some 17"
  by (simp_all add: from_str_radix_def digit_val_def)

lemma setreg_index_x:
  assumes "from_str_radix (2 ^ 64) 10 ds = Some r"
  shows "setreg_index (CHR ''x'' # ds) = r"
proof (cases "ds \<in> {''1'', ''2'', ''3'', ''4'', ''5'', ''10'', ''11'', ''17''}")
  case True
  with assms parse_literals show ?thesis
    by (elim insertE emptyE) (simp_all add: setreg_index_def)
next
  case False
  with assms show ?thesis by (simp add: setreg_index_def starts_with_def)
qed

lemma setreg_index_number: "r < 32 \<Longrightarrow> setreg_index (''x'' @ fmt_dec r) = r"
  using setreg_index_x [OF from_str_radix_fmt [of 10 r "2 ^ 64"]] by (simp add: fmt_dec_def)

lemma parse_u32: "2 \<le> b \<Longrightarrow> b \<le> 36 \<Longrightarrow> from_str_radix (2 ^ 32) b (fmt_radix b (unat (v :: u32))) = Some (unat v)"
  using unsigned_less [of v, where 'a = nat] by (intro from_str_radix_fmt) simp_all

lemma setreg_value_hex: "setreg_value (''0x'' @ fmt_hex (unat v)) = v"
  using parse_u32 [of 16 v] by (simp add: setreg_value_def starts_with_def fmt_hex_def)

text \<open>A decimal number contains no letter, so it is not taken for a hexadecimal one.\<close>

lemma decimal_digit: "c \<in> set (fmt_radix 10 n) \<Longrightarrow> (of_char c :: nat) < 58"
  using radix_digits_less [of 10 _ n] by (fastforce simp: fmt_radix_def digit_char_def)

lemma decimal_not_hex:
  assumes "58 \<le> (of_char x :: nat)"
  shows "\<not> starts_with (fmt_radix 10 n) [c, x]"
proof
  assume "starts_with (fmt_radix 10 n) [c, x]"
  then have "set [c, x] \<subseteq> set (fmt_radix 10 n)" by (metis set_take_subset starts_with_def)
  with decimal_digit [of x n] assms show False by auto
qed

lemma setreg_value_dec: "setreg_value (fmt_dec (unat v)) = v"
  using parse_u32 [of 10 v] decimal_not_hex [of "CHR ''x''" "unat v"] decimal_not_hex [of "CHR ''X''" "unat v"]
  by (simp add: setreg_value_def fmt_dec_def)

lemma parse_setreg_number:
  assumes "0 < r" "r < 32" "vs = fmt_dec (unat v) \<or> vs = ''0x'' @ fmt_hex (unat v)"
  shows "parse_setreg config (''x'' @ fmt_dec r @ ''='' @ vs)
    = config\<lparr>register_inits := register_inits config @ [(r, v)]\<rparr>"
proof -
  have "CHR ''='' \<notin> set (''x'' @ fmt_dec r)"
    using fmt_radix_chars(2) [of 10 "CHR ''=''" r] by (auto simp: fmt_dec_def)
  from split_once_append [OF this, of vs]
  have s: "split_once (CHR ''='') (''x'' @ fmt_dec r @ ''='' @ vs) = Some (''x'' @ fmt_dec r, vs)" by simp
  have n: "trim (''x'' @ fmt_dec r) = ''x'' @ fmt_dec r"
    unfolding fmt_dec_def by (rule trim_number) (simp_all add: plain_def)
  have h: "trim (''0x'' @ fmt_radix 16 (unat v)) = ''0x'' @ fmt_radix 16 (unat v)"
    by (rule trim_number) (auto simp: plain_def)
  have "trim vs = vs"
    using assms(3) h trim_number [of 10 "[]" "unat v"] by (auto simp: fmt_dec_def fmt_hex_def)
  moreover have "setreg_value vs = v"
    using assms(3) setreg_value_dec setreg_value_hex by blast
  ultimately show ?thesis
    unfolding parse_setreg_def s
    using assms(1,2) setreg_index_number [OF assms(2)] n by (simp add: Let_def)
qed

end
