(* ===== verification/Simulator.thy ===== *)
theory Simulator
  imports Run Disasm Cli
begin

text \<open>
  The simulator facade, \<open>src/lib.rs\<close>: loading a binary, running it, and the debugger commands.

  ELF parsing is goblin's, which is not part of the repository: it is the argument \<open>elf_parse\<close> of the
  loader, which returns the headers and symbols the loader reads, with the ELF field widths of goblin's
  types. \<open>usize\<close> is the 64-bit one of the native build. The conversion of a JavaScript value to a string is the
  argument \<open>as_string\<close>.
\<close>

section \<open>ELF files\<close>

record elf_phdr =
  p_type :: u32
  p_offset :: u64
  p_filesz :: u64
  p_vaddr :: u64

record elf_shdr =
  sh_type :: u32
  sh_flags :: u64
  sh_addr :: u64
  sh_offset :: u64
  sh_size :: u64
  sh_addralign :: u64

record elf_sym =
  st_name :: nat
  st_value :: u64
  st_shndx :: nat

record elf =
  e_entry :: u64
  program_headers :: "elf_phdr list"
  section_headers :: "elf_shdr list"
  syms :: "elf_sym list"
  strtab_get_at :: "nat \<Rightarrow> string option"

definition PT_LOAD :: u32 where "PT_LOAD = 1"
definition SHT_PROGBITS :: u32 where "SHT_PROGBITS = 1"
definition SHT_NOBITS :: u32 where "SHT_NOBITS = 8"

text \<open>\<open>&xs[lo..hi]\<close> and Rust's plain \<open>-\<close>.\<close>

definition slice_range :: "'a list \<Rightarrow> nat \<Rightarrow> nat \<Rightarrow> 'a list option" where
  "slice_range xs lo hi = (if lo \<le> hi \<and> hi \<le> length xs then Some (take (hi - lo) (drop lo xs)) else None)"

definition sub_or_panic :: "'h env \<Rightarrow> 'a::len word \<Rightarrow> 'a word \<Rightarrow> 'a word option" where
  "sub_or_panic E a b = (if overflow_checks E \<and> a < b then None else Some (a - b))"

section \<open>State\<close>

record 'h simulator =
  machine :: "'h machine"
  symbols :: symbols

definition simulator_new :: "'h \<Rightarrow> 'h simulator" where
  "simulator_new h =
     \<lparr>machine = \<lparr>cpu = cpu_new, mem = memory_new, host = h\<rparr>, symbols = (\<lambda>_. None)\<rparr>"

definition update_cpu :: "(cpu \<Rightarrow> cpu) \<Rightarrow> 'h simulator \<Rightarrow> 'h simulator" where
  "update_cpu f m = m\<lparr>machine := (machine m)\<lparr>cpu := f (cpu (machine m))\<rparr>\<rparr>"

definition set_has_custom_syscalls :: "bool \<Rightarrow> 'h simulator \<Rightarrow> 'h simulator" where
  "set_has_custom_syscalls enabled = update_cpu (\<lambda>c. c\<lparr>has_custom_syscalls := enabled\<rparr>)"

definition sim_has_custom_syscalls :: "'h simulator \<Rightarrow> bool" where
  "sim_has_custom_syscalls m = has_custom_syscalls (cpu (machine m))"

section \<open>Loading\<close>

fun init_registers :: "(nat \<times> u32) list \<Rightarrow> 'h machine \<Rightarrow> 'h machine option" where
  "init_registers [] s = Some s"
| "init_registers ((reg_idx, val) # rest) s = do { s \<leftarrow> set_reg s reg_idx val; init_registers rest s }"

text \<open>The bytes \<open>binary_bytes[offset..offset + len]\<close>, if the range ends inside the file.\<close>

definition file_range :: "'h env \<Rightarrow> u8 list \<Rightarrow> u64 \<Rightarrow> u64 \<Rightarrow> u8 list option option" where
  "file_range E binary_bytes offset len = do {
     stop \<leftarrow> add_or_panic E offset len;
     if unat stop \<le> length binary_bytes
     then do { stop' \<leftarrow> add_or_panic E offset len;
               bs \<leftarrow> slice_range binary_bytes (unat offset) (unat stop'); Some (Some bs) }
     else Some None
   }"

definition write_range :: "'h env \<Rightarrow> u32 \<Rightarrow> u8 list option \<Rightarrow> 'h machine \<Rightarrow> 'h machine option" where
  "write_range E addr r s = (case r of Some bs \<Rightarrow> mem_write_bytes E addr bs s | None \<Rightarrow> Some s)"

fun load_segments :: "'h env \<Rightarrow> u8 list \<Rightarrow> elf_phdr list \<Rightarrow> 'h machine \<Rightarrow> 'h machine option" where
  "load_segments E binary_bytes [] s = Some s"
| "load_segments E binary_bytes (phdr # rest) s = do {
     s \<leftarrow> (if p_type phdr = PT_LOAD
          then do {
            r \<leftarrow> file_range E binary_bytes (p_offset phdr) (p_filesz phdr);
            write_range E (ucast (p_vaddr phdr)) r s
          }
          else Some s);
     load_segments E binary_bytes rest s
   }"

fun segment_symbols :: "elf \<Rightarrow> elf_sym list \<Rightarrow> symbols \<Rightarrow> symbols" where
  "segment_symbols elf [] m = m"
| "segment_symbols elf (symb # rest) m =
     segment_symbols elf rest
       (case strtab_get_at elf (st_name symb) of
          Some name \<Rightarrow>
            if name \<noteq> [] \<and> st_value symb \<noteq> 0 then m(ucast (st_value symb) := Some name) else m
        | None \<Rightarrow> m)"

text \<open>The address of a section: its own, or the next free one at its alignment.\<close>

definition section_addr :: "'h env \<Rightarrow> elf_shdr \<Rightarrow> u32 \<Rightarrow> (u32 \<times> u32) option" where
  "section_addr E shdr current_addr =
     (if sh_addr shdr \<noteq> 0 then Some (ucast (sh_addr shdr), current_addr)
      else do {
        let align = (if sh_addralign shdr > 0 then ucast (sh_addralign shdr) else 4 :: u32);
        up \<leftarrow> add_or_panic E current_addr align;
        up \<leftarrow> sub_or_panic E up 1;
        low \<leftarrow> sub_or_panic E align 1;
        let assigned = up AND NOT low;
        nxt \<leftarrow> add_or_panic E assigned (ucast (sh_size shdr));
        Some (assigned, nxt)
      })"

fun load_sections ::
  "'h env \<Rightarrow> u8 list \<Rightarrow> elf_shdr list \<Rightarrow> u32 \<Rightarrow> u32 list \<Rightarrow> 'h machine \<Rightarrow> (u32 list \<times> 'h machine) option" where
  "load_sections E binary_bytes [] current_addr section_addrs s = Some (section_addrs, s)"
| "load_sections E binary_bytes (shdr # rest) current_addr section_addrs s =
     (if sh_size shdr > 0 \<and> (sh_flags shdr AND 2 \<noteq> 0 \<or> sh_type shdr = SHT_PROGBITS)
      then do {
        (addr, current_addr) \<leftarrow> section_addr E shdr current_addr;
        s \<leftarrow> (if sh_type shdr \<noteq> SHT_NOBITS
             then do {
               r \<leftarrow> file_range E binary_bytes (sh_offset shdr) (sh_size shdr);
               write_range E addr r s
             }
             else Some s);
        load_sections E binary_bytes rest current_addr (section_addrs @ [addr]) s
      }
      else load_sections E binary_bytes rest current_addr (section_addrs @ [0]) s)"

fun section_symbols :: "elf \<Rightarrow> u32 list \<Rightarrow> elf_sym list \<Rightarrow> symbols \<Rightarrow> u32 \<Rightarrow> symbols \<times> u32" where
  "section_symbols elf section_addrs [] m entry_point = (m, entry_point)"
| "section_symbols elf section_addrs (symb # rest) m entry_point =
     (case strtab_get_at elf (st_name symb) of
        Some name \<Rightarrow>
          if name \<noteq> []
          then let sec_base = (if st_shndx symb < length section_addrs then section_addrs ! st_shndx symb
                               else 0x10000);
                   addr = sec_base + ucast (st_value symb)
            in section_symbols elf section_addrs rest (m(addr := Some name))
                 (if (name = ''_start'' \<or> name = ''main'') \<and> entry_point = 0 then addr else entry_point)
          else section_symbols elf section_addrs rest m entry_point
      | None \<Rightarrow> section_symbols elf section_addrs rest m entry_point)"

definition start_symbol :: "elf \<Rightarrow> elf_sym \<Rightarrow> bool" where
  "start_symbol elf symb \<longleftrightarrow> strtab_get_at elf (st_name symb) = Some ''_start'' \<and> st_value symb \<noteq> 0"

definition start_override :: "elf \<Rightarrow> u32 \<Rightarrow> u32" where
  "start_override elf entry_point =
     (if e_entry elf \<noteq> 0
      then (case find (start_symbol elf) (syms elf) of Some symb \<Rightarrow> ucast (st_value symb) | None \<Rightarrow> entry_point)
      else entry_point)"

definition load_elf :: "'h env \<Rightarrow> u8 list \<Rightarrow> elf \<Rightarrow> 'h machine \<Rightarrow> ((u32 \<times> symbols) \<times> 'h machine) option" where
  "load_elf E binary_bytes elf s = do {
     let entry_point = (ucast (e_entry elf) :: u32);
     ((entry_point, m), s) \<leftarrow>
       (if program_headers elf \<noteq> []
        then do {
          s \<leftarrow> load_segments E binary_bytes (program_headers elf) s;
          Some ((entry_point, segment_symbols elf (syms elf) (\<lambda>_. None)), s)
        }
        else do {
          (section_addrs, s) \<leftarrow> load_sections E binary_bytes (section_headers elf) 0x10000 [] s;
          let (m, entry_point) = section_symbols elf section_addrs (syms elf) (\<lambda>_. None) entry_point;
          Some ((if entry_point = 0 then 0x10000 else entry_point, m), s)
        });
     let entry_point = start_override elf entry_point;
     Some ((entry_point, m), s\<lparr>cpu := (cpu s)\<lparr>pc := entry_point\<rparr>\<rparr>)
   }"

definition load_binary_with_args ::
  "(u8 list \<Rightarrow> elf option) \<Rightarrow> 'h env \<Rightarrow> u8 list \<Rightarrow> string list \<Rightarrow> 'h simulator \<Rightarrow> (u32 \<times> 'h simulator) option" where
  "load_binary_with_args elf_parse E binary_bytes args sim = do {
     let config = parse_args args;
     let s = \<lparr>cpu = cpu_new\<lparr>has_custom_syscalls := has_custom_syscalls (cpu (machine sim))\<rparr>,
              mem = memory_new, host = host (machine sim)\<rparr>;
     s \<leftarrow> init_registers (register_inits config) s;
     case elf_parse binary_bytes of
       Some elf \<Rightarrow> do {
         ((entry_point, m), s) \<leftarrow> load_elf E binary_bytes elf s;
         Some (entry_point, sim\<lparr>machine := s, symbols := m\<rparr>)
       }
     | None \<Rightarrow> do {
         s \<leftarrow> mem_write_bytes E 0 binary_bytes s;
         Some (0, sim\<lparr>machine := s\<lparr>cpu := (cpu s)\<lparr>pc := 0\<rparr>\<rparr>, symbols := (\<lambda>_. None)\<rparr>)
       }
   }"

text \<open>
  \<open>load_binary\<close> receives a JavaScript array; \<open>as_string\<close> is \<open>JsValue::as_string\<close>, which yields the string that a
  value holds, if it is one.
\<close>

definition load_binary ::
  "(u8 list \<Rightarrow> elf option) \<Rightarrow> ('v \<Rightarrow> string option) \<Rightarrow> 'h env \<Rightarrow> u8 list \<Rightarrow> 'v list \<Rightarrow> 'h simulator \<Rightarrow> (u32 \<times> 'h simulator) option" where
  "load_binary elf_parse as_string E binary_bytes args_js sim =
     load_binary_with_args elf_parse E binary_bytes (List.map_filter as_string args_js) sim"

section \<open>Running\<close>

definition lift_machine :: "'h simulator \<Rightarrow> ('a \<times> 'h machine) option \<Rightarrow> ('a \<times> 'h simulator) option" where
  "lift_machine m r = map_option (\<lambda>(a, s). (a, m\<lparr>machine := s\<rparr>)) r"

definition run_full :: "'h env \<Rightarrow> 'h simulator \<Rightarrow> (i32 \<times> 'h simulator) option option" where
  "run_full E m = map_option (lift_machine m) (run E (machine m))"

definition sim_run_slice :: "'h env \<Rightarrow> u32 \<Rightarrow> 'h simulator \<Rightarrow> (slice_outcome \<times> 'h simulator) option" where
  "sim_run_slice E budget m = lift_machine m (run_slice E budget (machine m))"

section \<open>Debugger settings\<close>

definition set_debug_mode :: "bool \<Rightarrow> 'h simulator \<Rightarrow> 'h simulator" where
  "set_debug_mode enabled = update_cpu (\<lambda>c. c\<lparr>debug_enabled := enabled\<rparr>)"

definition add_breakpoint :: "u32 \<Rightarrow> 'h simulator \<Rightarrow> 'h simulator" where
  "add_breakpoint addr = update_cpu (\<lambda>c. c\<lparr>breakpoints := insert addr (breakpoints c)\<rparr>)"

definition remove_breakpoint :: "u32 \<Rightarrow> 'h simulator \<Rightarrow> 'h simulator" where
  "remove_breakpoint addr = update_cpu (\<lambda>c. c\<lparr>breakpoints := breakpoints c - {addr}\<rparr>)"

definition clear_breakpoints :: "'h simulator \<Rightarrow> 'h simulator" where
  "clear_breakpoints = update_cpu (\<lambda>c. c\<lparr>breakpoints := {}\<rparr>)"

definition get_snapshot_js :: "bool \<Rightarrow> u32 \<Rightarrow> 'h simulator \<Rightarrow> debugger_snapshot option" where
  "get_snapshot_js is_breakpoint hit_address m = snapshot (cpu (machine m)) is_breakpoint hit_address"

section \<open>Debugger commands\<close>

definition is_call_instruction :: "u32 \<Rightarrow> bool" where
  "is_call_instruction inst =
     (if inst AND 0x3 \<noteq> 0x3
      then let op2 = inst AND 0x3; funct3 = shift_then_mask inst 13 0x7 in
        if op2 = 0x1 \<and> funct3 = 0x1 then True
        else if op2 = 0x2 \<and> funct3 = 0x4 \<and> shift_then_mask inst 12 1 = 1 then True
        else False
      else let decoded = decode32 inst in
        if d_opcode decoded = OP_JAL \<or> d_opcode decoded = OP_JALR
        then d_rd decoded = 1 \<or> d_rd decoded = 5
        else False)"

definition debug_step :: "'h env \<Rightarrow> 'h simulator \<Rightarrow> (debugger_snapshot \<times> 'h simulator) option" where
  "debug_step E m = do {
     (res, s) \<leftarrow> step_instruction E (machine m);
     let m = m\<lparr>machine := s\<rparr>;
     let (is_bp, hit_addr) = (case res of BreakpointHit addr \<Rightarrow> (True, addr) | _ \<Rightarrow> (False, 0));
     snap \<leftarrow> get_snapshot_js is_bp hit_addr m;
     Some (snap, m)
   }"

partial_function (option) run_until_breakpoint ::
  "'h env \<Rightarrow> 'h simulator \<Rightarrow> (debugger_snapshot \<times> 'h simulator) option option" where
  "run_until_breakpoint E m =
     (case run_slice E u32_max (machine m) of
        None \<Rightarrow> Some None
      | Some (outcome, s) \<Rightarrow>
          (let m = m\<lparr>machine := s\<rparr> in
           if so_status outcome = Breakpoint
           then Some (map_option (\<lambda>snap. (snap, m)) (get_snapshot_js True (so_pc outcome) m))
           else if so_status outcome = Halted \<or> so_status outcome = Trapped
           then Some (map_option (\<lambda>snap. (snap, m)) (get_snapshot_js False 0 m))
           else run_until_breakpoint E m))"

text \<open>
  Running to a temporary breakpoint, which \<open>debug_step_over\<close> and \<open>debug_step_out\<close> do alike: the breakpoint is
  removed afterwards unless it was set before.
\<close>

definition run_to_temporary ::
  "'h env \<Rightarrow> u32 \<Rightarrow> 'h simulator \<Rightarrow> (debugger_snapshot \<times> 'h simulator) option option" where
  "run_to_temporary E addr m =
     (let had_bp = (addr \<in> breakpoints (cpu (machine m))) in
      map_option (map_option (\<lambda>(snap, m). (snap, if had_bp then m else remove_breakpoint addr m)))
        (run_until_breakpoint E (add_breakpoint addr m)))"

definition debug_step_over ::
  "'h env \<Rightarrow> 'h simulator \<Rightarrow> (debugger_snapshot \<times> 'h simulator) option option" where
  "debug_step_over E m =
     (let current_pc = pc (cpu (machine m)) in
      case mem_read_u32 E current_pc (machine m) of
        None \<Rightarrow> Some None
      | Some (inst, s) \<Rightarrow>
          (let m = m\<lparr>machine := s\<rparr> in
           if is_call_instruction inst
           then (case add_or_panic E current_pc (if inst AND 0x3 = 0x3 then 4 else 2) of
                   None \<Rightarrow> Some None
                 | Some next_pc \<Rightarrow> run_to_temporary E next_pc m)
           else Some (debug_step E m)))"

definition debug_step_out ::
  "'h env \<Rightarrow> 'h simulator \<Rightarrow> (debugger_snapshot \<times> 'h simulator) option option" where
  "debug_step_out E m =
     (case idx 32 (regs (cpu (machine m))) 1 of
        None \<Rightarrow> Some None
      | Some ra \<Rightarrow> run_to_temporary E ra m)"

section \<open>Memory and registers\<close>

text \<open>The loop over \<open>i in 0..len\<close>, which reads byte by byte.\<close>

definition read_memory_range :: "'h env \<Rightarrow> u32 \<Rightarrow> u32 \<Rightarrow> 'h simulator \<Rightarrow> (u8 list \<times> 'h simulator) option" where
  "read_memory_range E addr len m = do {
     (bs, h) \<leftarrow> read_each (read_u8 E) addr 0 (unat len) (mem (machine m)) (host (machine m));
     Some (bs, m\<lparr>machine := (machine m)\<lparr>host := h\<rparr>\<rparr>)
   }"

definition write_memory_byte :: "'h env \<Rightarrow> u32 \<Rightarrow> u8 \<Rightarrow> 'h simulator \<Rightarrow> 'h simulator option" where
  "write_memory_byte E addr val m =
     map_option (\<lambda>s. m\<lparr>machine := s\<rparr>) (mem_write_u8 E addr val (machine m))"

definition write_register :: "nat \<Rightarrow> u32 \<Rightarrow> 'h simulator \<Rightarrow> 'h simulator option" where
  "write_register reg_idx val m =
     (if reg_idx < 32 then map_option (\<lambda>s. m\<lparr>machine := s\<rparr>) (set_reg (machine m) reg_idx val) else Some m)"

definition saturating_add :: "u32 \<Rightarrow> u32 \<Rightarrow> u32" where
  "saturating_add a b = (if unat a + unat b < 2 ^ 32 then a + b else u32_max)"

lemma saturating_add_progress:
  assumes "cur < saturating_add start len" "0 < step"
  shows "unat cur < unat (saturating_add cur step)"
proof (cases "unat cur + unat step < 2 ^ 32")
  case True
  with assms(2) show ?thesis by (simp add: saturating_add_def unat_word_ariths word_less_nat_alt)
next
  case False
  have "unat cur < unat (saturating_add start len)" using assms(1) by (simp add: word_less_nat_alt)
  also have "\<dots> \<le> 4294967295" using unsigned_less [of "saturating_add start len", where 'a = nat] by simp
  finally show ?thesis using False by (simp add: saturating_add_def)
qed

lemma disassemble_measure:
  assumes "cur < saturating_add start len" "0 < step"
  shows "4294967296 - unat (saturating_add cur step) < 4294967296 - unat cur"
  using saturating_add_progress [OF assms] unsigned_less [of cur, where 'a = nat] by simp

function disassemble_loop ::
  "'h env \<Rightarrow> u32 \<Rightarrow> u32 \<Rightarrow> u32 \<Rightarrow> 'h simulator \<Rightarrow> (DisassembledInst list \<times> 'h simulator) option" where
  "disassemble_loop E start_addr len current m =
     (if current < saturating_add start_addr len
      then do {
        (inst, s) \<leftarrow> mem_read_u32 E current (machine m);
        let m = m\<lparr>machine := s\<rparr>;
        let item = decode_instruction_with_symbols current inst (Some (symbols m));
        let step = (if di_is_compressed item then 2 else 4);
        (items, m) \<leftarrow> disassemble_loop E start_addr len (saturating_add current step) m;
        Some (item # items, m)
      }
      else Some ([], m))"
  by pat_completeness auto
termination
  by (relation "measure (\<lambda>(E, a, l, c, m). 2 ^ 32 - unat c)")
     (auto simp: disassemble_measure)

declare disassemble_loop.simps [simp del]

definition disassemble_range ::
  "'h env \<Rightarrow> u32 \<Rightarrow> u32 \<Rightarrow> 'h simulator \<Rightarrow> (DisassembledInst list \<times> 'h simulator) option" where
  "disassemble_range E start_addr len m = disassemble_loop E start_addr len start_addr m"

definition get_symbol_at :: "u32 \<Rightarrow> 'h simulator \<Rightarrow> string option" where
  "get_symbol_at addr m = symbols m addr"

section \<open>The one-shot entry point\<close>

definition run_riscv_binary ::
  "(u8 list \<Rightarrow> elf option) \<Rightarrow> ('v \<Rightarrow> string option) \<Rightarrow> 'h env \<Rightarrow> u8 list \<Rightarrow> 'v list \<Rightarrow> 'h \<Rightarrow> (i32 \<times> 'h simulator) option option" where
  "run_riscv_binary elf_parse as_string E binary_bytes args_js h =
     (case load_binary elf_parse as_string E binary_bytes args_js (simulator_new h) of
        None \<Rightarrow> Some None
      | Some (_, sim) \<Rightarrow> run_full E sim)"

end
