(* ===== verification/Encode.thy ===== *)
theory Encode
  imports Inst
begin

text \<open>
  The instruction formats of the RISC-V manual, as the repository's instruction tests assemble them
  (\<open>tests/instruction_tests.rs\<close>), and the round trips with the decoder of \<open>src/inst.rs\<close>: every field and
  every immediate that is assembled is read back, and the decoded fields reassemble the instruction.
\<close>

section \<open>Encoders\<close>

definition encode_r :: "u32 \<Rightarrow> nat \<Rightarrow> u32 \<Rightarrow> nat \<Rightarrow> nat \<Rightarrow> u32 \<Rightarrow> u32" where
  "encode_r opcode rd funct3 rs1 rs2 funct7 =
     push_bit 25 funct7 OR push_bit 20 (word_of_nat rs2) OR push_bit 15 (word_of_nat rs1)
     OR push_bit 12 funct3 OR push_bit 7 (word_of_nat rd) OR opcode"

definition encode_i :: "u32 \<Rightarrow> nat \<Rightarrow> u32 \<Rightarrow> nat \<Rightarrow> i32 \<Rightarrow> u32" where
  "encode_i opcode rd funct3 rs1 imm =
     push_bit 20 (imm AND 0xFFF) OR push_bit 15 (word_of_nat rs1)
     OR push_bit 12 funct3 OR push_bit 7 (word_of_nat rd) OR opcode"

definition encode_s :: "u32 \<Rightarrow> u32 \<Rightarrow> nat \<Rightarrow> nat \<Rightarrow> i32 \<Rightarrow> u32" where
  "encode_s opcode funct3 rs1 rs2 imm =
     push_bit 25 (drop_bit 5 imm AND 0x7F) OR push_bit 20 (word_of_nat rs2) OR push_bit 15 (word_of_nat rs1)
     OR push_bit 12 funct3 OR push_bit 7 (imm AND 0x1F) OR opcode"

definition encode_b :: "u32 \<Rightarrow> u32 \<Rightarrow> nat \<Rightarrow> nat \<Rightarrow> i32 \<Rightarrow> u32" where
  "encode_b opcode funct3 rs1 rs2 imm =
     push_bit 31 (drop_bit 12 imm AND 1) OR push_bit 25 (drop_bit 5 imm AND 0x3F)
     OR push_bit 20 (word_of_nat rs2) OR push_bit 15 (word_of_nat rs1) OR push_bit 12 funct3
     OR push_bit 8 (drop_bit 1 imm AND 0xF) OR push_bit 7 (drop_bit 11 imm AND 1) OR opcode"

definition encode_u :: "u32 \<Rightarrow> nat \<Rightarrow> u32 \<Rightarrow> u32" where
  "encode_u opcode rd imm = (imm AND 0xFFFFF000) OR push_bit 7 (word_of_nat rd) OR opcode"

definition encode_j :: "u32 \<Rightarrow> nat \<Rightarrow> i32 \<Rightarrow> u32" where
  "encode_j opcode rd imm =
     push_bit 31 (drop_bit 20 imm AND 1) OR push_bit 21 (drop_bit 1 imm AND 0x3FF)
     OR push_bit 20 (drop_bit 11 imm AND 1) OR push_bit 12 (drop_bit 12 imm AND 0xFF)
     OR push_bit 7 (word_of_nat rd) OR opcode"

definition encode_r4 :: "u32 \<Rightarrow> nat \<Rightarrow> u32 \<Rightarrow> nat \<Rightarrow> nat \<Rightarrow> nat \<Rightarrow> u32 \<Rightarrow> u32" where
  "encode_r4 opcode rd funct3 rs1 rs2 rs3 fmt =
     push_bit 27 (word_of_nat rs3) OR push_bit 25 fmt OR push_bit 20 (word_of_nat rs2)
     OR push_bit 15 (word_of_nat rs1) OR push_bit 12 funct3 OR push_bit 7 (word_of_nat rd) OR opcode"

lemmas encode_defs = encode_r_def encode_i_def encode_s_def encode_b_def encode_u_def encode_j_def
  encode_r4_def

lemmas imm_defs = i_imm_def s_imm_def b_imm_def u_imm_def j_imm_def

section \<open>Fields in range leave the bits above them clear\<close>

lemma not_bit_reg: "r < 32 \<Longrightarrow> 5 \<le> n \<Longrightarrow> \<not> bit (r :: nat) n"
  by (rule not_bit_nat [where m = 5]) simp_all

lemma not_bit_funct3: "w < 8 \<Longrightarrow> 3 \<le> n \<Longrightarrow> \<not> bit (w :: u32) n"
  by (rule not_bit_word [where m = 3]) (simp_all add: word_less_nat_alt)

lemma not_bit_funct7: "w < 128 \<Longrightarrow> 7 \<le> n \<Longrightarrow> \<not> bit (w :: u32) n"
  by (rule not_bit_word [where m = 7]) (simp_all add: word_less_nat_alt)

lemmas field_simps32 = not_bit_reg not_bit_funct3 not_bit_funct7

section \<open>Round trips of the immediates\<close>

lemma i_imm_encode_i:
  assumes "opcode < 128" "funct3 < 8" "rs1 < 32" "rd < 32"
  shows "i_imm (decode32 (encode_i opcode rd funct3 rs1 imm)) = signed_take_bit 11 imm"
  by (rule word32_eqI) (simp_all add: imm_defs encode_defs bit_simps assms field_simps32)

lemma s_imm_encode_s:
  assumes "opcode < 128" "funct3 < 8" "rs1 < 32" "rs2 < 32"
  shows "s_imm (decode32 (encode_s opcode funct3 rs1 rs2 imm)) = signed_take_bit 11 imm"
  by (rule word32_eqI) (simp_all add: imm_defs encode_defs bit_simps assms field_simps32)

lemma b_imm_encode_b:
  assumes "opcode < 128" "funct3 < 8" "rs1 < 32" "rs2 < 32"
  shows "b_imm (decode32 (encode_b opcode funct3 rs1 rs2 imm)) = signed_take_bit 12 (imm AND NOT 1)"
  by (rule word32_eqI) (simp_all add: imm_defs encode_defs bit_simps assms field_simps32)

lemma u_imm_encode_u:
  assumes "opcode < 128" "rd < 32"
  shows "u_imm (decode32 (encode_u opcode rd imm)) = imm AND 0xFFFFF000"
  by (rule word32_eqI) (simp_all add: imm_defs encode_defs bit_simps assms field_simps32)

lemma j_imm_encode_j:
  assumes "opcode < 128" "rd < 32"
  shows "j_imm (decode32 (encode_j opcode rd imm)) = signed_take_bit 20 (imm AND NOT 1)"
  by (rule word32_eqI) (simp_all add: imm_defs encode_defs bit_simps assms field_simps32)

section \<open>Round trips of the fields\<close>

lemma field_encode_r:
  assumes "opcode < 128" "funct3 < 8" "funct7 < 128" "rs1 < 32" "rs2 < 32" "rd < 32"
  shows "encode_r opcode rd funct3 rs1 rs2 funct7 AND 0x7F = opcode"
    "shift_then_mask (encode_r opcode rd funct3 rs1 rs2 funct7) 7 0x1F = word_of_nat rd"
    "shift_then_mask (encode_r opcode rd funct3 rs1 rs2 funct7) 15 0x1F = word_of_nat rs1"
    "shift_then_mask (encode_r opcode rd funct3 rs1 rs2 funct7) 20 0x1F = word_of_nat rs2"
    "shift_then_mask (encode_r opcode rd funct3 rs1 rs2 funct7) 12 0x7 = funct3"
    "shift_then_mask (encode_r opcode rd funct3 rs1 rs2 funct7) 25 0x7F = funct7"
  by (rule word32_eqI; simp add: encode_defs bit_simps assms field_simps32)+

lemma field_encode_i:
  assumes "opcode < 128" "funct3 < 8" "rs1 < 32" "rd < 32"
  shows "encode_i opcode rd funct3 rs1 imm AND 0x7F = opcode"
    "shift_then_mask (encode_i opcode rd funct3 rs1 imm) 7 0x1F = word_of_nat rd"
    "shift_then_mask (encode_i opcode rd funct3 rs1 imm) 15 0x1F = word_of_nat rs1"
    "shift_then_mask (encode_i opcode rd funct3 rs1 imm) 12 0x7 = funct3"
    "shift_then_mask (encode_i opcode rd funct3 rs1 imm) 20 0x1F = imm AND 0x1F"
    "shift_then_mask (encode_i opcode rd funct3 rs1 imm) 25 0x7F = drop_bit 5 imm AND 0x7F"
  by (rule word32_eqI; simp add: encode_defs bit_simps assms field_simps32)+

lemma field_encode_s:
  assumes "opcode < 128" "funct3 < 8" "rs1 < 32" "rs2 < 32"
  shows "encode_s opcode funct3 rs1 rs2 imm AND 0x7F = opcode"
    "shift_then_mask (encode_s opcode funct3 rs1 rs2 imm) 15 0x1F = word_of_nat rs1"
    "shift_then_mask (encode_s opcode funct3 rs1 rs2 imm) 20 0x1F = word_of_nat rs2"
    "shift_then_mask (encode_s opcode funct3 rs1 rs2 imm) 12 0x7 = funct3"
  by (rule word32_eqI; simp add: encode_defs bit_simps assms field_simps32)+

lemma field_encode_b:
  assumes "opcode < 128" "funct3 < 8" "rs1 < 32" "rs2 < 32"
  shows "encode_b opcode funct3 rs1 rs2 imm AND 0x7F = opcode"
    "shift_then_mask (encode_b opcode funct3 rs1 rs2 imm) 15 0x1F = word_of_nat rs1"
    "shift_then_mask (encode_b opcode funct3 rs1 rs2 imm) 20 0x1F = word_of_nat rs2"
    "shift_then_mask (encode_b opcode funct3 rs1 rs2 imm) 12 0x7 = funct3"
  by (rule word32_eqI; simp add: encode_defs bit_simps assms field_simps32)+

lemma field_encode_uj:
  assumes "opcode < 128" "rd < 32"
  shows "encode_u opcode rd imm AND 0x7F = opcode"
    "shift_then_mask (encode_u opcode rd imm) 7 0x1F = word_of_nat rd"
    "encode_j opcode rd imm AND 0x7F = opcode"
    "shift_then_mask (encode_j opcode rd imm) 7 0x1F = word_of_nat rd"
  by (rule word32_eqI; simp add: encode_defs bit_simps assms field_simps32)+

lemma not_bit_fmt: "w < 4 \<Longrightarrow> 2 \<le> n \<Longrightarrow> \<not> bit (w :: u32) n"
  by (rule not_bit_word [where m = 2]) (simp_all add: word_less_nat_alt)

lemma field_encode_r4:
  assumes "opcode < 128" "funct3 < 8" "rs1 < 32" "rs2 < 32" "rs3 < 32" "rd < 32" "fmt < 4"
  shows "encode_r4 opcode rd funct3 rs1 rs2 rs3 fmt AND 0x7F = opcode"
    "shift_then_mask (encode_r4 opcode rd funct3 rs1 rs2 rs3 fmt) 7 0x1F = word_of_nat rd"
    "shift_then_mask (encode_r4 opcode rd funct3 rs1 rs2 rs3 fmt) 15 0x1F = word_of_nat rs1"
    "shift_then_mask (encode_r4 opcode rd funct3 rs1 rs2 rs3 fmt) 20 0x1F = word_of_nat rs2"
    "shift_then_mask (encode_r4 opcode rd funct3 rs1 rs2 rs3 fmt) 27 0x1F = word_of_nat rs3"
    "shift_then_mask (encode_r4 opcode rd funct3 rs1 rs2 rs3 fmt) 25 0x3 = fmt"
  by (rule word32_eqI; simp add: encode_defs bit_simps assms field_simps32 not_bit_fmt)+

lemma unat_reg: "r < 32 \<Longrightarrow> unat (word_of_nat r :: u32) = r"
  by (simp add: unat_of_nat)

text \<open>An assembled instruction decodes to the fields it was assembled from.\<close>

lemma decode_encode_r:
  assumes "opcode < 128" "funct3 < 8" "funct7 < 128" "rs1 < 32" "rs2 < 32" "rd < 32"
  shows "d_opcode (decode32 (encode_r opcode rd funct3 rs1 rs2 funct7)) = ucast opcode"
    "d_rd (decode32 (encode_r opcode rd funct3 rs1 rs2 funct7)) = rd"
    "d_rs1 (decode32 (encode_r opcode rd funct3 rs1 rs2 funct7)) = rs1"
    "d_rs2 (decode32 (encode_r opcode rd funct3 rs1 rs2 funct7)) = rs2"
    "d_funct3 (decode32 (encode_r opcode rd funct3 rs1 rs2 funct7)) = ucast funct3"
    "d_funct7 (decode32 (encode_r opcode rd funct3 rs1 rs2 funct7)) = ucast funct7"
  by (simp_all add: decode32_def field_encode_r assms unat_reg)

lemma decode_encode_i:
  assumes "opcode < 128" "funct3 < 8" "rs1 < 32" "rd < 32"
  shows "d_opcode (decode32 (encode_i opcode rd funct3 rs1 imm)) = ucast opcode"
    "d_rd (decode32 (encode_i opcode rd funct3 rs1 imm)) = rd"
    "d_rs1 (decode32 (encode_i opcode rd funct3 rs1 imm)) = rs1"
    "d_funct3 (decode32 (encode_i opcode rd funct3 rs1 imm)) = ucast funct3"
    "d_rs2 (decode32 (encode_i opcode rd funct3 rs1 imm)) = unat (imm AND 0x1F)"
    "d_funct7 (decode32 (encode_i opcode rd funct3 rs1 imm)) = ucast (drop_bit 5 imm AND 0x7F)"
  by (simp_all add: decode32_def field_encode_i assms unat_reg)

lemma decode_encode_s:
  assumes "opcode < 128" "funct3 < 8" "rs1 < 32" "rs2 < 32"
  shows "d_opcode (decode32 (encode_s opcode funct3 rs1 rs2 imm)) = ucast opcode"
    "d_rs1 (decode32 (encode_s opcode funct3 rs1 rs2 imm)) = rs1"
    "d_rs2 (decode32 (encode_s opcode funct3 rs1 rs2 imm)) = rs2"
    "d_funct3 (decode32 (encode_s opcode funct3 rs1 rs2 imm)) = ucast funct3"
  by (simp_all add: decode32_def field_encode_s assms unat_reg)

lemma decode_encode_b:
  assumes "opcode < 128" "funct3 < 8" "rs1 < 32" "rs2 < 32"
  shows "d_opcode (decode32 (encode_b opcode funct3 rs1 rs2 imm)) = ucast opcode"
    "d_rs1 (decode32 (encode_b opcode funct3 rs1 rs2 imm)) = rs1"
    "d_rs2 (decode32 (encode_b opcode funct3 rs1 rs2 imm)) = rs2"
    "d_funct3 (decode32 (encode_b opcode funct3 rs1 rs2 imm)) = ucast funct3"
  by (simp_all add: decode32_def field_encode_b assms unat_reg)

lemma decode_encode_uj:
  assumes "opcode < 128" "rd < 32"
  shows "d_opcode (decode32 (encode_u opcode rd imm)) = ucast opcode"
    "d_rd (decode32 (encode_u opcode rd imm)) = rd"
    "d_opcode (decode32 (encode_j opcode rd imm)) = ucast opcode"
    "d_rd (decode32 (encode_j opcode rd imm)) = rd"
  by (simp_all add: decode32_def field_encode_uj assms unat_reg)

lemma decode_encode_r4:
  assumes "opcode < 128" "funct3 < 8" "rs1 < 32" "rs2 < 32" "rs3 < 32" "rd < 32" "fmt < 4"
  shows "d_opcode (decode32 (encode_r4 opcode rd funct3 rs1 rs2 rs3 fmt)) = ucast opcode"
    "d_rd (decode32 (encode_r4 opcode rd funct3 rs1 rs2 rs3 fmt)) = rd"
    "d_rs1 (decode32 (encode_r4 opcode rd funct3 rs1 rs2 rs3 fmt)) = rs1"
    "d_rs2 (decode32 (encode_r4 opcode rd funct3 rs1 rs2 rs3 fmt)) = rs2"
    "d_rs3 (decode32 (encode_r4 opcode rd funct3 rs1 rs2 rs3 fmt)) = rs3"
    "shift_then_mask (d_raw (decode32 (encode_r4 opcode rd funct3 rs1 rs2 rs3 fmt))) 25 3 = fmt"
  by (simp_all add: decode32_def field_encode_r4 assms unat_reg)

lemmas decode_encode = decode_encode_r decode_encode_i decode_encode_s decode_encode_b decode_encode_uj
  i_imm_encode_i s_imm_encode_s b_imm_encode_b u_imm_encode_u j_imm_encode_j

section \<open>The decoded fields reassemble the instruction\<close>

lemma encode_decode:
  "encode_i (w AND 0x7F) (d_rd (decode32 w)) (shift_then_mask w 12 7) (d_rs1 (decode32 w))
     (i_imm (decode32 w)) = w"
  "encode_s (w AND 0x7F) (shift_then_mask w 12 7) (d_rs1 (decode32 w)) (d_rs2 (decode32 w))
     (s_imm (decode32 w)) = w"
  "encode_b (w AND 0x7F) (shift_then_mask w 12 7) (d_rs1 (decode32 w)) (d_rs2 (decode32 w))
     (b_imm (decode32 w)) = w"
  "encode_u (w AND 0x7F) (d_rd (decode32 w)) (u_imm (decode32 w)) = w"
  "encode_j (w AND 0x7F) (d_rd (decode32 w)) (j_imm (decode32 w)) = w"
  by (rule word32_eqI; simp add: decode32_def imm_defs encode_defs bit_simps)+

text \<open>The fields of the formats without an immediate, as the decoder names them.\<close>

lemma encode_decode_r:
  "encode_r (ucast (d_opcode (decode32 w))) (d_rd (decode32 w)) (ucast (d_funct3 (decode32 w))) (d_rs1 (decode32 w))
     (d_rs2 (decode32 w)) (ucast (d_funct7 (decode32 w))) = w"
  "encode_r4 (ucast (d_opcode (decode32 w))) (d_rd (decode32 w)) (ucast (d_funct3 (decode32 w))) (d_rs1 (decode32 w))
     (d_rs2 (decode32 w)) (d_rs3 (decode32 w)) (shift_then_mask w 25 3) = w"
  by (rule word32_eqI; simp add: decode32_def encode_defs shift_then_mask_def bit_simps)+

end
