(* ===== verification/Isa.thy ===== *)
theory Isa
  imports Safe_Exec Encode
begin

text \<open>
  The integer instruction set as the RISC-V manual describes it, independent of the emulator: abstract
  syntax, an assembler over the instruction formats, and the effect of each instruction on an
  architectural state of program counter, integer registers and byte memory, with arithmetic on
  mathematical integers. \<open>Isa_Refine\<close> proves that \<open>execute_inst32\<close> implements it.
\<close>

section \<open>Syntax\<close>

datatype branch_op = BEQ | BNE | BLT | BGE | BLTU | BGEU
datatype load_op = LB | LH | LW | LBU | LHU
datatype store_op = SB | SH | SW
datatype imm_op = ADDI | SLTI | SLTIU | XORI | ORI | ANDI
datatype shift_op = SLLI | SRLI | SRAI
datatype alu_op = ADD | SUB | SLL | SLT | SLTU | RXOR | SRL | SRA | ROR | RAND
datatype mul_op = MUL | MULH | MULHSU | MULHU | DIV | DIVU | REM | REMU
datatype amo_op = LR | SC | AMOSWAP | AMOADD | AMOXOR | AMOAND | AMOOR | AMOMIN | AMOMAX | AMOMINU | AMOMAXU

datatype instr =
    LUI nat u32
  | AUIPC nat u32
  | JAL nat i32
  | JALR nat nat i32
  | Branch branch_op nat nat i32
  | Load load_op nat nat i32
  | Store store_op nat nat i32
  | OpImm imm_op nat nat i32
  | Shift shift_op nat nat nat
  | Op alu_op nat nat nat
  | MulDiv mul_op nat nat nat
  | Amo amo_op u32 nat nat nat
  | Fence u32 nat nat i32

section \<open>Assembler\<close>

fun branch_funct3 :: "branch_op \<Rightarrow> u32" where
  "branch_funct3 BEQ = 0" | "branch_funct3 BNE = 1" | "branch_funct3 BLT = 4"
| "branch_funct3 BGE = 5" | "branch_funct3 BLTU = 6" | "branch_funct3 BGEU = 7"

fun load_funct3 :: "load_op \<Rightarrow> u32" where
  "load_funct3 LB = 0" | "load_funct3 LH = 1" | "load_funct3 LW = 2"
| "load_funct3 LBU = 4" | "load_funct3 LHU = 5"

fun store_funct3 :: "store_op \<Rightarrow> u32" where
  "store_funct3 SB = 0" | "store_funct3 SH = 1" | "store_funct3 SW = 2"

fun imm_funct3 :: "imm_op \<Rightarrow> u32" where
  "imm_funct3 ADDI = 0" | "imm_funct3 SLTI = 2" | "imm_funct3 SLTIU = 3"
| "imm_funct3 XORI = 4" | "imm_funct3 ORI = 6" | "imm_funct3 ANDI = 7"

fun shift_functs :: "shift_op \<Rightarrow> u32 \<times> u32" where
  "shift_functs SLLI = (1, 0x00)" | "shift_functs SRLI = (5, 0x00)" | "shift_functs SRAI = (5, 0x20)"

fun alu_functs :: "alu_op \<Rightarrow> u32 \<times> u32" where
  "alu_functs ADD = (0, 0x00)" | "alu_functs SUB = (0, 0x20)" | "alu_functs SLL = (1, 0x00)"
| "alu_functs SLT = (2, 0x00)" | "alu_functs SLTU = (3, 0x00)" | "alu_functs RXOR = (4, 0x00)"
| "alu_functs SRL = (5, 0x00)" | "alu_functs SRA = (5, 0x20)" | "alu_functs ROR = (6, 0x00)"
| "alu_functs RAND = (7, 0x00)"

fun mul_funct3 :: "mul_op \<Rightarrow> u32" where
  "mul_funct3 MUL = 0" | "mul_funct3 MULH = 1" | "mul_funct3 MULHSU = 2" | "mul_funct3 MULHU = 3"
| "mul_funct3 DIV = 4" | "mul_funct3 DIVU = 5" | "mul_funct3 REM = 6" | "mul_funct3 REMU = 7"

fun amo_funct7 :: "amo_op \<Rightarrow> u32" where
  "amo_funct7 LR = 0x08" | "amo_funct7 SC = 0x0C" | "amo_funct7 AMOSWAP = 0x04" | "amo_funct7 AMOADD = 0x00"
| "amo_funct7 AMOXOR = 0x10" | "amo_funct7 AMOAND = 0x30" | "amo_funct7 AMOOR = 0x20"
| "amo_funct7 AMOMIN = 0x40" | "amo_funct7 AMOMAX = 0x50" | "amo_funct7 AMOMINU = 0x60"
| "amo_funct7 AMOMAXU = 0x70"

fun asm :: "instr \<Rightarrow> u32" where
  "asm (LUI rd imm) = encode_u 0x37 rd imm"
| "asm (AUIPC rd imm) = encode_u 0x17 rd imm"
| "asm (JAL rd off) = encode_j 0x6F rd off"
| "asm (JALR rd rs1 imm) = encode_i 0x67 rd 0 rs1 imm"
| "asm (Branch b rs1 rs2 off) = encode_b 0x63 (branch_funct3 b) rs1 rs2 off"
| "asm (Load l rd rs1 imm) = encode_i 0x03 rd (load_funct3 l) rs1 imm"
| "asm (Store t rs1 rs2 imm) = encode_s 0x23 (store_funct3 t) rs1 rs2 imm"
| "asm (OpImm i rd rs1 imm) = encode_i 0x13 rd (imm_funct3 i) rs1 imm"
| "asm (Shift h rd rs1 shamt) = encode_r 0x13 rd (fst (shift_functs h)) rs1 shamt (snd (shift_functs h))"
| "asm (Op a rd rs1 rs2) = encode_r 0x33 rd (fst (alu_functs a)) rs1 rs2 (snd (alu_functs a))"
| "asm (MulDiv m rd rs1 rs2) = encode_r 0x33 rd (mul_funct3 m) rs1 rs2 0x01"
| "asm (Amo a aqrl rd rs1 rs2) = encode_r 0x2F rd 2 rs1 rs2 (amo_funct7 a OR aqrl)"
| "asm (Fence funct3 rd rs1 imm) = encode_i 0x0F rd funct3 rs1 imm"

text \<open>Registers are five bits wide and immediates fit their fields.\<close>

fun wf_instr :: "instr \<Rightarrow> bool" where
  "wf_instr (LUI rd imm) = (rd < 32 \<and> imm AND 0xFFFFF000 = imm)"
| "wf_instr (AUIPC rd imm) = (rd < 32 \<and> imm AND 0xFFFFF000 = imm)"
| "wf_instr (JAL rd off) = (rd < 32 \<and> signed_take_bit 20 (off AND NOT 1) = off)"
| "wf_instr (JALR rd rs1 imm) = (rd < 32 \<and> rs1 < 32 \<and> signed_take_bit 11 imm = imm)"
| "wf_instr (Branch b rs1 rs2 off) = (rs1 < 32 \<and> rs2 < 32 \<and> signed_take_bit 12 (off AND NOT 1) = off)"
| "wf_instr (Load l rd rs1 imm) = (rd < 32 \<and> rs1 < 32 \<and> signed_take_bit 11 imm = imm)"
| "wf_instr (Store t rs1 rs2 imm) = (rs1 < 32 \<and> rs2 < 32 \<and> signed_take_bit 11 imm = imm)"
| "wf_instr (OpImm i rd rs1 imm) = (rd < 32 \<and> rs1 < 32 \<and> signed_take_bit 11 imm = imm)"
| "wf_instr (Shift h rd rs1 shamt) = (rd < 32 \<and> rs1 < 32 \<and> shamt < 32)"
| "wf_instr (Op a rd rs1 rs2) = (rd < 32 \<and> rs1 < 32 \<and> rs2 < 32)"
| "wf_instr (MulDiv m rd rs1 rs2) = (rd < 32 \<and> rs1 < 32 \<and> rs2 < 32)"
| "wf_instr (Amo a aqrl rd rs1 rs2) = (aqrl < 4 \<and> rd < 32 \<and> rs1 < 32 \<and> rs2 < 32)"
| "wf_instr (Fence funct3 rd rs1 imm) = ((funct3 = 0 \<or> funct3 = 1) \<and> rd < 32 \<and> rs1 < 32)"

section \<open>Architectural state\<close>

record arch =
  a_pc :: u32
  a_x :: "nat \<Rightarrow> u32"
  a_mem :: "u32 \<Rightarrow> u8"

definition arch_set :: "arch \<Rightarrow> nat \<Rightarrow> u32 \<Rightarrow> arch" where
  "arch_set a r v = (if r = 0 then a else a\<lparr>a_x := (a_x a)(r := v)\<rparr>)"

definition load16 :: "(u32 \<Rightarrow> u8) \<Rightarrow> u32 \<Rightarrow> u16" where
  "load16 m a = from_le_bytes2 (m a) (m (a + 1))"

definition load32 :: "(u32 \<Rightarrow> u8) \<Rightarrow> u32 \<Rightarrow> u32" where
  "load32 m a = from_le_bytes4 (m a) (m (a + 1)) (m (a + 2)) (m (a + 3))"

definition store16 :: "(u32 \<Rightarrow> u8) \<Rightarrow> u32 \<Rightarrow> u16 \<Rightarrow> (u32 \<Rightarrow> u8)" where
  "store16 m a v = store_bytes m a [le_byte 0 v, le_byte 1 v]"

definition store32 :: "(u32 \<Rightarrow> u8) \<Rightarrow> u32 \<Rightarrow> u32 \<Rightarrow> (u32 \<Rightarrow> u8)" where
  "store32 m a v = store_bytes m a [le_byte 0 v, le_byte 1 v, le_byte 2 v, le_byte 3 v]"

section \<open>Effect of an instruction\<close>

fun branch_sem :: "branch_op \<Rightarrow> u32 \<Rightarrow> u32 \<Rightarrow> bool" where
  "branch_sem BEQ x y = (x = y)"
| "branch_sem BNE x y = (x \<noteq> y)"
| "branch_sem BLT x y = (sint x < sint y)"
| "branch_sem BGE x y = (sint y \<le> sint x)"
| "branch_sem BLTU x y = (uint x < uint y)"
| "branch_sem BGEU x y = (uint y \<le> uint x)"

fun load_sem :: "load_op \<Rightarrow> (u32 \<Rightarrow> u8) \<Rightarrow> u32 \<Rightarrow> u32" where
  "load_sem LB m a = word_of_int (sint (m a))"
| "load_sem LH m a = word_of_int (sint (load16 m a))"
| "load_sem LW m a = load32 m a"
| "load_sem LBU m a = word_of_int (uint (m a))"
| "load_sem LHU m a = word_of_int (uint (load16 m a))"

fun store_sem :: "store_op \<Rightarrow> (u32 \<Rightarrow> u8) \<Rightarrow> u32 \<Rightarrow> u32 \<Rightarrow> (u32 \<Rightarrow> u8)" where
  "store_sem SB m a v = m(a := word_of_int (uint v))"
| "store_sem SH m a v = store16 m a (word_of_int (uint v))"
| "store_sem SW m a v = store32 m a v"

fun alu_sem :: "alu_op \<Rightarrow> u32 \<Rightarrow> u32 \<Rightarrow> u32" where
  "alu_sem ADD x y = word_of_int (sint x + sint y)"
| "alu_sem SUB x y = word_of_int (sint x - sint y)"
| "alu_sem SLL x y = word_of_int (uint x * 2 ^ (unat y mod 32))"
| "alu_sem SLT x y = (if sint x < sint y then 1 else 0)"
| "alu_sem SLTU x y = (if uint x < uint y then 1 else 0)"
| "alu_sem RXOR x y = x XOR y"
| "alu_sem SRL x y = word_of_int (uint x div 2 ^ (unat y mod 32))"
| "alu_sem SRA x y = word_of_int (sint x div 2 ^ (unat y mod 32))"
| "alu_sem ROR x y = x OR y"
| "alu_sem RAND x y = x AND y"

fun imm_alu :: "imm_op \<Rightarrow> alu_op" where
  "imm_alu ADDI = ADD" | "imm_alu SLTI = SLT" | "imm_alu SLTIU = SLTU"
| "imm_alu XORI = RXOR" | "imm_alu ORI = ROR" | "imm_alu ANDI = RAND"

fun shift_alu :: "shift_op \<Rightarrow> alu_op" where
  "shift_alu SLLI = SLL" | "shift_alu SRLI = SRL" | "shift_alu SRAI = SRA"

text \<open>
  Multiplication gives the low or the high half of the exact product. Division truncates toward zero; by
  zero the quotient is all ones and the remainder the dividend, and the one quotient that does not fit,
  the most negative number by -1, wraps to the dividend.
\<close>

fun mul_sem :: "mul_op \<Rightarrow> u32 \<Rightarrow> u32 \<Rightarrow> u32" where
  "mul_sem MUL x y = word_of_int (sint x * sint y)"
| "mul_sem MULH x y = word_of_int (sint x * sint y div 2 ^ 32)"
| "mul_sem MULHSU x y = word_of_int (sint x * uint y div 2 ^ 32)"
| "mul_sem MULHU x y = word_of_int (uint x * uint y div 2 ^ 32)"
| "mul_sem DIV x y = (if y = 0 then - 1 else word_of_int (sgn (sint x * sint y) * (\<bar>sint x\<bar> div \<bar>sint y\<bar>)))"
| "mul_sem DIVU x y = (if y = 0 then - 1 else word_of_int (uint x div uint y))"
| "mul_sem REM x y = (if y = 0 then x else word_of_int (sgn (sint x) * (\<bar>sint x\<bar> mod \<bar>sint y\<bar>)))"
| "mul_sem REMU x y = (if y = 0 then x else word_of_int (uint x mod uint y))"

text \<open>
  The value an atomic instruction stores, if it stores, and the value it returns. A store-conditional always
  succeeds in the emulator, which is one hart without reservations.
\<close>

fun amo_store :: "amo_op \<Rightarrow> u32 \<Rightarrow> u32 \<Rightarrow> u32 option" where
  "amo_store LR old x = None"
| "amo_store SC old x = Some x"
| "amo_store AMOSWAP old x = Some x"
| "amo_store AMOADD old x = Some (word_of_int (sint old + sint x))"
| "amo_store AMOXOR old x = Some (old XOR x)"
| "amo_store AMOAND old x = Some (old AND x)"
| "amo_store AMOOR old x = Some (old OR x)"
| "amo_store AMOMIN old x = Some (word_of_int (min (sint old) (sint x)))"
| "amo_store AMOMAX old x = Some (word_of_int (max (sint old) (sint x)))"
| "amo_store AMOMINU old x = Some (word_of_int (min (uint old) (uint x)))"
| "amo_store AMOMAXU old x = Some (word_of_int (max (uint old) (uint x)))"

definition amo_result :: "amo_op \<Rightarrow> u32 \<Rightarrow> u32" where
  "amo_result op old = (if op = SC then 0 else old)"

text \<open>
  The effect of an instruction whose encoding is \<open>len\<close> bytes long: 4, or 2 for a compressed one, which moves the
  next instruction and the return address. Memory ordering bits and fences have no effect on a single hart.
\<close>

definition advance :: "u32 \<Rightarrow> arch \<Rightarrow> arch" where
  "advance len a = a\<lparr>a_pc := a_pc a + len\<rparr>"

fun isa :: "u32 \<Rightarrow> instr \<Rightarrow> arch \<Rightarrow> arch" where
  "isa len (LUI rd imm) a = advance len (arch_set a rd imm)"
| "isa len (AUIPC rd imm) a = advance len (arch_set a rd (a_pc a + imm))"
| "isa len (JAL rd off) a = (arch_set a rd (a_pc a + len))\<lparr>a_pc := a_pc a + off\<rparr>"
| "isa len (JALR rd rs1 imm) a = (arch_set a rd (a_pc a + len))\<lparr>a_pc := (a_x a rs1 + imm) AND NOT 1\<rparr>"
| "isa len (Branch b rs1 rs2 off) a =
     (if branch_sem b (a_x a rs1) (a_x a rs2) then a\<lparr>a_pc := a_pc a + off\<rparr> else advance len a)"
| "isa len (Load l rd rs1 imm) a = advance len (arch_set a rd (load_sem l (a_mem a) (a_x a rs1 + imm)))"
| "isa len (Store t rs1 rs2 imm) a =
     advance len (a\<lparr>a_mem := store_sem t (a_mem a) (a_x a rs1 + imm) (a_x a rs2)\<rparr>)"
| "isa len (OpImm i rd rs1 imm) a = advance len (arch_set a rd (alu_sem (imm_alu i) (a_x a rs1) imm))"
| "isa len (Shift h rd rs1 shamt) a =
     advance len (arch_set a rd (alu_sem (shift_alu h) (a_x a rs1) (word_of_nat shamt)))"
| "isa len (Op op rd rs1 rs2) a = advance len (arch_set a rd (alu_sem op (a_x a rs1) (a_x a rs2)))"
| "isa len (MulDiv m rd rs1 rs2) a = advance len (arch_set a rd (mul_sem m (a_x a rs1) (a_x a rs2)))"
| "isa len (Amo op aqrl rd rs1 rs2) a =
     (let addr = a_x a rs1; old = load32 (a_mem a) addr;
          a' = (case amo_store op old (a_x a rs2) of
                  Some v \<Rightarrow> a\<lparr>a_mem := store32 (a_mem a) addr v\<rparr> | None \<Rightarrow> a)
      in advance len (arch_set a' rd (amo_result op old)))"
| "isa len (Fence funct3 rd rs1 imm) a = advance len a"

section \<open>Abstraction\<close>

definition arch_of :: "'h machine \<Rightarrow> arch" where
  "arch_of s = \<lparr>a_pc = pc (cpu s), a_x = xreg s, a_mem = ram (mem s)\<rparr>"

text \<open>The bytes an instruction accesses, which the refinement asks to be memory and not devices.\<close>

fun access_width :: "load_op \<Rightarrow> nat" where
  "access_width LB = 1" | "access_width LH = 2" | "access_width LW = 4"
| "access_width LBU = 1" | "access_width LHU = 2"

fun store_width :: "store_op \<Rightarrow> nat" where
  "store_width SB = 1" | "store_width SH = 2" | "store_width SW = 4"

definition in_ram :: "u32 \<Rightarrow> nat \<Rightarrow> bool" where
  "in_ram a n \<longleftrightarrow> (\<forall>k < n. a + word_of_nat k < MMIO_BASE)"

fun mem_ok :: "instr \<Rightarrow> 'h machine \<Rightarrow> bool" where
  "mem_ok (Load l rd rs1 imm) s = in_ram (xreg s rs1 + imm) (access_width l)"
| "mem_ok (Store t rs1 rs2 imm) s = in_ram (xreg s rs1 + imm) (store_width t)"
| "mem_ok (Amo op aqrl rd rs1 rs2) s = in_ram (xreg s rs1) 4"
| "mem_ok i s = True"

end
