(* ===== verification/Isa_Refine.thy ===== *)
theory Isa_Refine
  imports Isa
begin

text \<open>
  \<open>execute_inst32\<close> implements the architecture of \<open>Isa\<close>: for every well-formed instruction whose memory
  accesses stay off the device page, executing its encoding commutes with the abstraction \<open>arch_of\<close>, and
  changes nothing else.
\<close>

section \<open>Arithmetic and logic\<close>

lemma word_of_sint [simp]: "word_of_int (sint (w :: u32)) = w"
  by (metis scast_eq scast_id)

lemma unat_and_31: "unat ((y :: u32) AND 0x1F) = unat y mod 32"
proof -
  have "y AND 0x1F = take_bit 5 y" by (simp add: take_bit_eq_mask mask_numeral)
  then show ?thesis by (simp add: take_bit_eq_mod unat_mod)
qed

lemma sll_word: "push_bit n (x :: u32) = word_of_int (uint x * 2 ^ n)"
  by (simp add: push_bit_eq_mult)

lemma uint_drop_bit: "uint (drop_bit n (w :: 'a::len word)) = uint w div 2 ^ n"
  by (simp add: unsigned_drop_bit_eq take_bit_int_eq_self flip: drop_bit_eq_div)

lemma srl_word: "drop_bit n (x :: u32) = word_of_int (uint x div 2 ^ n)"
  by (metis uint_drop_bit word_of_int_uint)

lemma sra_word: "signed_drop_bit n (x :: u32) = word_of_int (sint x div 2 ^ n)"
  by (metis drop_bit_eq_div sint_signed_drop_bit_eq word_of_sint)

lemma alu_value:
  "op_val (ucast (snd (alu_functs op))) (ucast (fst (alu_functs op))) x y = Some (alu_sem op x y)"
  by (cases op) (simp_all add: op_val_def Let_def bool_word_def unat_and_31 sll_word srl_word sra_word word_less_def)

section \<open>Multiplication and division\<close>

lemma ucast_low_word: "(ucast ((w :: u64) AND 0xFFFFFFFF) :: u32) = ucast w"
  by (rule word32_eqI) (simp_all add: bit_simps)

lemma ucast_word_of_int: "(ucast (word_of_int k :: u64) :: u32) = word_of_int k"
  by transfer (simp add: take_bit_take_bit)

lemma scast_u64: "(scast (x :: u32) :: u64) = word_of_int (sint x)"
  by (rule scast_eq)

lemma sint_bounds: "- (2 ^ 31) \<le> sint (x :: u32)" "sint x < 2 ^ 31" "\<bar>sint x\<bar> \<le> 2 ^ 31"
  using sint_greater_eq [of x] sint_less [of x] by auto

lemma uint_bounds: "0 \<le> uint (x :: u32)" "uint x < 2 ^ 32"
  using uint_lt2p [of x] by simp_all

text \<open>The high half of a signed 64-bit product that does not overflow.\<close>

lemma high_half:
  assumes "- (2 ^ 63) \<le> p" "p < 2 ^ 63"
  shows "(ucast (signed_drop_bit 32 (word_of_int p :: u64) AND 0xFFFFFFFF) :: u32) = word_of_int (p div 2 ^ 32)"
proof -
  have "sint (word_of_int p :: u64) = p"
    using assms by (simp add: sint_sbintrunc' signed_take_bit_int_eq_self)
  then have "signed_drop_bit 32 (word_of_int p :: u64) = word_of_int (p div 2 ^ 32)"
    by (metis drop_bit_eq_div sint_signed_drop_bit_eq scast_eq scast_id)
  then show ?thesis by (simp add: ucast_low_word ucast_word_of_int)
qed

text \<open>None of the three products of \<open>exec_rv32m\<close> overflows 64 bits.\<close>

lemma mulh_no_overflow: "\<bar>sint (x :: u32) * sint (y :: u32)\<bar> \<le> 2 ^ 62"
  using mult_mono [OF sint_bounds(3) [of x] sint_bounds(3) [of y]] by (simp add: abs_mult)

lemma mulhsu_no_overflow: "- (2 ^ 63) \<le> sint (x :: u32) * uint (y :: u32)" "sint x * uint y < 2 ^ 63"
proof -
  have "\<bar>sint x\<bar> * uint y \<le> 2 ^ 31 * (2 ^ 32 - 1)"
    using mult_mono [OF sint_bounds(3) [of x], of "uint y" "2 ^ 32 - 1"] uint_bounds [of y] by auto
  moreover have "\<bar>sint x * uint y\<bar> = \<bar>sint x\<bar> * uint y" by (simp add: abs_mult)
  ultimately show "- (2 ^ 63) \<le> sint x * uint y" "sint x * uint y < 2 ^ 63" by simp_all
qed

lemma mulhu_no_overflow: "uint (x :: u32) * uint (y :: u32) < 2 ^ 64"
proof -
  have "uint x * uint y \<le> (2 ^ 32 - 1) * (2 ^ 32 - 1)"
    using mult_mono [of "uint x" "2 ^ 32 - 1" "uint y" "2 ^ 32 - 1"] uint_bounds [of x] uint_bounds [of y] by auto
  then show ?thesis by simp
qed

lemma mulh_value:
  "(ucast (signed_drop_bit 32 ((scast x :: i64) * scast y) AND 0xFFFFFFFF) :: u32)
     = word_of_int (sint (x :: u32) * sint (y :: u32) div 2 ^ 32)"
  unfolding scast_u64 wi_hom_mult
  by (rule high_half) (use mulh_no_overflow [of x y] in auto)

lemma mulhsu_value:
  "(ucast (signed_drop_bit 32 ((scast x :: i64) * ucast y) AND 0xFFFFFFFF) :: u32)
     = word_of_int (sint (x :: u32) * uint (y :: u32) div 2 ^ 32)"
  unfolding scast_u64 ucast_eq [of y] wi_hom_mult
  by (rule high_half) (use mulhsu_no_overflow in auto)

lemma mulhu_value:
  "(ucast (drop_bit 32 ((ucast x :: u64) * ucast y) AND 0xFFFFFFFF) :: u32)
     = word_of_int (uint (x :: u32) * uint (y :: u32) div 2 ^ 32)"
proof -
  have "uint (word_of_int (uint x * uint y) :: u64) = uint x * uint y"
    unfolding uint_word_of_int_eq by (rule take_bit_int_eq_self) (use mulhu_no_overflow [of x y] in auto)
  then have "drop_bit 32 (word_of_int (uint x * uint y) :: u64) = word_of_int (uint x * uint y div 2 ^ 32)"
    by (metis uint_drop_bit word_of_int_uint)
  then show ?thesis
    by (simp only: ucast_eq [of x] ucast_eq [of y] wi_hom_mult ucast_low_word ucast_word_of_int)
qed

lemma div_value: "wrapping_div x y = word_of_int (sgn (sint x * sint y) * (\<bar>sint x\<bar> div \<bar>sint y\<bar>))"
  by (simp add: wrapping_div_def signed_divide_int_def sgn_mult)

lemma rem_value:
  assumes "y \<noteq> 0"
  shows "wrapping_rem x y = word_of_int (sgn (sint x) * (\<bar>sint x\<bar> mod \<bar>sint y\<bar>))"
proof -
  have "sint x smod sint y = sgn (sint x) * (\<bar>sint x\<bar> mod \<bar>sint y\<bar>)"
    using assms by (simp add: signed_modulo_int_def)
  then show ?thesis by (simp add: wrapping_rem_def)
qed

lemma divu_value: "(x :: u32) div y = word_of_int (uint x div uint y)" "x mod y = word_of_int (uint x mod uint y)"
  by (simp_all add: word_div_def word_mod_def)

lemma mul_value: "rv32m_val (ucast (mul_funct3 m)) x y = Some (mul_sem m x y)"
  by (cases m)
     (simp_all add: rv32m_val_def mulh_value mulhsu_value mulhu_value div_value rem_value divu_value)

lemma imm_value:
  assumes "d_funct3 d = ucast (imm_funct3 i)"
  shows "op_imm_val d x = Some (alu_sem (imm_alu i) x (i_imm d))"
  using assms by (cases i) (simp_all add: op_imm_val_def Let_def bool_word_def word_less_def)

lemma and_31_small: "(n :: nat) < 32 \<Longrightarrow> n AND 31 = n"
proof -
  assume "n < 32"
  moreover have "n AND 31 = take_bit 5 n" by (simp add: take_bit_eq_mask mask_numeral)
  ultimately show ?thesis by (simp add: take_bit_nat_eq_self)
qed

lemma shift_value:
  assumes "d_funct3 d = ucast (fst (shift_functs h))" "d_funct7 d = ucast (snd (shift_functs h))"
    "d_rs2 d = n" "n < 32"
  shows "op_imm_val d x = Some (alu_sem (shift_alu h) x (word_of_nat n))"
  using assms
  by (cases h) (simp_all add: op_imm_val_def Let_def and_31_small unat_of_nat sll_word srl_word sra_word)

section \<open>Branches and atomics\<close>

lemma branch_value: "branch_taken (ucast (branch_funct3 b)) x y = Some (branch_sem b x y)"
  by (cases b) (simp_all add: branch_taken_def word_less_def word_le_def)

lemma amo_value:
  "amo_val (drop_bit 2 (ucast (amo_funct7 a))) old x = Some (case amo_store a old x of Some v \<Rightarrow> v | None \<Rightarrow> old)"
  "drop_bit 2 (ucast (amo_funct7 a) :: u8) = 2 \<longleftrightarrow> a = LR"
  "amo_store a old x = None \<longleftrightarrow> a = LR"
  "drop_bit 2 (ucast (amo_funct7 a) :: u8) = 3 \<longleftrightarrow> a = SC"
  by (cases a; simp add: amo_val_def smin_def smax_def min_def max_def word_le_def)+

section \<open>Memory off the device page\<close>

lemma in_ram_bytes:
  "in_ram a 1 \<Longrightarrow> a < MMIO_BASE"
  "in_ram a 2 \<Longrightarrow> a < MMIO_BASE \<and> a + 1 < MMIO_BASE"
  "in_ram a 4 \<Longrightarrow> a < MMIO_BASE \<and> a + 1 < MMIO_BASE \<and> a + 2 < MMIO_BASE \<and> a + 3 < MMIO_BASE"
proof -
  have k: "k < n \<Longrightarrow> in_ram a n \<Longrightarrow> a + word_of_nat k < MMIO_BASE" for k n by (simp add: in_ram_def)
  show "in_ram a 1 \<Longrightarrow> a < MMIO_BASE" using k [of 0 1] by simp
  show "in_ram a 2 \<Longrightarrow> a < MMIO_BASE \<and> a + 1 < MMIO_BASE" using k [of 0 2] k [of 1 2] by simp
  show "in_ram a 4 \<Longrightarrow> a < MMIO_BASE \<and> a + 1 < MMIO_BASE \<and> a + 2 < MMIO_BASE \<and> a + 3 < MMIO_BASE"
    using k [of 0 4] k [of 1 4] k [of 2 4] k [of 3 4] by simp
qed

lemma mem_reads_ram:
  assumes "wf_memory (mem s)"
  shows "in_ram a 1 \<Longrightarrow> mem_read_u8 E a s = Some (ram (mem s) a, s)"
    "in_ram a 2 \<Longrightarrow> mem_read_u16 E a s = Some (load16 (ram (mem s)) a, s)"
    "in_ram a 4 \<Longrightarrow> mem_read_u32 E a s = Some (load32 (ram (mem s)) a, s)"
  using assms in_ram_bytes [of a]
  by (simp_all add: mem_read_u8_def mem_read_u16_def mem_read_u32_def read_u8_ram read_u16_default
      read_u32_default ram_memory.read_u16_view ram_memory.read_u32_view load16_def load32_def)

text \<open>A write to memory replaces the bytes it covers and nothing else.\<close>

definition ram_write :: "'h machine \<Rightarrow> (u32 \<Rightarrow> u8) \<Rightarrow> 'h machine \<Rightarrow> bool" where
  "ram_write s M s' \<longleftrightarrow> (\<exists>m. s' = s\<lparr>mem := m\<rparr> \<and> mem_inv (brk_ptr (mem s)) (initial_brk (mem s)) m \<and> ram m = M)"

lemma ram_writeI:
  assumes "w = Some (m', host s)" "ram m' = M"
    "returns w (\<lambda>(m, h). mem_inv (brk_ptr (mem s)) (initial_brk (mem s)) m)"
  shows "\<exists>s'. (do { (m, h) \<leftarrow> w; Some (s\<lparr>mem := m, host := h\<rparr>) }) = Some s' \<and> ram_write s M s'"
  using assms by (auto simp: ram_write_def intro!: exI [of _ m'])

lemma mem_write_u8_ram:
  assumes "wf_memory (mem s)" "in_ram a 1"
  shows "\<exists>s'. mem_write_u8 E a v s = Some s' \<and> ram_write s ((ram (mem s))(a := v)) s'"
  unfolding mem_write_u8_def
  by (rule ram_writeI [where m' = "poke (mem s) a v"])
     (use assms in_ram_bytes(1) [of a] in \<open>auto simp: write_u8_ram ram_poke mem_inv_def\<close>)

lemma mem_write_u16_ram:
  assumes "wf_memory (mem s)" "in_ram a 2"
  shows "\<exists>s'. mem_write_u16 E a v s = Some s' \<and> ram_write s (store16 (ram (mem s)) a v) s'"
proof -
  let ?bs = "[le_byte 0 v, le_byte 1 v]"
  have b: "a < MMIO_BASE" "a + 1 < MMIO_BASE" using in_ram_bytes(2) [OF assms(2)] by auto
  have "\<exists>m'. default_write_bytes (write_u8 E) a ?bs (mem s) (host s) = Some (m', host s) \<and> wf_memory m' \<and>
      ram m' = store_bytes (ram (mem s)) a ?bs"
    by (rule ram_memory.write_bytes_view [OF assms(1)]) (use assms(2) in \<open>auto simp: in_ram_def\<close>)
  then obtain m' where "write_u16 E a v (mem s) (host s) = Some (m', host s)" "ram m' = store16 (ram (mem s)) a v"
    using assms(1) b
    by (auto simp: write_u16_default store16_def ram_memory.write_u16_bytes default_write_bytes_def)
  then show ?thesis
    unfolding mem_write_u16_def by (rule ram_writeI) (rule write_u16_returns [OF assms(1)], simp)
qed

lemma mem_write_u32_ram:
  assumes "wf_memory (mem s)" "in_ram a 4"
  shows "\<exists>s'. mem_write_u32 E a v s = Some s' \<and> ram_write s (store32 (ram (mem s)) a v) s'"
proof -
  have b: "a < MMIO_BASE" "a + 1 < MMIO_BASE" "a + 2 < MMIO_BASE" "a + 3 < MMIO_BASE"
    using in_ram_bytes(3) [OF assms(2)] by auto
  then obtain m' where "write_u32 E a v (mem s) (host s) = Some (m', host s)" "ram m' = store32 (ram (mem s)) a v"
    using ram_memory.write_u32_view [OF assms(1) b, of E v "host s"] assms(1)
    by (auto simp: write_u32_default store32_def)
  then show ?thesis
    unfolding mem_write_u32_def by (rule ram_writeI) (rule write_u32_returns [OF assms(1)], simp)
qed

section \<open>Refinement\<close>

definition implements :: "'h machine \<Rightarrow> 'h machine \<Rightarrow> arch \<Rightarrow> bool" where
  "implements s s' a \<longleftrightarrow> arch_of s' = a \<and> machine_ok s' \<and> host s' = host s
     \<and> (cpu s')\<lparr>regs := regs (cpu s), pc := pc (cpu s)\<rparr> = cpu s
     \<and> brk_ptr (mem s') = brk_ptr (mem s) \<and> initial_brk (mem s') = initial_brk (mem s)"

lemma arch_of_updates:
  "arch_of (put_xreg s r v) = arch_set (arch_of s) r v"
  "arch_of (s\<lparr>cpu := (cpu s)\<lparr>pc := p\<rparr>\<rparr>) = (arch_of s)\<lparr>a_pc := p\<rparr>"
  "arch_of (s\<lparr>mem := m\<rparr>) = (arch_of s)\<lparr>a_mem := ram m\<rparr>"
  by (auto simp: arch_of_def arch_set_def put_xreg_def xreg_def fun_eq_iff)

lemma implements_refl: "machine_ok s \<Longrightarrow> implements s s (arch_of s)"
  by (simp add: implements_def)

lemma implements_put: "implements s s' a \<Longrightarrow> implements s (put_xreg s' r v) (arch_set a r v)"
  by (auto simp: implements_def machine_ok_def arch_of_updates) (auto simp: put_xreg_def)

lemma implements_pc: "implements s s' a \<Longrightarrow> implements s (s'\<lparr>cpu := (cpu s')\<lparr>pc := p\<rparr>\<rparr>) (a\<lparr>a_pc := p\<rparr>)"
  by (auto simp: implements_def machine_ok_def arch_of_updates)

lemma implements_mem: "implements s s1 a \<Longrightarrow> ram_write s1 M s' \<Longrightarrow> implements s s' (a\<lparr>a_mem := M\<rparr>)"
  by (auto simp: implements_def ram_write_def mem_inv_def machine_ok_def brk_ok_def arch_of_updates)

lemma arch_of_simps [simp]:
  "a_pc (arch_of s) = pc (cpu s)" "a_x (arch_of s) = xreg s" "a_mem (arch_of s) = ram (mem s)"
  by (simp_all add: arch_of_def)

lemma a_pc_arch_set [simp]: "a_pc (arch_set a r v) = a_pc a"
  by (simp add: arch_set_def)

lemma word_less_4: "(w :: u32) < 4 \<Longrightarrow> w = 0 \<or> w = 1 \<or> w = 2 \<or> w = 3"
  by (auto simp: word_less_nat_alt word_unat_eq_iff)

lemma functs_bounds [simp]:
  "branch_funct3 b < 8" "load_funct3 l < 8" "store_funct3 t < 8" "imm_funct3 i < 8" "mul_funct3 m < 8"
  "fst (shift_functs h) < 8" "snd (shift_functs h) < 128" "fst (alu_functs op) < 8" "snd (alu_functs op) < 128"
  "aqrl < 4 \<Longrightarrow> amo_funct7 a OR aqrl < 128"
  subgoal by (cases b) simp_all
  subgoal by (cases l) simp_all
  subgoal by (cases t) simp_all
  subgoal by (cases i) simp_all
  subgoal by (cases m) simp_all
  subgoal by (cases h) simp_all
  subgoal by (cases h) simp_all
  subgoal by (cases op) simp_all
  subgoal by (cases op) simp_all
  subgoal by (drule word_less_4) (cases a; auto)
  done

lemma amo_ordering: "aqrl < 4 \<Longrightarrow> drop_bit 2 (ucast (amo_funct7 a OR aqrl) :: u8) = drop_bit 2 (ucast (amo_funct7 a))"
  by (drule word_less_4) (cases a; auto)

lemmas dispatch_simps = dispatch32_def exec_rv32i_def decode_encode exec_simps Let_def ok_def

text \<open>
  The instruction \<open>i\<close>, dispatched with the next instruction \<open>len\<close> bytes away, delivers the next program counter,
  and moving there completes its effect.
\<close>

definition refines :: "'h env \<Rightarrow> u32 \<Rightarrow> instr \<Rightarrow> 'h machine \<Rightarrow> bool" where
  "refines E len i s \<longleftrightarrow>
     (\<exists>p s1. dispatch32 E (decode32 (asm i)) (pc (cpu s) + len) s = Some (Inr p, s1)
        \<and> implements s (s1\<lparr>cpu := (cpu s1)\<lparr>pc := p\<rparr>\<rparr>) (isa len i (arch_of s)))"

lemma refinesI:
  assumes "dispatch32 E (decode32 (asm i)) (pc (cpu s) + len) s = Some (Inr p, s1)" "implements s s1 a"
    "isa len i (arch_of s) = a\<lparr>a_pc := p\<rparr>"
  shows "refines E len i s"
  using assms implements_pc [OF assms(2), of p] by (auto simp: refines_def)

lemma advance_simp: "advance len a = a\<lparr>a_pc := a_pc a + len\<rparr>"
  by (simp add: advance_def)

lemma refines_upper:
  assumes "machine_ok s"
  shows "wf_instr (LUI rd imm) \<Longrightarrow> refines E len (LUI rd imm) s"
    "wf_instr (AUIPC rd imm) \<Longrightarrow> refines E len (AUIPC rd imm) s"
  by (rule refinesI [OF _ implements_put [OF implements_refl [OF assms]]];
      simp add: dispatch_simps advance_simp)+

lemma refines_jumps:
  assumes "machine_ok s"
  shows "wf_instr (JAL rd off) \<Longrightarrow> refines E len (JAL rd off) s"
    "wf_instr (JALR rd rs1 imm) \<Longrightarrow> refines E len (JALR rd rs1 imm) s"
  by (rule refinesI [OF _ implements_put [OF implements_refl [OF assms]]];
      simp add: dispatch_simps)+

lemma refines_branch:
  "machine_ok s \<Longrightarrow> wf_instr (Branch b rs1 rs2 off) \<Longrightarrow> refines E len (Branch b rs1 rs2 off) s"
  by (rule refinesI [OF _ implements_refl])
     (auto simp: dispatch_simps exec_branch_def branch_value advance_simp)

lemma alu_not_m: "(ucast (snd (alu_functs op)) :: u8) \<noteq> 1"
  by (cases op) simp_all

lemma refines_op:
  assumes "machine_ok s"
  shows "wf_instr (OpImm i rd rs1 imm) \<Longrightarrow> refines E len (OpImm i rd rs1 imm) s"
    "wf_instr (Shift h rd rs1 n) \<Longrightarrow> refines E len (Shift h rd rs1 n) s"
    "wf_instr (Op op rd rs1 rs2) \<Longrightarrow> refines E len (Op op rd rs1 rs2) s"
    "wf_instr (MulDiv m rd rs1 rs2) \<Longrightarrow> refines E len (MulDiv m rd rs1 rs2) s"
  by (rule refinesI [OF _ implements_put [OF implements_refl [OF assms]]];
      simp add: dispatch_simps exec_op_imm_def exec_op_def exec_rv32m_def keep_pc_def and_then_def
        imm_value shift_value alu_value alu_not_m mul_value advance_simp)+

lemma refines_fence: "machine_ok s \<Longrightarrow> wf_instr (Fence f3 rd rs1 imm) \<Longrightarrow> refines E len (Fence f3 rd rs1 imm) s"
  by (rule refinesI [OF _ implements_refl]) (auto simp: dispatch_simps advance_simp)

lemma refines_load:
  assumes "machine_ok s" "wf_instr (Load l rd rs1 imm)" "mem_ok (Load l rd rs1 imm) s"
  shows "refines E len (Load l rd rs1 imm) s"
proof -
  have "exec_load E (decode32 (asm (Load l rd rs1 imm))) np s
      = ok np (put_xreg s rd (load_sem l (ram (mem s)) (xreg s rs1 + imm)))" for np
    using assms
    by (cases l) (simp_all add: exec_load_def decode_encode exec_simps Let_def mem_reads_ram machine_ok_wf
        flip: scast_eq ucast_eq)
  then show ?thesis
    using assms(2)
    by (intro refinesI [OF _ implements_put [OF implements_refl [OF assms(1)]]])
       (simp_all add: dispatch_simps advance_simp)
qed

lemma refines_store:
  assumes "machine_ok s" "wf_instr (Store t rs1 rs2 imm)" "mem_ok (Store t rs1 rs2 imm) s"
  shows "refines E len (Store t rs1 rs2 imm) s"
proof -
  let ?a = "xreg s rs1 + imm" and ?M = "store_sem t (ram (mem s)) (xreg s rs1 + imm) (xreg s rs2)"
  obtain s1 where s1: "exec_store E (decode32 (asm (Store t rs1 rs2 imm))) np s = ok np s1"
      "ram_write s ?M s1" for np
    using assms mem_write_u8_ram [of s ?a E "ucast (xreg s rs2)"] mem_write_u16_ram [of s ?a E "ucast (xreg s rs2)"]
      mem_write_u32_ram [of s ?a E "xreg s rs2"]
    by (cases t) (auto simp: exec_store_def decode_encode exec_simps Let_def machine_ok_wf simp flip: ucast_eq)
  show ?thesis
    using assms(2)
    by (intro refinesI [OF _ implements_mem [OF implements_refl [OF assms(1)] s1(2)]])
       (use s1(1) in \<open>simp_all add: dispatch_simps advance_simp\<close>)
qed

lemma refines_amo:
  assumes "machine_ok s" "wf_instr (Amo op aqrl rd rs1 rs2)" "mem_ok (Amo op aqrl rd rs1 rs2) s"
  shows "refines E len (Amo op aqrl rd rs1 rs2) s"
proof -
  let ?old = "load32 (ram (mem s)) (xreg s rs1)"
  let ?d = "decode32 (asm (Amo op aqrl rd rs1 rs2))"
  have rd: "mem_read_u32 E (xreg s rs1) s = Some (?old, s)"
    using assms by (simp add: mem_reads_ram machine_ok_wf)
  have v: "amo_val (drop_bit 2 (ucast (amo_funct7 op OR aqrl) :: u8)) ?old (xreg s rs2)
      = Some (case amo_store op ?old (xreg s rs2) of Some v \<Rightarrow> v | None \<Rightarrow> ?old)"
    using assms(2) by (simp add: amo_ordering amo_value)
  show ?thesis
  proof (cases "amo_store op ?old (xreg s rs2)")
    case None
    then have "drop_bit 2 (ucast (amo_funct7 op) :: u8) = 2" "amo_result op ?old = ?old"
      by (simp_all add: amo_value amo_result_def)
    then have "drop_bit 2 (ucast (amo_funct7 op OR aqrl) :: u8) = 2" "amo_result op ?old = ?old"
      using assms(2) by (simp_all add: amo_ordering)
    with None show ?thesis
      using assms(2) v
      by (intro refinesI [OF _ implements_put [OF implements_refl [OF assms(1)]]])
         (simp_all add: dispatch_simps exec_rv32a_def keep_pc_def and_then_def rd advance_simp)
  next
    case (Some x)
    obtain s1 where s1: "mem_write_u32 E (xreg s rs1) x s = Some s1"
        "ram_write s (store32 (ram (mem s)) (xreg s rs1) x) s1"
      using assms mem_write_u32_ram [of s "xreg s rs1" E x] by (auto simp: machine_ok_wf)
    have "op \<noteq> LR" using Some by auto
    with Some show ?thesis
      using assms(2) s1(1)
      by (intro refinesI [OF _ implements_put [OF implements_mem [OF implements_refl [OF assms(1)] s1(2)]]])
         (simp_all add: dispatch_simps exec_rv32a_def keep_pc_def and_then_def rd v amo_value amo_ordering advance_simp amo_result_def)
  qed
qed

text \<open>The refinement, for every instruction.\<close>

lemma execute_refines: "machine_ok s \<Longrightarrow> wf_instr i \<Longrightarrow> mem_ok i s \<Longrightarrow> refines E len i s"
  by (cases i)
     (simp_all only: refines_upper refines_jumps refines_branch refines_op refines_fence refines_load
        refines_store refines_amo)

corollary execute_inst32_refines:
  assumes "machine_ok s" "wf_instr i" "mem_ok i s"
  shows "\<exists>s'. execute_inst32 E (asm i) s = Some (Inr (), s') \<and> implements s s' (isa 4 i (arch_of s))"
  using execute_refines [OF assms, of E 4]
  by (auto simp: refines_def execute_inst32_def and_then_def set_pc_def ok_def)

end
