(* ===== verification/Safe_Sim.thy ===== *)
theory Safe_Sim
  imports Slices Simulator Isa_Refine
begin

text \<open>
  Safety of the simulator facade: loading leaves a machine that satisfies \<open>machine_ok\<close>, a debugger command
  keeps the user's breakpoints, and no run ends in a panic.
\<close>

section \<open>Loading\<close>

text \<open>A machine as the loader leaves it: well formed, not halted, no debugger state.\<close>

definition fresh_ctrl :: "bool \<Rightarrow> 'h machine \<Rightarrow> bool" where
  "fresh_ctrl custom s \<longleftrightarrow> machine_ok s \<and> \<not> is_halted (cpu s) \<and> \<not> trapped (cpu s) \<and> \<not> debug_enabled (cpu s)
     \<and> breakpoints (cpu s) = {} \<and> resume_past_breakpoint (cpu s) = None \<and> step_counter (cpu s) = 0
     \<and> has_custom_syscalls (cpu s) = custom"

lemma fresh_ctrl_new: "fresh_ctrl b \<lparr>cpu = cpu_new\<lparr>has_custom_syscalls := b\<rparr>, mem = memory_new, host = h\<rparr>"
  by (simp add: fresh_ctrl_def machine_ok_def cpu_new_def memory_new_def wf_memory_def brk_ok_def MMIO_BASE_def)

lemma fresh_ctrl_set_reg: "fresh_ctrl b s \<Longrightarrow> fresh_ctrl b (put_xreg s r v)"
  by (auto simp: fresh_ctrl_def machine_ok_def put_xreg_def)

lemma init_registers_safe:
  "fresh_ctrl b s \<Longrightarrow> \<forall>(r, v) \<in> set inits. 0 < r \<and> r < 32 \<Longrightarrow> returns (init_registers inits s) (fresh_ctrl b)"
  by (induction inits s rule: init_registers.induct) (auto simp: exec_simps fresh_ctrl_set_reg)

lemma fresh_ctrl_pc: "fresh_ctrl b s \<Longrightarrow> fresh_ctrl b (s\<lparr>cpu := (cpu s)\<lparr>pc := p\<rparr>\<rparr>)"
  by (simp add: fresh_ctrl_def machine_ok_def)

lemma mem_write_bytes_fresh: "fresh_ctrl b s \<Longrightarrow> returns (mem_write_bytes E a bs s) (fresh_ctrl b)"
  by (simp add: mem_write_bytes_def, rule write_bytes_returns)
     (auto simp: fresh_ctrl_def machine_ok_def mem_inv_def brk_ok_def)

lemma write_range_fresh: "fresh_ctrl b s \<Longrightarrow> returns (write_range E a r s) (fresh_ctrl b)"
  by (simp add: write_range_def mem_write_bytes_fresh split: option.split)

text \<open>A file range whose end does not wrap around is read without a panic.\<close>

definition range_ok :: "u64 \<Rightarrow> u64 \<Rightarrow> bool" where
  "range_ok offset len \<longleftrightarrow> unat offset + unat len < 2 ^ 64"

lemma file_range_safe:
  assumes "range_ok offset len" "\<not> overflow_checks E" "\<And>r. Q r"
  shows "returns (file_range E bytes offset len) Q"
proof -
  have "unat (offset + len) = unat offset + unat len"
    using assms(1) by (simp add: range_ok_def unat_word_ariths)
  then show ?thesis
    using assms(2,3) by (simp add: file_range_def slice_range_def)
qed

definition elf_ok :: "elf \<Rightarrow> bool" where
  "elf_ok elf \<longleftrightarrow> (\<forall>p \<in> set (program_headers elf). range_ok (p_offset p) (p_filesz p))
     \<and> (\<forall>h \<in> set (section_headers elf). range_ok (sh_offset h) (sh_size h))"

lemma load_segments_safe:
  "\<not> overflow_checks E \<Longrightarrow> fresh_ctrl b s \<Longrightarrow> \<forall>p \<in> set ps. range_ok (p_offset p) (p_filesz p) \<Longrightarrow>
     returns (load_segments E bytes ps s) (fresh_ctrl b)"
proof (induction ps arbitrary: s)
  case (Cons p ps)
  have "returns (if p_type p = PT_LOAD then do {
        r \<leftarrow> file_range E bytes (p_offset p) (p_filesz p); write_range E (ucast (p_vaddr p)) r s }
      else Some s) (fresh_ctrl b)"
    using Cons.prems by (auto intro!: file_range_safe write_range_fresh)
  then show ?case
    unfolding load_segments.simps returns_bind
    by (rule returns_mono) (use Cons in auto)
qed simp

lemma section_addr_safe: "\<not> overflow_checks E \<Longrightarrow> (\<And>r. Q r) \<Longrightarrow> returns (section_addr E h c) Q"
  by (simp add: section_addr_def sub_or_panic_def Let_def)

lemma load_sections_safe:
  "\<not> overflow_checks E \<Longrightarrow> fresh_ctrl b s \<Longrightarrow> \<forall>h \<in> set hs. range_ok (sh_offset h) (sh_size h) \<Longrightarrow>
     returns (load_sections E bytes hs c as s) (\<lambda>(as', s'). fresh_ctrl b s')"
proof (induction hs arbitrary: c as s)
  case (Cons h hs)
  obtain a c' where a: "section_addr E h c = Some (a, c')"
    using section_addr_safe [OF Cons.prems(1), of "\<lambda>_. True" h c] by (auto elim!: returnsE)
  have w: "returns (if sh_type h \<noteq> SHT_NOBITS then do {
        r \<leftarrow> file_range E bytes (sh_offset h) (sh_size h); write_range E a r s } else Some s) (fresh_ctrl b)"
    using Cons.prems by (auto intro!: file_range_safe write_range_fresh)
  have IH: "fresh_ctrl b s' \<Longrightarrow> returns (load_sections E bytes hs c as s') (\<lambda>(as', s'). fresh_ctrl b s')" for c as s'
    using Cons by simp
  show ?case
  proof (cases "sh_size h > 0 \<and> (sh_flags h AND 2 \<noteq> 0 \<or> sh_type h = SHT_PROGBITS)")
    case True
    then show ?thesis
      by (simp only: load_sections.simps if_True simp_thms a bind.bind_lunit prod.case returns_bind [of "if _ then _ else _"])
         (rule returns_mono [OF w IH])
  next
    case False
    then show ?thesis using IH [OF Cons.prems(2)] by (simp only: load_sections.simps if_False)
  qed
qed simp

lemma load_elf_safe:
  assumes "\<not> overflow_checks E" "fresh_ctrl b s" "elf_ok elf"
  shows "returns (load_elf E bytes elf s) (\<lambda>((e, m), s'). fresh_ctrl b s' \<and> pc (cpu s') = e)"
proof -
  have seg: "returns (load_segments E bytes (program_headers elf) s) (fresh_ctrl b)"
    using assms by (intro load_segments_safe) (auto simp: elf_ok_def)
  have sec: "returns (load_sections E bytes (section_headers elf) 0x10000 [] s) (\<lambda>(as', s'). fresh_ctrl b s')"
    using assms by (intro load_sections_safe) (auto simp: elf_ok_def)
  show ?thesis
    using seg sec
    by (auto simp: load_elf_def Let_def fresh_ctrl_pc elim!: returnsE split: prod.splits)
qed

lemma load_binary_safe:
  assumes "\<not> overflow_checks E" "\<And>elf. elf_parse bytes = Some elf \<Longrightarrow> elf_ok elf"
  shows "returns (load_binary_with_args elf_parse E bytes args sim)
    (\<lambda>(e, sim'). fresh_ctrl (has_custom_syscalls (cpu (machine sim))) (machine sim')
       \<and> pc (cpu (machine sim')) = e)"
proof -
  let ?b = "has_custom_syscalls (cpu (machine sim))"
  obtain s where s: "init_registers (register_inits (parse_args args))
      \<lparr>cpu = cpu_new\<lparr>has_custom_syscalls := ?b\<rparr>, mem = memory_new, host = host (machine sim)\<rparr> = Some s"
      "fresh_ctrl ?b s"
    using init_registers_safe [OF fresh_ctrl_new, of "register_inits (parse_args args)" ?b "host (machine sim)"]
      parse_args_ok [of args] by (auto simp: inits_ok_def elim!: returnsE)
  show ?thesis
  proof (cases "elf_parse bytes")
    case None
    then show ?thesis
      using s mem_write_bytes_fresh [OF s(2), of E 0 bytes]
      by (auto simp: load_binary_with_args_def Let_def fresh_ctrl_pc elim!: returnsE)
  next
    case (Some elf)
    then show ?thesis
      using s load_elf_safe [OF assms(1) s(2) assms(2) [OF Some], of bytes]
      by (auto simp: load_binary_with_args_def Let_def elim!: returnsE)
  qed
qed

section \<open>The memory image\<close>

lemma mem_write_bytes_ram:
  assumes "wf_memory (mem s)" "in_ram a (length bs)"
  shows "\<exists>s'. mem_write_bytes E a bs s = Some s' \<and> ram_write s (store_bytes (ram (mem s)) a bs) s'"
proof -
  have "\<exists>m'. default_write_bytes (write_u8 E) a bs (mem s) (host s) = Some (m', host s) \<and> wf_memory m' \<and>
      ram m' = store_bytes (ram (mem s)) a bs"
    by (rule ram_memory.write_bytes_view [OF assms(1)]) (use assms(2) in \<open>auto simp: in_ram_def\<close>)
  then obtain m' where "write_bytes E a bs (mem s) (host s) = Some (m', host s)"
      "ram m' = store_bytes (ram (mem s)) a bs"
    using assms(1) by (auto simp: write_bytes_default)
  then show ?thesis
    unfolding mem_write_bytes_def by (rule ram_writeI) (rule write_bytes_returns [OF assms(1)], simp)
qed

text \<open>What a segment contributes to memory: its file bytes, when it is loadable and inside the file.\<close>

definition segment_bytes :: "u8 list \<Rightarrow> elf_phdr \<Rightarrow> u8 list" where
  "segment_bytes bytes p =
     (if p_type p = PT_LOAD \<and> unat (p_offset p) + unat (p_filesz p) \<le> length bytes
      then take (unat (p_filesz p)) (drop (unat (p_offset p)) bytes) else [])"

definition segment_image :: "u8 list \<Rightarrow> elf_phdr \<Rightarrow> (u32 \<Rightarrow> u8) \<Rightarrow> (u32 \<Rightarrow> u8)" where
  "segment_image bytes p M = store_bytes M (ucast (p_vaddr p)) (segment_bytes bytes p)"

definition segment_ok :: "u8 list \<Rightarrow> elf_phdr \<Rightarrow> bool" where
  "segment_ok bytes p \<longleftrightarrow> range_ok (p_offset p) (p_filesz p)
     \<and> in_ram (ucast (p_vaddr p)) (length (segment_bytes bytes p))"

lemma file_range_value:
  assumes "range_ok offset len" "\<not> overflow_checks E"
  shows "file_range E bytes offset len =
    Some (if unat offset + unat len \<le> length bytes then Some (take (unat len) (drop (unat offset) bytes)) else None)"
proof -
  have "unat (offset + len) = unat offset + unat len"
    using assms(1) by (simp add: range_ok_def unat_word_ariths)
  then show ?thesis using assms(2) by (simp add: file_range_def slice_range_def)
qed

lemma load_segment_image:
  assumes "\<not> overflow_checks E" "wf_memory (mem s)" "segment_ok bytes p"
  shows "\<exists>s'. (if p_type p = PT_LOAD then do {
        r \<leftarrow> file_range E bytes (p_offset p) (p_filesz p); write_range E (ucast (p_vaddr p)) r s }
      else Some s) = Some s' \<and> ram_write s (segment_image bytes p (ram (mem s))) s'"
proof -
  have self: "ram_write s (ram (mem s)) s"
    using assms(2) by (auto simp: ram_write_def mem_inv_def intro!: exI [of _ "mem s"])
  show ?thesis
    using assms(1) assms(3) self mem_write_bytes_ram [OF assms(2), of "ucast (p_vaddr p)" "segment_bytes bytes p" E]
    by (auto simp: segment_ok_def file_range_value write_range_def segment_image_def segment_bytes_def)
qed

lemma ram_write_facts:
  "ram_write s M s' \<Longrightarrow> wf_memory (mem s') \<and> ram (mem s') = M \<and> cpu s' = cpu s \<and> host s' = host s"
  by (auto simp: ram_write_def mem_inv_def)

lemma load_segments_image:
  assumes "\<not> overflow_checks E"
  shows "wf_memory (mem s) \<Longrightarrow> \<forall>p \<in> set ps. segment_ok bytes p \<Longrightarrow>
    \<exists>s'. load_segments E bytes ps s = Some s' \<and> ram (mem s') = fold (segment_image bytes) ps (ram (mem s))
      \<and> wf_memory (mem s') \<and> cpu s' = cpu s \<and> host s' = host s"
proof (induction ps arbitrary: s)
  case (Cons p ps)
  obtain s1 where s1: "(if p_type p = PT_LOAD then do {
        r \<leftarrow> file_range E bytes (p_offset p) (p_filesz p); write_range E (ucast (p_vaddr p)) r s }
      else Some s) = Some s1" "ram_write s (segment_image bytes p (ram (mem s))) s1"
    using load_segment_image [OF assms Cons.prems(1), of bytes p] Cons.prems(2) by auto
  note f = ram_write_facts [OF s1(2)]
  from Cons.IH [of s1] f Cons.prems(2) show ?case
    by (simp only: load_segments.simps s1(1) bind.bind_lunit fold.simps o_apply) auto
qed simp

text \<open>The \<open>--setreg\<close> options are applied to a fresh machine and leave its memory empty.\<close>

lemma init_registers_memory:
  "\<forall>(r, v) \<in> set inits. 0 < r \<and> r < 32 \<Longrightarrow>
     returns (init_registers inits s) (\<lambda>s'. mem s' = mem s \<and> host s' = host s)"
  by (induction inits s rule: init_registers.induct) (auto simp: exec_simps)

lemma loader_start:
  "\<exists>s. init_registers (register_inits (parse_args args)) \<lparr>cpu = c, mem = memory_new, host = h\<rparr> = Some s
     \<and> mem s = memory_new \<and> host s = h"
  using init_registers_memory [of "register_inits (parse_args args)" "\<lparr>cpu = c, mem = memory_new, host = h\<rparr>"]
    parse_args_ok [of args] by (auto simp: inits_ok_def elim!: returnsE)

lemma memory_new_facts: "wf_memory memory_new" "ram memory_new = (\<lambda>_. 0)"
  by (simp_all add: wf_memory_def memory_new_def ram_def page_at_def fun_eq_iff)

text \<open>The image of an ELF file with program headers.\<close>

lemma load_elf_image:
  assumes "\<not> overflow_checks E" "elf_parse bytes = Some elf" "program_headers elf \<noteq> []"
    "\<forall>p \<in> set (program_headers elf). segment_ok bytes p"
  shows "\<exists>sim'. load_binary_with_args elf_parse E bytes args sim
      = Some (start_override elf (ucast (e_entry elf)), sim')
    \<and> pc (cpu (machine sim')) = start_override elf (ucast (e_entry elf))
    \<and> ram (mem (machine sim')) = fold (segment_image bytes) (program_headers elf) (\<lambda>_. 0)
    \<and> symbols sim' = segment_symbols elf (syms elf) (\<lambda>_. None)"
proof -
  obtain s where s: "init_registers (register_inits (parse_args args))
      \<lparr>cpu = cpu_new\<lparr>has_custom_syscalls := has_custom_syscalls (cpu (machine sim))\<rparr>, mem = memory_new,
        host = host (machine sim)\<rparr> = Some s" "mem s = memory_new"
    using loader_start [of args "cpu_new\<lparr>has_custom_syscalls := has_custom_syscalls (cpu (machine sim))\<rparr>" "host (machine sim)"]
    by auto
  have w: "wf_memory (mem s)" by (simp add: s(2) memory_new_facts)
  obtain s' where "load_segments E bytes (program_headers elf) s = Some s'"
      "ram (mem s') = fold (segment_image bytes) (program_headers elf) (ram (mem s))"
    using load_segments_image [OF assms(1) w assms(4)] by blast
  moreover have "ram (mem s) = (\<lambda>_. 0)" by (simp only: s(2) memory_new_facts)
  ultimately show ?thesis
    using s assms(2,3) by (simp add: load_binary_with_args_def load_elf_def Let_def)
qed

text \<open>A file that is not an ELF file is copied to address 0.\<close>

lemma in_ram_0: "n \<le> 0xFFFF0000 \<Longrightarrow> in_ram 0 n"
  by (auto simp: in_ram_def MMIO_BASE_def word_less_nat_alt unat_of_nat)

lemma load_raw_image:
  assumes "elf_parse bytes = None" "length bytes \<le> 0xFFFF0000"
  shows "\<exists>sim'. load_binary_with_args elf_parse E bytes args sim = Some (0, sim')
    \<and> pc (cpu (machine sim')) = 0 \<and> host (machine sim') = host (machine sim)
    \<and> (\<forall>k < length bytes. ram (mem (machine sim')) (word_of_nat k) = bytes ! k)"
proof -
  obtain s where s: "init_registers (register_inits (parse_args args))
      \<lparr>cpu = cpu_new\<lparr>has_custom_syscalls := has_custom_syscalls (cpu (machine sim))\<rparr>, mem = memory_new,
        host = host (machine sim)\<rparr> = Some s" "mem s = memory_new" "host s = host (machine sim)"
    using loader_start [of args "cpu_new\<lparr>has_custom_syscalls := has_custom_syscalls (cpu (machine sim))\<rparr>" "host (machine sim)"]
    by auto
  obtain s' where s': "mem_write_bytes E 0 bytes s = Some s'" "ram_write s (store_bytes (ram (mem s)) 0 bytes) s'"
    using mem_write_bytes_ram [OF _ in_ram_0 [OF assms(2)], of s E] memory_new_facts(1) unfolding s(2) by blast
  note f = ram_write_facts [OF s'(2)]
  have "ram (mem s') (word_of_nat k) = bytes ! k" if "k < length bytes" for k
    using store_bytes_at [of bytes k "ram (mem s)" 0] that assms(2) f by simp
  with s s' f assms(1) show ?thesis
    by (simp add: load_binary_with_args_def Let_def)
qed

section \<open>Runs that return\<close>

text \<open>What a run to a breakpoint reports: a breakpoint stop shows the breakpoint it stopped at.\<close>

definition stop_post :: "'h simulator \<Rightarrow> debugger_snapshot \<times> 'h simulator \<Rightarrow> bool" where
  "stop_post m = (\<lambda>(snap, m'). machine_ok (machine m')
     \<and> conf_of (cpu (machine m')) = conf_of (cpu (machine m)) \<and> symbols m' = symbols m
     \<and> sn_pc snap = pc (cpu (machine m')) \<and> sn_is_halted snap = is_halted (cpu (machine m'))
     \<and> (if sn_is_breakpoint snap
        then \<not> sn_is_halted snap \<and> sn_hit_address snap = sn_pc snap
          \<and> sn_pc snap \<in> breakpoints (cpu (machine m')) \<and> debug_enabled (cpu (machine m'))
        else sn_is_halted snap))"

lemma snapshot_value:
  "\<exists>cs. snapshot c b h = Some \<lparr>sn_pc = pc c, sn_gpr = map (regs c) [0..<32], sn_fpr = map (fregs c) [0..<32],
     sn_csrs = cs, sn_step_count = step_counter c, sn_is_halted = is_halted c, sn_is_breakpoint = b,
     sn_hit_address = h, sn_exit_code = exit_code c, sn_trapped = trapped c\<rparr>"
  by (simp add: snapshot_def exec_simps)

context stdin_host
begin

lemma run_safe:
  assumes "\<not> overflow_checks E"
  shows "run F s = Some r \<Longrightarrow> F = E \<longrightarrow> machine_ok s \<longrightarrow>
    (\<exists>code s'. r = Some (code, s') \<and> machine_ok s' \<and> is_halted (cpu s') \<and> code = exit_code (cpu s')
      \<and> conf_of (cpu s') = conf_of (cpu s))"
proof (induction rule: run.raw_induct [rotated, consumes 1, case_names step])
  case (step f F s r)
  show ?case
  proof (intro impI)
    assume a: "F = E" "machine_ok s"
    obtain out s1 where o: "run_slice E u32_max s = Some (out, s1)" "slice_post u32_max s (out, s1)"
      using run_slice_safe [OF a(2) assms, of u32_max] by (auto elim!: returnsE)
    then have s1: "machine_ok s1" "conf_of (cpu s1) = conf_of (cpu s)"
      by (auto simp: slice_post_def after_steps_def)
    show "\<exists>code s'. r = Some (code, s') \<and> machine_ok s' \<and> is_halted (cpu s') \<and> code = exit_code (cpu s')
        \<and> conf_of (cpu s') = conf_of (cpu s)"
    proof (cases "so_status out = Running \<or> so_status out = Breakpoint")
      case True
      with step(2) o a have "f E s1 = Some r" by simp
      from step(1) [OF this] s1 show ?thesis by auto
    next
      case False
      with step(2) o a s1 show ?thesis by (auto simp: conf_of_def)
    qed
  qed
qed

lemma run_until_breakpoint_safe:
  assumes "\<not> overflow_checks E"
  shows "run_until_breakpoint F m = Some r \<Longrightarrow> F = E \<longrightarrow> machine_ok (machine m) \<longrightarrow> returns r (stop_post m)"
proof (induction rule: run_until_breakpoint.raw_induct [rotated, consumes 1, case_names step])
  case (step f F m r)
  show ?case
  proof (intro impI)
    assume a: "F = E" "machine_ok (machine m)"
    obtain out s1 where o: "run_slice E u32_max (machine m) = Some (out, s1)" "slice_post u32_max (machine m) (out, s1)"
      using run_slice_safe [OF a(2) assms, of u32_max] by (auto elim!: returnsE)
    then have s1: "machine_ok s1" "conf_of (cpu s1) = conf_of (cpu (machine m))" "status_ok (so_status out) s1"
        "so_pc out = pc (cpu s1)"
      by (auto simp: slice_post_def after_steps_def)
    show "returns r (stop_post m)"
    proof (cases "so_status out = Running")
      case True
      with step(2) o a have "f E (m\<lparr>machine := s1\<rparr>) = Some r" by (simp add: Let_def)
      from step(1) [OF this] s1 show ?thesis by (auto simp: stop_post_def elim!: returnsE)
    next
      case False
      with step(2) o a s1 snapshot_value [of "cpu s1" True "so_pc out"] snapshot_value [of "cpu s1" False 0]
      show ?thesis
        by (cases "so_status out") (auto simp: Let_def stop_post_def get_snapshot_js_def)
    qed
  qed
qed

text \<open>A temporary breakpoint leaves no trace in the breakpoint set.\<close>

lemma run_to_temporary_safe:
  assumes "\<not> overflow_checks E" "run_to_temporary E addr m = Some r" "machine_ok (machine m)"
  shows "returns r (\<lambda>(snap, m'). breakpoints (cpu (machine m')) = breakpoints (cpu (machine m))
    \<and> debug_enabled (cpu (machine m')) = debug_enabled (cpu (machine m)) \<and> machine_ok (machine m'))"
proof -
  obtain r' where r': "run_until_breakpoint E (add_breakpoint addr m) = Some r'"
      "r = map_option (\<lambda>(snap, m'). (snap, if addr \<in> breakpoints (cpu (machine m)) then m'
        else remove_breakpoint addr m')) r'"
    using assms(2) by (auto simp: run_to_temporary_def Let_def)
  have "machine_ok (machine (add_breakpoint addr m))"
    using assms(3) by (simp add: add_breakpoint_def update_cpu_def machine_ok_def)
  with run_until_breakpoint_safe [OF assms(1) r'(1)] have "returns r' (stop_post (add_breakpoint addr m))"
    by blast
  then show ?thesis
    by (auto elim!: returnsE simp: r'(2) stop_post_def conf_of_def add_breakpoint_def remove_breakpoint_def
        update_cpu_def machine_ok_def)
qed

end

text \<open>
  On a host without interrupts, a run to a breakpoint returns as soon as the guest stops, be it after more
  instructions than one slice executes.
\<close>

context calm_host
begin

lemma run_until_breakpoint_stops:
  assumes "\<not> overflow_checks E"
  shows "machine_ok (machine m) \<Longrightarrow> s = machine m \<Longrightarrow>
    exec_n E (debug_enabled (cpu s) \<and> breakpoints (cpu s) \<noteq> {}) n (resume_past_breakpoint (cpu s))
      (s\<lparr>cpu := (cpu s)\<lparr>resume_past_breakpoint := None\<rparr>\<rparr>) = Some (k, Some st, sk', s') \<Longrightarrow>
    \<exists>snap. run_until_breakpoint E m = Some (Some (snap, m\<lparr>machine := s'\<rparr>))
      \<and> get_snapshot_js (st = Breakpoint) (if st = Breakpoint then pc (cpu s') else 0) (m\<lparr>machine := s'\<rparr>) = Some snap"
proof (induction n arbitrary: m s k sk' rule: less_induct)
  case (less n)
  have ok: "machine_ok s" using less.prems by simp
  from ok assms less.prems(3) show ?case
  proof (cases rule: slice_towards_stop)
    case (stopped out)
    obtain snap where "get_snapshot_js (st = Breakpoint) (if st = Breakpoint then pc (cpu s') else 0) (m\<lparr>machine := s'\<rparr>) = Some snap"
      using snapshot_value [of "cpu s'" "st = Breakpoint" "if st = Breakpoint then pc (cpu s') else 0"]
      by (auto simp: get_snapshot_js_def)
    with stopped less.prems(2) show ?thesis
      by (subst run_until_breakpoint.simps) (cases st; simp add: Let_def)
  next
    case (running out s1 n' k' sk'')
    have w: "(debug_enabled (cpu s1) \<and> breakpoints (cpu s1) \<noteq> {}) = (debug_enabled (cpu s) \<and> breakpoints (cpu s) \<noteq> {})"
      and self: "s1\<lparr>cpu := (cpu s1)\<lparr>resume_past_breakpoint := None\<rparr>\<rparr> = s1"
      using running(5,6) by (simp_all add: conf_of_def)
    show ?thesis
      using less.IH [OF running(3), of "m\<lparr>machine := s1\<rparr>" s1 k' sk''] running(1,2,4,6,7) less.prems(2)
      by (subst run_until_breakpoint.simps) (simp add: w self Let_def)
  qed
qed

end

section \<open>Debugger commands\<close>

text \<open>What every command promises of the machine it leaves: the invariant and the user's settings.\<close>

definition settings_kept :: "'h simulator \<Rightarrow> debugger_snapshot \<times> 'h simulator \<Rightarrow> bool" where
  "settings_kept m = (\<lambda>(snap, m'). breakpoints (cpu (machine m')) = breakpoints (cpu (machine m))
     \<and> debug_enabled (cpu (machine m')) = debug_enabled (cpu (machine m)) \<and> machine_ok (machine m'))"

lemma step_ok_conf: "step_ok r s s' \<Longrightarrow> machine_ok s \<Longrightarrow> machine_ok s' \<and> conf_of (cpu s') = conf_of (cpu s)"
  by (cases r) (auto simp: after_steps_def conf_of_def split: if_splits)

context stdin_host
begin

lemma debug_step_safe:
  assumes "\<not> overflow_checks E" "machine_ok (machine m)"
  shows "returns (debug_step E m) (settings_kept m)"
proof -
  obtain r s where s: "step_instruction E (machine m) = Some (r, s)" "step_ok r (machine m) s"
    using step_instruction_safe [OF assms(2,1)] by (auto elim!: returnsE)
  have "returns (snapshot (cpu s) b h) (\<lambda>_. True)" for b h using snapshot_value [of "cpu s" b h] by auto
  with step_ok_conf [OF s(2) assms(2)] show ?thesis
    by (simp add: debug_step_def s(1) Let_def get_snapshot_js_def settings_kept_def conf_of_def split: prod.split)
qed

lemma debug_step_over_safe:
  assumes "\<not> overflow_checks E" "machine_ok (machine m)" "debug_step_over E m = Some r"
  shows "returns r (settings_kept m)"
proof -
  obtain w h where r: "mem_read_u32 E (pc (cpu (machine m))) (machine m) = Some (w, (machine m)\<lparr>host := h\<rparr>)"
    using mem_read_u32_wp [OF exec_inv_refl [OF assms(2)], of "\<lambda>(w, s'). \<exists>h. s' = (machine m)\<lparr>host := h\<rparr>" E]
    by (force elim!: returnsE)
  let ?m = "m\<lparr>machine := (machine m)\<lparr>host := h\<rparr>\<rparr>"
  have ok: "machine_ok (machine ?m)" using assms(2) by simp
  have k: "settings_kept ?m = settings_kept m" by (simp add: settings_kept_def)
  show ?thesis
    using assms(1,3) r run_to_temporary_safe [OF assms(1) _ ok, folded settings_kept_def] debug_step_safe [OF assms(1) ok]
    by (auto simp: debug_step_over_def Let_def k add_or_panic_def split: if_splits)
qed

lemma debug_step_out_safe:
  assumes "\<not> overflow_checks E" "machine_ok (machine m)" "debug_step_out E m = Some r"
  shows "returns r (settings_kept m)"
  using run_to_temporary_safe [OF assms(1) _ assms(2), folded settings_kept_def] assms(3)
  by (auto simp: debug_step_out_def)

end

text \<open>Stepping over an instruction that is not a call is a single step.\<close>

lemma inst_at:
  assumes "machine_ok (machine m)" "p = pc (cpu (machine m))" "in_ram p 4" "w = load32 (ram (mem (machine m))) p"
  shows "mem_read_u32 E (pc (cpu (machine m))) (machine m) = Some (w, machine m)"
  using mem_reads_ram(3) [OF machine_ok_wf [OF assms(1)], of p E] assms(2-4) by simp

context stdin_host
begin

lemma debug_step_over_single:
  assumes "\<not> overflow_checks E" "machine_ok (machine m)" "p = pc (cpu (machine m))" "in_ram p 4"
    "w = load32 (ram (mem (machine m))) p" "\<not> is_call_instruction w"
  shows "debug_step_over E m = Some (debug_step E m) \<and> debug_step E m \<noteq> None"
  using debug_step_safe [OF assms(1,2)] inst_at [OF assms(2-5), of E] assms(6)
  by (auto simp: debug_step_over_def Let_def elim!: returnsE)

end

text \<open>
  The guest of \<open>m\<close>, run with a temporary breakpoint at \<open>a\<close>, stops with status \<open>st\<close> in the machine \<open>s'\<close> before it has
  executed \<open>n\<close> instructions.
\<close>

definition temporary_stop ::
  "'h env \<Rightarrow> u32 \<Rightarrow> 'h simulator \<Rightarrow> nat \<Rightarrow> slice_status \<Rightarrow> 'h machine \<Rightarrow> bool" where
  "temporary_stop E a m n st s' \<longleftrightarrow>
     (\<exists>k sk. exec_n E (debug_enabled (cpu (machine m))) n (resume_past_breakpoint (cpu (machine m)))
        ((machine m)\<lparr>cpu := (cpu (machine m))\<lparr>breakpoints := insert a (breakpoints (cpu (machine m))),
          resume_past_breakpoint := None\<rparr>\<rparr>) = Some (k, Some st, sk, s'))"

text \<open>The command returns that stop, with the breakpoints of \<open>m\<close>.\<close>

definition stopped_there ::
  "'h simulator \<Rightarrow> slice_status \<Rightarrow> 'h machine \<Rightarrow> debugger_snapshot \<times> 'h simulator \<Rightarrow> bool" where
  "stopped_there m st s' = (\<lambda>(snap, m'). sn_is_breakpoint snap = (st = Breakpoint) \<and> sn_pc snap = pc (cpu s')
     \<and> m' = m\<lparr>machine := s'\<lparr>cpu := (cpu s')\<lparr>breakpoints := breakpoints (cpu (machine m))\<rparr>\<rparr>\<rparr>)"

context calm_host
begin

lemma run_to_temporary_returns:
  assumes "\<not> overflow_checks E" "machine_ok (machine m)" "temporary_stop E a m n st s'"
  shows "\<exists>r. run_to_temporary E a m = Some (Some r) \<and> stopped_there m st s' r"
proof -
  let ?m = "add_breakpoint a m" and ?old = "breakpoints (cpu (machine m))"
  have ok: "machine_ok (machine ?m)" using assms(2) by (simp add: add_breakpoint_def update_cpu_def machine_ok_def)
  obtain k sk where "exec_n E (debug_enabled (cpu (machine m))) n (resume_past_breakpoint (cpu (machine m)))
      ((machine m)\<lparr>cpu := (cpu (machine m))\<lparr>breakpoints := insert a ?old, resume_past_breakpoint := None\<rparr>\<rparr>)
      = Some (k, Some st, sk, s')"
    using assms(3) by (auto simp: temporary_stop_def)
  then have "exec_n E (debug_enabled (cpu (machine ?m)) \<and> breakpoints (cpu (machine ?m)) \<noteq> {}) n
      (resume_past_breakpoint (cpu (machine ?m)))
      ((machine ?m)\<lparr>cpu := (cpu (machine ?m))\<lparr>resume_past_breakpoint := None\<rparr>\<rparr>) = Some (k, Some st, sk, s')"
    by (simp add: add_breakpoint_def update_cpu_def)
  from run_until_breakpoint_stops [OF assms(1) ok refl this] obtain snap where
      snap: "run_until_breakpoint E ?m = Some (Some (snap, ?m\<lparr>machine := s'\<rparr>))"
        "snapshot (cpu s') (st = Breakpoint) (if st = Breakpoint then pc (cpu s') else 0) = Some snap"
    by (auto simp: get_snapshot_js_def)
  define m' where "m' = (if a \<in> ?old then ?m\<lparr>machine := s'\<rparr> else remove_breakpoint a (?m\<lparr>machine := s'\<rparr>))"
  have r: "run_to_temporary E a m = Some (Some (snap, m'))"
    using snap(1) by (simp add: run_to_temporary_def m'_def Let_def)
  then have "breakpoints (cpu (machine m')) = ?old"
    using run_to_temporary_safe [OF assms(1) r assms(2)] by simp
  moreover have "m' = m\<lparr>machine := s'\<lparr>cpu := (cpu s')\<lparr>breakpoints := breakpoints (cpu (machine m'))\<rparr>\<rparr>\<rparr>"
    by (simp add: m'_def add_breakpoint_def remove_breakpoint_def update_cpu_def)
  ultimately have "m' = m\<lparr>machine := s'\<lparr>cpu := (cpu s')\<lparr>breakpoints := ?old\<rparr>\<rparr>\<rparr>" by simp
  then show ?thesis
    using r snap(2) snapshot_value [of "cpu s'" "st = Breakpoint" "if st = Breakpoint then pc (cpu s') else 0"]
    by (auto simp: stopped_there_def)
qed

lemma debug_step_out_returns:
  assumes "\<not> overflow_checks E" "machine_ok (machine m)" "temporary_stop E (regs (cpu (machine m)) 1) m n st s'"
  shows "\<exists>r. debug_step_out E m = Some (Some r) \<and> stopped_there m st s' r"
  using run_to_temporary_returns [OF assms] by (simp add: debug_step_out_def idx_def)

lemma debug_step_over_call:
  assumes "\<not> overflow_checks E" "machine_ok (machine m)" "p = pc (cpu (machine m))" "in_ram p 4"
    "w = load32 (ram (mem (machine m))) p" "is_call_instruction w"
    "temporary_stop E (p + (if w AND 3 = 3 then 4 else 2)) m n st s'"
  shows "\<exists>r. debug_step_over E m = Some (Some r) \<and> stopped_there m st s' r"
  using run_to_temporary_returns [OF assms(1,2,7)] inst_at [OF assms(2-5), of E] assms(1,3,6)
  by (simp add: debug_step_over_def Let_def)

end

section \<open>The disassembly listing\<close>

text \<open>
  The listing of a range: every item starts where the one before it ended, inside the range, and in RAM it is
  the disassembly of the word at its address; the listing stops only behind the end of the range.
\<close>

definition item_at :: "'h simulator \<Rightarrow> u32 \<Rightarrow> DisassembledInst" where
  "item_at m a = decode_instruction_with_symbols a (load32 (ram (mem (machine m))) a) (Some (symbols m))"

fun listing :: "'h simulator \<Rightarrow> u32 \<Rightarrow> u32 \<Rightarrow> DisassembledInst list \<Rightarrow> bool" where
  "listing m a stop [] \<longleftrightarrow> stop \<le> a"
| "listing m a stop (x # xs) \<longleftrightarrow> a < stop \<and> di_address x = a \<and> (in_ram a 4 \<longrightarrow> x = item_at m a)
     \<and> listing m (saturating_add a (if di_is_compressed x then 2 else 4)) stop xs"

lemma di_address_decode [simp]: "di_address (decode_instruction_with_symbols a w sy) = a"
  by (simp add: decode_instruction_with_symbols_def Let_def split: prod.split)

lemma listing_host [simp]: "listing (m\<lparr>machine := (machine m)\<lparr>host := h\<rparr>\<rparr>) a stop items = listing m a stop items"
  by (induction items arbitrary: a) (simp_all add: item_at_def)

lemma disassemble_loop_listing:
  "machine_ok (machine m) \<Longrightarrow> returns (disassemble_loop E start len cur m)
     (\<lambda>(items, m'). listing m cur (saturating_add start len) items
        \<and> (\<exists>h. m' = m\<lparr>machine := (machine m)\<lparr>host := h\<rparr>\<rparr>))"
proof (induction E start len cur m rule: disassemble_loop.induct)
  case (1 E start len cur m)
  show ?case
  proof (cases "cur < saturating_add start len")
    case False
    then show ?thesis by (subst disassemble_loop.simps) (auto intro: exI [of _ "host (machine m)"])
  next
    case True
    obtain w h where r: "mem_read_u32 E cur (machine m) = Some (w, (machine m)\<lparr>host := h\<rparr>)"
      using mem_read_u32_wp [OF exec_inv_refl [OF 1(2)], of "\<lambda>(w, s'). \<exists>h. s' = (machine m)\<lparr>host := h\<rparr>" E cur]
      by (auto elim!: returnsE)
    let ?m = "m\<lparr>machine := (machine m)\<lparr>host := h\<rparr>\<rparr>"
    let ?item = "decode_instruction_with_symbols cur w (Some (symbols m))"
    have item: "in_ram cur 4 \<longrightarrow> ?item = item_at m cur"
      using r mem_reads_ram(3) [OF machine_ok_wf [OF 1(2)], of cur E] by (simp add: item_at_def)
    have "machine_ok (machine ?m)" using 1(2) by simp
    from 1(1) [OF True r refl refl refl refl this]
    obtain items h' where rest: "disassemble_loop E start len (saturating_add cur (if di_is_compressed ?item then 2 else 4)) ?m
          = Some (items, m\<lparr>machine := (machine m)\<lparr>host := h'\<rparr>\<rparr>)"
        "listing m (saturating_add cur (if di_is_compressed ?item then 2 else 4)) (saturating_add start len) items"
      by (auto elim!: returnsE)
    then have "disassemble_loop E start len cur m = Some (?item # items, m\<lparr>machine := (machine m)\<lparr>host := h'\<rparr>\<rparr>)"
      using True r by (subst disassemble_loop.simps) (simp add: Let_def)
    moreover have "listing m cur (saturating_add start len) (?item # items)" using True item rest(2) by simp
    ultimately show ?thesis by (simp add: returns_def) blast
  qed
qed

end
