(* ===== verification/Expand.thy ===== *)
theory Expand
  imports Safe_Exec Encode
begin

text \<open>
  Compressed instructions are abbreviations. \<open>expand16\<close> is the table of the C extension for RV32FDC: the
  32-bit instruction that each halfword stands for, or \<open>None\<close> for an encoding the emulator rejects. Its
  fields are given as the manual gives them, by the positions of their bits in the halfword, and share nothing with
  the extractors of the emulator, which are shown to compute them. The theorem at the end says that the
  emulator's separate execution path for halfwords computes what its path for words computes on the expansion.

  The table follows the manual, with one exception: \<open>c.lui\<close> with destination \<open>x0\<close> is a hint in the
  manual and \<open>execute_inst16\<close> rejects it as reserved.
\<close>

section \<open>Fields\<close>

text \<open>The bits of a halfword at the given positions, the most significant one first.\<close>

fun bits_at :: "u16 \<Rightarrow> nat list \<Rightarrow> u32" where
  "bits_at c [] = 0"
| "bits_at c (p # ps) = push_bit (length ps) (of_bool (bit c p)) OR bits_at c ps"

text \<open>An immediate whose lowest bit has weight \<open>2^k\<close>, zero-extended or sign-extended from its first bit.\<close>

definition uimm :: "u16 \<Rightarrow> nat list \<Rightarrow> nat \<Rightarrow> u32" where
  "uimm c ps k = push_bit k (bits_at c ps)"

definition simm :: "u16 \<Rightarrow> nat list \<Rightarrow> nat \<Rightarrow> u32" where
  "simm c ps k = push_bit k (signed_take_bit (length ps - 1) (bits_at c ps))"

definition reg_at :: "u16 \<Rightarrow> nat list \<Rightarrow> nat" where
  "reg_at c ps = unat (bits_at c ps)"

text \<open>The register fields: full ones, and the three-bit ones that name \<open>x8\<close> to \<open>x15\<close>.\<close>

definition cr_rd :: "u16 \<Rightarrow> nat" where "cr_rd c = reg_at c [11, 10, 9, 8, 7]"
definition cr_rs2 :: "u16 \<Rightarrow> nat" where "cr_rs2 c = reg_at c [6, 5, 4, 3, 2]"
definition cl_hi :: "u16 \<Rightarrow> nat" where "cl_hi c = 8 + reg_at c [9, 8, 7]"
definition cl_lo :: "u16 \<Rightarrow> nat" where "cl_lo c = 8 + reg_at c [4, 3, 2]"

text \<open>The immediates of the formats.\<close>

definition imm_addi4spn :: "u16 \<Rightarrow> u32" where "imm_addi4spn c = uimm c [10, 9, 8, 7, 12, 11, 5, 6] 2"
definition imm_cl_word :: "u16 \<Rightarrow> u32" where "imm_cl_word c = uimm c [5, 12, 11, 10, 6] 2"
definition imm_cl_double :: "u16 \<Rightarrow> u32" where "imm_cl_double c = uimm c [6, 5, 12, 11, 10] 3"
definition imm_ci :: "u16 \<Rightarrow> u32" where "imm_ci c = simm c [12, 6, 5, 4, 3, 2] 0"
definition imm_addi16sp :: "u16 \<Rightarrow> u32" where "imm_addi16sp c = simm c [12, 4, 3, 5, 2, 6] 4"
definition imm_cj :: "u16 \<Rightarrow> u32" where "imm_cj c = simm c [12, 8, 10, 9, 6, 7, 2, 11, 5, 4, 3] 1"
definition imm_cb :: "u16 \<Rightarrow> u32" where "imm_cb c = simm c [12, 6, 5, 2, 11, 10, 4, 3] 1"
definition imm_lwsp :: "u16 \<Rightarrow> u32" where "imm_lwsp c = uimm c [3, 2, 12, 6, 5, 4] 2"
definition imm_ldsp :: "u16 \<Rightarrow> u32" where "imm_ldsp c = uimm c [4, 3, 2, 12, 6, 5] 3"
definition imm_swsp :: "u16 \<Rightarrow> u32" where "imm_swsp c = uimm c [8, 7, 12, 11, 10, 9] 2"
definition imm_sdsp :: "u16 \<Rightarrow> u32" where "imm_sdsp c = uimm c [9, 8, 7, 12, 11, 10] 3"

section \<open>The table\<close>

definition addi :: "nat \<Rightarrow> nat \<Rightarrow> u32 \<Rightarrow> u32" where
  "addi rd rs1 imm = encode_i 0x13 rd 0 rs1 imm"

definition expand_q0 :: "u16 \<Rightarrow> u8 \<Rightarrow> u32 option" where
  "expand_q0 c f3 =
     (let r = cl_lo c; b = cl_hi c in
      if f3 = 0 then (if imm_addi4spn c = 0 then None else Some (addi r 2 (imm_addi4spn c)))
      else if f3 = 1 then Some (encode_i 0x07 r 3 b (imm_cl_double c))
      else if f3 = 2 then Some (encode_i 0x03 r 2 b (imm_cl_word c))
      else if f3 = 3 then Some (encode_i 0x07 r 2 b (imm_cl_word c))
      else if f3 = 5 then Some (encode_s 0x27 3 b r (imm_cl_double c))
      else if f3 = 6 then Some (encode_s 0x23 2 b r (imm_cl_word c))
      else if f3 = 7 then Some (encode_s 0x27 2 b r (imm_cl_word c))
      else None)"

definition expand_misc_alu :: "u16 \<Rightarrow> u32 option" where
  "expand_misc_alu c =
     (let r = cl_hi c; x = cl_lo c; sel = bits_at c [11, 10]; alu = bits_at c [6, 5] in
      if sel = 2 then Some (encode_i 0x13 r 7 r (imm_ci c))
      else if bit c 12 then None
      else if sel = 0 then Some (encode_r 0x13 r 5 r (cr_rs2 c) 0x00)
      else if sel = 1 then Some (encode_r 0x13 r 5 r (cr_rs2 c) 0x20)
      else if alu = 0 then Some (encode_r 0x33 r 0 r x 0x20)
      else if alu = 1 then Some (encode_r 0x33 r 4 r x 0x00)
      else if alu = 2 then Some (encode_r 0x33 r 6 r x 0x00)
      else Some (encode_r 0x33 r 7 r x 0x00))"

definition expand_q1 :: "u16 \<Rightarrow> u8 \<Rightarrow> u32 option" where
  "expand_q1 c f3 =
     (let rd = cr_rd c; imm = imm_ci c in
      if f3 = 0 then Some (addi rd rd imm)
      else if f3 = 1 then Some (encode_j 0x6F 1 (imm_cj c))
      else if f3 = 2 then Some (addi rd 0 imm)
      else if f3 = 3 then
        (if rd = 2 then (if imm_addi16sp c = 0 then None else Some (addi 2 2 (imm_addi16sp c)))
         else if rd = 0 \<or> imm = 0 then None
         else Some (encode_u 0x37 rd (push_bit 12 imm)))
      else if f3 = 4 then expand_misc_alu c
      else if f3 = 5 then Some (encode_j 0x6F 0 (imm_cj c))
      else if f3 = 6 then Some (encode_b 0x63 0 (cl_hi c) 0 (imm_cb c))
      else if f3 = 7 then Some (encode_b 0x63 1 (cl_hi c) 0 (imm_cb c))
      else None)"

definition expand_q2 :: "u16 \<Rightarrow> u8 \<Rightarrow> u32 option" where
  "expand_q2 c f3 =
     (let rd = cr_rd c; rs2 = cr_rs2 c in
      if f3 = 0 then (if bit c 12 then None else Some (encode_r 0x13 rd 1 rd (cr_rs2 c) 0x00))
      else if f3 = 1 then Some (encode_i 0x07 rd 3 2 (imm_ldsp c))
      else if f3 = 2 then (if rd = 0 then None else Some (encode_i 0x03 rd 2 2 (imm_lwsp c)))
      else if f3 = 3 then Some (encode_i 0x07 rd 2 2 (imm_lwsp c))
      else if f3 = 4 then
        (if \<not> bit c 12
         then (if rs2 = 0 then (if rd = 0 then None else Some (encode_i 0x67 0 0 rd 0))
               else Some (encode_r 0x33 rd 0 0 rs2 0x00))
         else (if rs2 = 0 then (if rd = 0 then Some 0x00100073 else Some (encode_i 0x67 1 0 rd 0))
               else Some (encode_r 0x33 rd 0 rd rs2 0x00)))
      else if f3 = 5 then Some (encode_s 0x27 3 2 rs2 (imm_sdsp c))
      else if f3 = 6 then Some (encode_s 0x23 2 2 rs2 (imm_swsp c))
      else if f3 = 7 then Some (encode_s 0x27 2 2 rs2 (imm_swsp c))
      else None)"

definition expand16 :: "u16 \<Rightarrow> u32 option" where
  "expand16 c =
     (let op = bits_at c [1, 0]; f3 = ucast (bits_at c [15, 14, 13]) in
      if op = 0 then expand_q0 c f3 else if op = 1 then expand_q1 c f3 else if op = 2 then expand_q2 c f3 else None)"

section \<open>The emulator's extractors compute the fields\<close>

lemmas c_imm_defs = c_addi4spn_imm_def cl_word_offset_def cl_double_offset_def ci_word_sp_offset_def
  ci_double_sp_offset_def css_word_sp_offset_def css_double_sp_offset_def c_sign_ext6_def c_imm6_def
  c_j_offset_def c_imm11_def c_addi16sp_offset_def c_addi16sp_imm_def c_b_offset_def c_b_imm_def

lemma fields_imm:
  "imm_addi4spn c = c_addi4spn_imm c" "imm_cl_word c = cl_word_offset c" "imm_cl_double c = cl_double_offset c"
  "imm_ci c = scast (c_sign_ext6 c)" "imm_addi16sp c = c_addi16sp_offset c" "imm_cj c = c_j_offset c"
  "imm_cb c = c_b_offset c" "imm_lwsp c = ci_word_sp_offset c" "imm_ldsp c = ci_double_sp_offset c"
  "imm_swsp c = css_word_sp_offset c" "imm_sdsp c = css_double_sp_offset c"
  unfolding imm_addi4spn_def imm_cl_word_def imm_cl_double_def imm_ci_def imm_addi16sp_def imm_cj_def imm_cb_def
    imm_lwsp_def imm_ldsp_def imm_swsp_def imm_sdsp_def uimm_def simm_def
  by (rule word32_eqI; simp add: c_imm_defs bit_simps)+

lemma bits_at_field:
  "bits_at c [1, 0] = ucast (c AND 3)" "bits_at c [15, 14, 13] = ucast (shift_then_mask c 13 7)"
  "bits_at c [11, 10] = ucast (shift_then_mask c 10 3)" "bits_at c [6, 5] = ucast (shift_then_mask c 5 3)"
  "bits_at c [11, 10, 9, 8, 7] = ucast (shift_then_mask c 7 0x1F)"
  "bits_at c [6, 5, 4, 3, 2] = ucast (shift_then_mask c 2 0x1F)"
  "bits_at c [9, 8, 7] = ucast (shift_then_mask c 7 7)" "bits_at c [4, 3, 2] = ucast (shift_then_mask c 2 7)"
  by (rule word32_eqI; simp add: shift_then_mask_def bit_simps)+

lemma fields_reg: "cr_rd c = c_rd c" "cr_rs2 c = c_rs2 c" "cl_hi c = creg c 7" "cl_lo c = creg c 2"
proof -
  have u: "unat (ucast x :: u32) = unat x" for x :: u16
    by (simp add: unsigned_ucast_eq take_bit_nat_eq_self [OF less_trans [OF unsigned_less]])
  have s: "unat (shift_then_mask c k 7 + 8) = 8 + unat (shift_then_mask c k 7)" for k
    using shift_then_mask_less [of "7 :: u16" 8 c k] by (simp add: unat_word_ariths)
  show "cr_rd c = c_rd c" "cr_rs2 c = c_rs2 c" "cl_hi c = creg c 7" "cl_lo c = creg c 2"
    by (simp_all only: cr_rd_def cr_rs2_def cl_hi_def cl_lo_def reg_at_def bits_at_field c_rd_def c_rs2_def c_shamt_def creg_def u s)
qed

lemma field_bit12: "bit c 12 \<longleftrightarrow> c_bit12 c \<noteq> 0"
proof -
  have "c_bit12 c = of_bool (bit c 12)"
    by (rule bit_word_eqI) (auto simp: c_bit12_def shift_then_mask_def bit_simps bit_numeral_rec bit_1_iff)
  then show ?thesis by simp
qed

lemma ucast_small_eq:
  "(ucast (x :: u16) :: u32) = 0 \<longleftrightarrow> x = 0" "(ucast x :: u32) = 1 \<longleftrightarrow> x = 1" "(ucast x :: u32) = 2 \<longleftrightarrow> x = 2"
proof -
  have u: "unat (ucast x :: u32) = unat x"
    by (simp add: unsigned_ucast_eq take_bit_nat_eq_self [OF less_trans [OF unsigned_less]])
  show "(ucast x :: u32) = 0 \<longleftrightarrow> x = 0" "(ucast x :: u32) = 1 \<longleftrightarrow> x = 1" "(ucast x :: u32) = 2 \<longleftrightarrow> x = 2"
    by (simp_all only: word_unat_eq_iff u unat_0 unat_1 unat_numeral) simp
qed

lemma imm_zero: "c_addi16sp_offset c = 0 \<longleftrightarrow> c_addi16sp_imm c = 0" "(scast (c_sign_ext6 c) :: u32) = 0 \<longleftrightarrow> c_imm6 c = 0"
proof -
  have "(ucast (c_addi16sp_imm c) :: u32) = 0" if z: "c_addi16sp_offset c = 0"
    using arg_cong [OF z, of "\<lambda>w. bit w 4"] arg_cong [OF z, of "\<lambda>w. bit w 5"] arg_cong [OF z, of "\<lambda>w. bit w 6"]
      arg_cong [OF z, of "\<lambda>w. bit w 7"] arg_cong [OF z, of "\<lambda>w. bit w 8"] arg_cong [OF z, of "\<lambda>w. bit w 9"]
    by (intro word32_eqI) (simp_all add: c_imm_defs bit_simps)
  then show "c_addi16sp_offset c = 0 \<longleftrightarrow> c_addi16sp_imm c = 0"
    by (auto simp: ucast_small_eq c_addi16sp_offset_def)
  have "(ucast (c_imm6 c) :: u32) = 0" if z: "(scast (c_sign_ext6 c) :: u32) = 0"
    using arg_cong [OF z, of "\<lambda>w. bit w 0"] arg_cong [OF z, of "\<lambda>w. bit w 1"] arg_cong [OF z, of "\<lambda>w. bit w 2"]
      arg_cong [OF z, of "\<lambda>w. bit w 3"] arg_cong [OF z, of "\<lambda>w. bit w 4"] arg_cong [OF z, of "\<lambda>w. bit w 5"]
    by (intro word32_eqI) (simp_all add: c_imm_defs bit_simps)
  then show "(scast (c_sign_ext6 c) :: u32) = 0 \<longleftrightarrow> c_imm6 c = 0"
    by (auto simp: ucast_small_eq c_sign_ext6_def)
qed

lemma small_cast:
  assumes "unat (x :: u16) < 8"
  shows "(ucast x :: u8) = 0 \<longleftrightarrow> x = 0" "(ucast x :: u8) = 1 \<longleftrightarrow> x = 1" "(ucast x :: u8) = 2 \<longleftrightarrow> x = 2"
    "(ucast x :: u8) = 3 \<longleftrightarrow> x = 3" "(ucast x :: u8) = 4 \<longleftrightarrow> x = 4" "(ucast x :: u8) = 5 \<longleftrightarrow> x = 5"
    "(ucast x :: u8) = 6 \<longleftrightarrow> x = 6" "(ucast x :: u8) = 7 \<longleftrightarrow> x = 7"
proof -
  have u: "unat (ucast x :: u8) = unat x"
    using assms by (simp add: unsigned_ucast_eq take_bit_nat_eq_self)
  show "(ucast x :: u8) = 0 \<longleftrightarrow> x = 0" "(ucast x :: u8) = 1 \<longleftrightarrow> x = 1" "(ucast x :: u8) = 2 \<longleftrightarrow> x = 2"
    "(ucast x :: u8) = 3 \<longleftrightarrow> x = 3" "(ucast x :: u8) = 4 \<longleftrightarrow> x = 4" "(ucast x :: u8) = 5 \<longleftrightarrow> x = 5"
    "(ucast x :: u8) = 6 \<longleftrightarrow> x = 6" "(ucast x :: u8) = 7 \<longleftrightarrow> x = 7"
    by (simp_all only: word_unat_eq_iff u unat_0 unat_1 unat_numeral) simp_all
qed

lemma decode16_fields:
  "h_op (decode16 c) = 0 \<longleftrightarrow> c AND 3 = 0" "h_op (decode16 c) = 1 \<longleftrightarrow> c AND 3 = 1"
  "h_op (decode16 c) = 2 \<longleftrightarrow> c AND 3 = 2"
  by (simp_all add: decode16_def small_cast unat_and_less)

text \<open>The table over the emulator's extractors.\<close>

lemmas field_simps16 = fields_imm fields_reg imm_zero field_bit12

lemma expand_q0_code:
  "expand_q0 c f3 =
     (let r = creg c 2; b = creg c 7 in
      if f3 = 0 then (if c_addi4spn_imm c = 0 then None else Some (addi r 2 (c_addi4spn_imm c)))
      else if f3 = 1 then Some (encode_i 0x07 r 3 b (cl_double_offset c))
      else if f3 = 2 then Some (encode_i 0x03 r 2 b (cl_word_offset c))
      else if f3 = 3 then Some (encode_i 0x07 r 2 b (cl_word_offset c))
      else if f3 = 5 then Some (encode_s 0x27 3 b r (cl_double_offset c))
      else if f3 = 6 then Some (encode_s 0x23 2 b r (cl_word_offset c))
      else if f3 = 7 then Some (encode_s 0x27 2 b r (cl_word_offset c))
      else None)"
  by (simp add: expand_q0_def field_simps16 Let_def)

lemma expand_misc_alu_code:
  "expand_misc_alu c =
     (let r = creg c 7; sel = shift_then_mask c 10 3; alu = shift_then_mask c 5 3 in
      if sel = 2 then Some (encode_i 0x13 r 7 r (scast (c_sign_ext6 c)))
      else if c_bit12 c \<noteq> 0 then None
      else if sel = 0 then Some (encode_r 0x13 r 5 r (c_shamt c) 0x00)
      else if sel = 1 then Some (encode_r 0x13 r 5 r (c_shamt c) 0x20)
      else if alu = 0 then Some (encode_r 0x33 r 0 r (creg c 2) 0x20)
      else if alu = 1 then Some (encode_r 0x33 r 4 r (creg c 2) 0x00)
      else if alu = 2 then Some (encode_r 0x33 r 6 r (creg c 2) 0x00)
      else Some (encode_r 0x33 r 7 r (creg c 2) 0x00))"
  by (simp add: expand_misc_alu_def field_simps16 c_rs2_def c_shamt_def bits_at_field ucast_small_eq Let_def del: bits_at.simps)

lemma expand_q1_code:
  "expand_q1 c f3 =
     (let rd = c_rd c; imm = scast (c_sign_ext6 c) in
      if f3 = 0 then Some (addi rd rd imm)
      else if f3 = 1 then Some (encode_j 0x6F 1 (c_j_offset c))
      else if f3 = 2 then Some (addi rd 0 imm)
      else if f3 = 3 then
        (if rd = 2 then (if c_addi16sp_imm c = 0 then None else Some (addi 2 2 (c_addi16sp_offset c)))
         else if rd = 0 \<or> c_imm6 c = 0 then None
         else Some (encode_u 0x37 rd (push_bit 12 imm)))
      else if f3 = 4 then expand_misc_alu c
      else if f3 = 5 then Some (encode_j 0x6F 0 (c_j_offset c))
      else if f3 = 6 then Some (encode_b 0x63 0 (creg c 7) 0 (c_b_offset c))
      else if f3 = 7 then Some (encode_b 0x63 1 (creg c 7) 0 (c_b_offset c))
      else None)"
  by (simp add: expand_q1_def field_simps16 Let_def)

lemma expand_q2_code:
  "expand_q2 c f3 =
     (let rd = c_rd c; rs2 = c_rs2 c in
      if f3 = 0 then (if c_bit12 c \<noteq> 0 then None else Some (encode_r 0x13 rd 1 rd (c_shamt c) 0x00))
      else if f3 = 1 then Some (encode_i 0x07 rd 3 2 (ci_double_sp_offset c))
      else if f3 = 2 then (if rd = 0 then None else Some (encode_i 0x03 rd 2 2 (ci_word_sp_offset c)))
      else if f3 = 3 then Some (encode_i 0x07 rd 2 2 (ci_word_sp_offset c))
      else if f3 = 4 then
        (if c_bit12 c = 0
         then (if rs2 = 0 then (if rd = 0 then None else Some (encode_i 0x67 0 0 rd 0))
               else Some (encode_r 0x33 rd 0 0 rs2 0x00))
         else (if rs2 = 0 then (if rd = 0 then Some 0x00100073 else Some (encode_i 0x67 1 0 rd 0))
               else Some (encode_r 0x33 rd 0 rd rs2 0x00)))
      else if f3 = 5 then Some (encode_s 0x27 3 2 rs2 (css_double_sp_offset c))
      else if f3 = 6 then Some (encode_s 0x23 2 2 rs2 (css_word_sp_offset c))
      else if f3 = 7 then Some (encode_s 0x27 2 2 rs2 (css_word_sp_offset c))
      else None)"
  by (simp add: expand_q2_def field_simps16 c_rs2_def c_shamt_def Let_def)

lemma funct3_bits: "(ucast (ucast (shift_then_mask c 13 7) :: u32) :: u8) = h_funct3 (decode16 c)"
  by (rule bit_word_eqI) (auto simp: decode16_def shift_then_mask_def bit_simps)

lemma expand16_code:
  "expand16 c =
     (let d = decode16 c in
      if h_op d = 0 then expand_q0 c (h_funct3 d)
      else if h_op d = 1 then expand_q1 c (h_funct3 d)
      else if h_op d = 2 then expand_q2 c (h_funct3 d)
      else None)"
  unfolding expand16_def bits_at_field Let_def by (simp add: decode16_fields ucast_small_eq funct3_bits)

section \<open>The immediates fit their fields\<close>

lemma i_imm_fits:
  "signed_take_bit 11 (c_addi4spn_imm c) = c_addi4spn_imm c"
  "signed_take_bit 11 (cl_word_offset c) = cl_word_offset c"
  "signed_take_bit 11 (cl_double_offset c) = cl_double_offset c"
  "signed_take_bit 11 (ci_word_sp_offset c) = ci_word_sp_offset c"
  "signed_take_bit 11 (ci_double_sp_offset c) = ci_double_sp_offset c"
  "signed_take_bit 11 (css_word_sp_offset c) = css_word_sp_offset c"
  "signed_take_bit 11 (css_double_sp_offset c) = css_double_sp_offset c"
  by (rule word32_eqI; simp add: c_imm_defs bit_simps)+

lemma signed_imm_fits:
  "signed_take_bit 11 (scast (c_sign_ext6 c) :: u32) = scast (c_sign_ext6 c)"
  "signed_take_bit 11 (c_addi16sp_offset c) = c_addi16sp_offset c"
  "signed_take_bit 12 (c_b_offset c AND NOT 1) = c_b_offset c"
  "signed_take_bit 20 (c_j_offset c AND NOT 1) = c_j_offset c"
  "(push_bit 12 (scast (c_sign_ext6 c) :: u32)) AND 0xFFFFF000 = push_bit 12 (scast (c_sign_ext6 c))"
  by (rule word32_eqI; simp add: c_imm_defs bit_simps)+

section \<open>Execution\<close>

lemma put_xreg_same [simp]: "put_xreg s r (xreg s r) = s"
  by (simp add: put_xreg_def xreg_def)

lemma put_xreg_0 [simp]: "put_xreg s 0 v = s"
  by (simp add: put_xreg_def)

lemma xreg_0 [simp]: "xreg s 0 = 0"
  by (simp add: xreg_def)

lemma c_shamt_bound [simp]: "c_shamt c < 32" "c_shamt c AND 31 = c_shamt c"
proof -
  show "c_shamt c < 32" by (simp add: c_shamt_def width_simps)
  then show "c_shamt c AND 31 = c_shamt c"
    using take_bit_nat_eq_self [of "c_shamt c" 5] by (simp add: take_bit_eq_mask mask_numeral)
qed

text \<open>What the 32-bit path does on the fields of an expansion.\<close>

lemmas run32 = dispatch32_def exec_rv32i_def exec_rv32fd_def keep_pc_def and_then_def decode_encode
  exec_simps Let_def ok_def

lemma run_addi:
  "rd < 32 \<Longrightarrow> rs1 < 32 \<Longrightarrow> signed_take_bit 11 imm = imm \<Longrightarrow>
     dispatch32 E (decode32 (addi rd rs1 imm)) np s = ok np (put_xreg s rd (xreg s rs1 + imm))"
  by (simp add: run32 addi_def exec_op_imm_def op_imm_val_def)

lemma run_loads:
  assumes "rd < 32" "b < 32" "signed_take_bit 11 off = off" "\<not> overflow_checks E"
  shows "dispatch32 E (decode32 (encode_i 0x03 rd 2 b off)) np s = c_lw E rd b off np s"
    "dispatch32 E (decode32 (encode_i 0x07 rd 2 b off)) np s = c_flw E rd b off np s"
    "dispatch32 E (decode32 (encode_i 0x07 rd 3 b off)) np s = c_fld E rd b off np s"
  using assms
  by (auto simp: run32 exec_load_def exec_load_fp_def c_lw_def c_flw_def c_fld_def
      split: Option.bind_split)

lemma run_stores:
  assumes "r < 32" "b < 32" "signed_take_bit 11 off = off" "\<not> overflow_checks E"
  shows "dispatch32 E (decode32 (encode_s 0x23 2 b r off)) np s = c_sw E r b off np s"
    "dispatch32 E (decode32 (encode_s 0x27 2 b r off)) np s = c_fsw E r b off np s"
    "dispatch32 E (decode32 (encode_s 0x27 3 b r off)) np s = c_fsd E r b off np s"
  using assms
  by (auto simp: run32 exec_store_def exec_store_fp_def c_sw_def c_fsw_def c_fsd_def
      split: Option.bind_split)

lemma run_shift:
  assumes "rd < 32" "n < 32" "n AND 31 = n"
  shows "dispatch32 E (decode32 (encode_r 0x13 rd 1 rd n 0)) np s = ok np (put_xreg s rd (push_bit n (xreg s rd)))"
    "dispatch32 E (decode32 (encode_r 0x13 rd 5 rd n 0)) np s = ok np (put_xreg s rd (drop_bit n (xreg s rd)))"
    "dispatch32 E (decode32 (encode_r 0x13 rd 5 rd n 0x20)) np s
      = ok np (put_xreg s rd (signed_drop_bit n (xreg s rd)))"
  using assms by (simp_all add: run32 exec_op_imm_def op_imm_val_def)

lemma run_alu:
  assumes "rd < 32" "r1 < 32" "r2 < 32"
  shows "dispatch32 E (decode32 (encode_r 0x33 rd 0 r1 r2 0)) np s = ok np (put_xreg s rd (xreg s r1 + xreg s r2))"
    "dispatch32 E (decode32 (encode_r 0x33 rd 0 r1 r2 0x20)) np s = ok np (put_xreg s rd (xreg s r1 - xreg s r2))"
    "dispatch32 E (decode32 (encode_r 0x33 rd 4 r1 r2 0)) np s = ok np (put_xreg s rd (xreg s r1 XOR xreg s r2))"
    "dispatch32 E (decode32 (encode_r 0x33 rd 6 r1 r2 0)) np s = ok np (put_xreg s rd (xreg s r1 OR xreg s r2))"
    "dispatch32 E (decode32 (encode_r 0x33 rd 7 r1 r2 0)) np s = ok np (put_xreg s rd (xreg s r1 AND xreg s r2))"
  using assms by (simp_all add: run32 exec_op_def op_val_def)

lemma run_andi:
  "rd < 32 \<Longrightarrow> signed_take_bit 11 imm = imm \<Longrightarrow>
     dispatch32 E (decode32 (encode_i 0x13 rd 7 rd imm)) np s = ok np (put_xreg s rd (xreg s rd AND imm))"
  by (simp add: run32 exec_op_imm_def op_imm_val_def)

lemma run_jal:
  "rd < 32 \<Longrightarrow> signed_take_bit 20 (off AND NOT 1) = off \<Longrightarrow>
     dispatch32 E (decode32 (encode_j 0x6F rd off)) np s = ok (pc (cpu s) + off) (put_xreg s rd np)"
  by (simp add: run32)

lemma run_jalr:
  "rd < 32 \<Longrightarrow> r1 < 32 \<Longrightarrow>
     dispatch32 E (decode32 (encode_i 0x67 rd 0 r1 0)) np s = ok (xreg s r1 AND NOT 1) (put_xreg s rd np)"
  by (simp add: run32)

lemma run_branches:
  assumes "r1 < 32" "signed_take_bit 12 (off AND NOT 1) = off"
  shows "dispatch32 E (decode32 (encode_b 0x63 0 r1 0 off)) np s
      = ok (if xreg s r1 = 0 then pc (cpu s) + off else np) s"
    "dispatch32 E (decode32 (encode_b 0x63 1 r1 0 off)) np s
      = ok (if xreg s r1 \<noteq> 0 then pc (cpu s) + off else np) s"
  using assms by (simp_all add: run32 exec_branch_def branch_taken_def)

lemma run_lui:
  "rd < 32 \<Longrightarrow> imm AND 0xFFFFF000 = imm \<Longrightarrow>
     dispatch32 E (decode32 (encode_u 0x37 rd imm)) np s = ok np (put_xreg s rd imm)"
  by (simp add: run32)

lemma run_ebreak:
  "dispatch32 E (decode32 0x00100073) np s = ok np (s\<lparr>cpu := (cpu s)\<lparr>is_halted := True\<rparr>\<rparr>)"
  by (simp add: dispatch32_def decode32_def shift_then_mask_def exec_csr_def Let_def)

lemmas run_expansion = run_addi run_loads run_stores run_shift run_alu run_andi
  run_jal [OF _ signed_imm_fits(4)] run_jalr run_branches [OF _ signed_imm_fits(3)]
  run_lui run_ebreak i_imm_fits signed_imm_fits(1,2,5)

definition agrees :: "'h env \<Rightarrow> u16 \<Rightarrow> (u32, 'h) outcome \<Rightarrow> u32 option \<Rightarrow> u32 \<Rightarrow> 'h machine \<Rightarrow> bool" where
  "agrees E c r x np s \<longleftrightarrow>
     r = (case x of Some w \<Rightarrow> dispatch32 E (decode32 w) np s | None \<Rightarrow> illegal16 c s)"

lemma expand_q0_agrees:
  "\<not> overflow_checks E \<Longrightarrow> agrees E c (exec_q0 E c f3 np s) (expand_q0 c f3) np s"
  by (simp add: agrees_def exec_q0_def expand_q0_code Let_def exec_simps run_expansion)

lemma expand_misc_alu_agrees: "agrees E c (c_misc_alu c np s) (expand_misc_alu c) np s"
  by (simp add: agrees_def c_misc_alu_def expand_misc_alu_code c_alu_val_def Let_def exec_simps run_expansion)

lemma expand_q1_agrees: "agrees E c (exec_q1 c f3 np s) (expand_q1 c f3) np s"
  using expand_misc_alu_agrees [of E c np s]
  by (simp add: agrees_def exec_q1_def expand_q1_code c_addi_def c_lui_addi16sp_def Let_def exec_simps run_expansion)

lemma expand_q2_agrees:
  "\<not> overflow_checks E \<Longrightarrow> agrees E c (exec_q2 E c f3 np s) (expand_q2 c f3) np s"
  by (simp add: agrees_def exec_q2_def expand_q2_code c_slli_def c_jr_mv_add_def Let_def exec_simps run_expansion)

lemma dispatch16_expand:
  "\<not> overflow_checks E \<Longrightarrow>
     dispatch16 E c np s =
       (case expand16 c of Some w \<Rightarrow> dispatch32 E (decode32 w) np s | None \<Rightarrow> illegal16 c s)"
  using expand_q0_agrees [of E c _ np s] expand_q1_agrees [of E c _ np s] expand_q2_agrees [of E c _ np s]
  by (simp add: dispatch16_def expand16_code Let_def agrees_def)

end
