(* ===== verification/Effects.thy ===== *)
theory Effects
  imports Safe_Sim Expand
begin

text \<open>
  What the SYSTEM instructions, the floating-point registers and the fetch window do, as equations and
  postconditions: interrupts and \<open>mret\<close>, CSR accesses, each system call, NaN boxing.
\<close>

section \<open>Interrupt state\<close>

lemma mstatus_bits:
  "bit (trap_mstatus m) n = (if n = 3 then False else if n = 7 then bit m 3 else bit m n)"
  "bit (mret_mstatus m) n = (if n = 3 then bit m 7 else if n = 7 then True else bit m n)"
proof -
  have mie: "MSTATUS_MIE = 2 ^ 3" and mpie: "MSTATUS_MPIE = 2 ^ 7"
    by (simp_all add: MSTATUS_MIE_def MSTATUS_MPIE_def)
  have t: "m AND 2 ^ k \<noteq> 0 \<longleftrightarrow> bit m k" for k
    by (simp add: bit_iff_and_push_bit_not_eq_0)
  have len: "bit m n \<Longrightarrow> n < 32" for n using bit_imp_le_length [of m n] by simp
  show "bit (trap_mstatus m) n = (if n = 3 then False else if n = 7 then bit m 3 else bit m n)"
    unfolding trap_mstatus_def mie mpie t by (auto simp: bit_simps simp del: power_numeral dest: len)
  show "bit (mret_mstatus m) n = (if n = 3 then bit m 7 else if n = 7 then True else bit m n)"
    unfolding mret_mstatus_def mie mpie t Let_def by (auto simp: bit_simps simp del: power_numeral dest: len)
qed

lemma interrupts_enabled_bit: "interrupts_enabled c = Some (bit (csrs c 0x300) 3)"
  by (simp add: interrupts_enabled_def exec_simps MSTATUS_MIE_def bit_iff_and_push_bit_not_eq_0)

text \<open>The SYSTEM instructions, by their encodings.\<close>

lemma run_mret:
  "execute_inst32 E 0x30200073 s = Some (Inr (), s\<lparr>cpu := (cpu s)\<lparr>
     csrs := (csrs (cpu s))(0x300 := mret_mstatus (csrs (cpu s) 0x300)),
     pc := (if csrs (cpu s) 0x341 \<noteq> 0 then csrs (cpu s) 0x341 else pc (cpu s) + 4)\<rparr>\<rparr>)"
  by (simp add: execute_inst32_def dispatch32_def decode32_def shift_then_mask_def exec_csr_def exec_mret_def
      exec_simps Let_def and_then_def ok_def set_pc_def)

lemma run_ecall:
  "execute_inst32 E 0x00000073 s = do {
     (res, s') \<leftarrow> handle_ecall E s;
     case res of
       Inl sys \<Rightarrow> Some (Inl (UnknownSyscallError sys), s')
     | Inr _ \<Rightarrow> Some (Inr (), s'\<lparr>cpu := (cpu s')\<lparr>pc := pc (cpu s) + 4\<rparr>\<rparr>)
   }"
  by (auto simp: execute_inst32_def dispatch32_def decode32_def shift_then_mask_def exec_csr_def Let_def
      and_then_def ok_def err_def set_pc_def split: Option.bind_split sum.splits)

text \<open>Taking an interrupt and returning from it with \<open>mret\<close> leaves only the trap registers changed.\<close>

lemma mret_trap_mstatus: "bit m 3 \<Longrightarrow> mret_mstatus (trap_mstatus m) = m OR MSTATUS_MPIE"
proof (rule bit_word_eqI)
  fix n :: nat
  assume "bit m 3" "n < LENGTH(32)"
  then show "bit (mret_mstatus (trap_mstatus m)) n = bit (m OR MSTATUS_MPIE) n"
    unfolding mstatus_bits MSTATUS_MPIE_def by (auto simp: bit_or_iff bit_push_bit_iff bit_1_iff simp del: push_bit_of_1)
qed

lemma interrupt_returns:
  assumes "interrupts_enabled (cpu s) = Some True" "pc (cpu s) \<noteq> 0" "handle_interrupt (cpu s) irq = Some c"
  shows "interrupts_enabled c = Some False" "pc c = (if csrs (cpu s) 0x305 \<noteq> 0 then csrs (cpu s) 0x305 else pc (cpu s))"
    "execute_inst32 E 0x30200073 (s\<lparr>cpu := c\<rparr>) = Some (Inr (), s\<lparr>cpu := (cpu s)\<lparr>csrs := (csrs (cpu s))
       (0x341 := pc (cpu s), 0x342 := 0x80000000 OR irq, 0x300 := csrs (cpu s) 0x300 OR MSTATUS_MPIE)\<rparr>\<rparr>)"
  using assms
  by (auto simp: interrupts_enabled_bit handle_interrupt_eq run_mret mstatus_bits mret_trap_mstatus fun_upd_twist)

text \<open>A CSR instruction, in each of its six forms.\<close>

lemma csr_number: "unat (ucast (drop_bit 20 (raw::u32) AND 0xFFF) :: u16) AND CSR_MASK = unat (drop_bit 20 raw)"
proof (rule bit_eqI)
  fix n
  have m: "(0xFFF :: u32) = mask 12" "CSR_MASK = mask 12"
    by (simp_all add: mask_eq_exp_minus_1 CSR_MASK_def CSR_COUNT_def)
  have "bit raw (20 + n) \<Longrightarrow> n < 12" using bit_imp_le_length [of raw "20 + n"] by simp
  then show "bit (unat (ucast (drop_bit 20 raw AND 0xFFF) :: u16) AND CSR_MASK) n = bit (unat (drop_bit 20 raw)) n"
    unfolding m by (auto simp: bit_simps)
qed

lemma run_csr:
  assumes "d_opcode (decode32 raw) = OP_SYSTEM" "d_funct3 (decode32 raw) \<noteq> 0"
    and n: "n = unat (drop_bit 20 raw)"
  shows "execute_inst32 E raw s = Some (Inr (), put_xreg (s\<lparr>cpu := (cpu s)\<lparr>
       csrs := (csrs (cpu s))(n := csr_new_val (d_funct3 (decode32 raw)) (d_rs1 (decode32 raw)) (csrs (cpu s) n)
         (xreg s (d_rs1 (decode32 raw)))),
       pc := pc (cpu s) + 4\<rparr>\<rparr>) (d_rd (decode32 raw)) (csrs (cpu s) n))"
  using assms by (simp add: execute_inst32_def dispatch32_def exec_csr_def exec_simps Let_def and_then_def ok_def
      set_pc_def csr_number put_xreg_def)

text \<open>
  The CSR instructions of Zicsr: their encodings, and the value that each writes, from the old value of the
  register and the source operand, which is a register or the zero-extended five-bit field.
\<close>

datatype csr_op = CSRRW | CSRRS | CSRRC | CSRRWI | CSRRSI | CSRRCI

fun csr_funct3 :: "csr_op \<Rightarrow> u32" where
  "csr_funct3 CSRRW = 1" | "csr_funct3 CSRRS = 2" | "csr_funct3 CSRRC = 3"
| "csr_funct3 CSRRWI = 5" | "csr_funct3 CSRRSI = 6" | "csr_funct3 CSRRCI = 7"

fun csr_source :: "csr_op \<Rightarrow> nat \<Rightarrow> u32 \<Rightarrow> u32" where
  "csr_source CSRRW field v = v" | "csr_source CSRRS field v = v" | "csr_source CSRRC field v = v"
| "csr_source CSRRWI field v = word_of_nat field" | "csr_source CSRRSI field v = word_of_nat field"
| "csr_source CSRRCI field v = word_of_nat field"

fun csr_bit :: "csr_op \<Rightarrow> bool \<Rightarrow> bool \<Rightarrow> bool" where
  "csr_bit CSRRW b x = x" | "csr_bit CSRRWI b x = x"
| "csr_bit CSRRS b x = (b \<or> x)" | "csr_bit CSRRSI b x = (b \<or> x)"
| "csr_bit CSRRC b x = (b \<and> \<not> x)" | "csr_bit CSRRCI b x = (b \<and> \<not> x)"

lemma csr_field:
  assumes "funct3 < 8" "rd < 32" "rs1 < 32" "n < 4096"
  shows "drop_bit 20 (encode_i 0x73 rd funct3 rs1 n) = n"
proof -
  have "n AND 0xFFF = n"
    using assms(4) take_bit_nat_eq_self [of "unat n" 12]
    by (simp add: word_unat_eq_iff unsigned_and_eq take_bit_eq_mask mask_numeral word_less_nat_alt)
  moreover have "drop_bit 20 (encode_i 0x73 rd funct3 rs1 n) = n AND 0xFFF"
    by (rule word32_eqI) (simp_all add: encode_defs bit_simps assms field_simps32)
  ultimately show ?thesis by simp
qed

lemma csr_new_val_spec:
  "k < 32 \<Longrightarrow> bit (csr_new_val (ucast (csr_funct3 op)) field old v) k \<longleftrightarrow> csr_bit op (bit old k) (bit (csr_source op field v) k)"
  by (cases op) (simp_all add: csr_new_val_def bit_simps)

lemma run_csr_op:
  assumes "n < 4096" "rd < 32" "rs1 < 32"
  shows "\<exists>v. execute_inst32 E (encode_i 0x73 rd (csr_funct3 op) rs1 (word_of_nat n)) s = Some (Inr (), put_xreg (s\<lparr>cpu := (cpu s)\<lparr>
       csrs := (csrs (cpu s))(n := v), pc := pc (cpu s) + 4\<rparr>\<rparr>) rd (csrs (cpu s) n))
     \<and> (\<forall>k<32. bit v k \<longleftrightarrow> csr_bit op (bit (csrs (cpu s) n) k) (bit (csr_source op rs1 (xreg s rs1)) k))"
proof -
  let ?w = "encode_i 0x73 rd (csr_funct3 op) rs1 (word_of_nat n)"
  have f: "csr_funct3 op < 8" "(ucast (csr_funct3 op) :: u8) \<noteq> 0" by (cases op; simp)+
  have u: "unat (word_of_nat n :: u32) = n" using assms(1) by (simp add: unat_of_nat)
  have n: "(word_of_nat n :: u32) < 4096" using assms(1) by (simp add: word_less_nat_alt u)
  have d: "d_opcode (decode32 ?w) = OP_SYSTEM" "d_funct3 (decode32 ?w) = ucast (csr_funct3 op)" "d_rd (decode32 ?w) = rd"
    "d_rs1 (decode32 ?w) = rs1" "n = unat (drop_bit 20 ?w)"
    using assms f(1) by (simp_all add: decode_encode csr_field [OF f(1) assms(2,3) n] u)
  show ?thesis
    using run_csr [OF d(1) _ d(5), of E s] f(2) csr_new_val_spec [where op = op] unfolding d(2-4) by blast
qed

section \<open>System calls\<close>

text \<open>The call that the guest makes, when the host has no handler of its own or its handler declines.\<close>

lemma handle_ecall_builtin:
  assumes "\<not> has_custom_syscalls (cpu s)"
  shows "handle_ecall E s = builtin_syscall E (xreg s 17) (xreg s 10) (xreg s 11) (xreg s 12) (xreg s 13) s"
  using assms by (simp add: handle_ecall_def exec_simps Let_def)

lemma handle_ecall_custom:
  assumes "has_custom_syscalls (cpu s)"
    "custom_syscall E (xreg s 10) (xreg s 11) (xreg s 12) (xreg s 13) (xreg s 17) (host s) = (res, h)"
  shows "handle_ecall E s =
    (if res \<noteq> 0 then Some (Inr (), put_xreg (s\<lparr>host := h\<rparr>) 10 res)
     else builtin_syscall E (xreg s 17) (xreg s 10) (xreg s 11) (xreg s 12) (xreg s 13) (s\<lparr>host := h\<rparr>))"
  using assms by (simp add: handle_ecall_def exec_simps Let_def sys_ok_def)

text \<open>The built-in calls do not look at the flag that announces the host's handler.\<close>

definition set_handler :: "bool \<Rightarrow> 'h machine \<Rightarrow> 'h machine" where
  "set_handler b s = s\<lparr>cpu := (cpu s)\<lparr>has_custom_syscalls := b\<rparr>\<rparr>"

lemma set_handler_simps [simp]:
  "mem (set_handler b s) = mem s" "host (set_handler b s) = host s" "xreg (set_handler b s) r = xreg s r"
  "pc (cpu (set_handler b s)) = pc (cpu s)" "has_custom_syscalls (cpu (set_handler b s)) = b"
  "(set_handler b s)\<lparr>host := h\<rparr> = set_handler b (s\<lparr>host := h\<rparr>)" "(set_handler b s)\<lparr>mem := m\<rparr> = set_handler b (s\<lparr>mem := m\<rparr>)"
  "put_xreg (set_handler b s) r v = set_handler b (put_xreg s r v)"
  by (simp_all add: set_handler_def xreg_def put_xreg_def)

lemma builtin_ignores_handler:
  "builtin_syscall E a7 a0 a1 a2 a3 (set_handler b s) =
     map_option (\<lambda>(res, s'). (res, set_handler b s')) (builtin_syscall E a7 a0 a1 a2 a3 s)"
proof -
  have e: "sys_exit a0 (set_handler b s) = map_option (\<lambda>(res, s'). (res, set_handler b s')) (sys_exit a0 s)"
    by (simp add: sys_exit_def sys_ok_def set_handler_def)
  have w: "sys_write E a0 a1 a2 (set_handler b s) = map_option (\<lambda>(res, s'). (res, set_handler b s')) (sys_write E a0 a1 a2 s)"
    by (simp add: sys_write_def sys_ok_def mem_read_bytes_def exec_simps Let_def split: Option.bind_split)
  have r: "sys_read E a1 a2 (set_handler b s) = map_option (\<lambda>(res, s'). (res, set_handler b s')) (sys_read E a1 a2 s)"
    by (auto simp: sys_read_def sys_ok_def mem_write_bytes_def exec_simps Let_def split: Option.bind_split prod.split)
  have k: "sys_brk a0 (set_handler b s) = map_option (\<lambda>(res, s'). (res, set_handler b s')) (sys_brk a0 s)"
    by (simp add: sys_brk_def sys_ok_def exec_simps Let_def)
  show ?thesis by (simp add: builtin_syscall_def e w r k sys_ok_def exec_simps)
qed

lemma ecall_custom:
  assumes "has_custom_syscalls (cpu s)"
    "custom_syscall E (xreg s 10) (xreg s 11) (xreg s 12) (xreg s 13) (xreg s 17) (host s) = (res, h)"
  shows "res \<noteq> 0 \<Longrightarrow> execute_inst32 E 0x00000073 s = Some (Inr (), put_xreg (next_inst (s\<lparr>host := h\<rparr>)) 10 res)"
    "res = 0 \<Longrightarrow> execute_inst32 E 0x00000073 s = map_option (\<lambda>(r, s'). (r, set_handler True s'))
       (execute_inst32 E 0x00000073 (set_handler False (s\<lparr>host := h\<rparr>)))"
proof -
  show "execute_inst32 E 0x00000073 s = Some (Inr (), put_xreg (next_inst (s\<lparr>host := h\<rparr>)) 10 res)" if "res \<noteq> 0"
    using handle_ecall_custom [OF assms] that by (simp add: run_ecall put_xreg_def next_inst_def)
  have x: "xreg (s\<lparr>host := h\<rparr>) r = xreg s r" for r by (simp add: xreg_def)
  let ?call = "builtin_syscall E (xreg s 17) (xreg s 10) (xreg s 11) (xreg s 12) (xreg s 13)"
  have s: "set_handler True (set_handler False t) = t" if "has_custom_syscalls (cpu t)" for t :: "'a machine"
    using that by (simp add: set_handler_def)
  have c: "?call (s\<lparr>host := h\<rparr>) = map_option (\<lambda>(res, s'). (res, set_handler True s')) (?call (set_handler False (s\<lparr>host := h\<rparr>)))"
    using builtin_ignores_handler [of E _ _ _ _ _ True "set_handler False (s\<lparr>host := h\<rparr>)"] assms(1) s [of "s\<lparr>host := h\<rparr>"] by simp
  have p: "(set_handler b t)\<lparr>cpu := (cpu (set_handler b t))\<lparr>pc := p\<rparr>\<rparr> = set_handler b (t\<lparr>cpu := (cpu t)\<lparr>pc := p\<rparr>\<rparr>)"
    for b p and t :: "'a machine" by (simp add: set_handler_def)
  show "execute_inst32 E 0x00000073 s = map_option (\<lambda>(r, s'). (r, set_handler True s'))
       (execute_inst32 E 0x00000073 (set_handler False (s\<lparr>host := h\<rparr>)))" if "res = 0"
    unfolding run_ecall using handle_ecall_custom [OF assms] that c
    by (auto simp: handle_ecall_builtin x p split: Option.bind_split sum.splits)
qed

lemma mem_read_bytes_ram:
  assumes "wf_memory (mem s)" "in_ram a n"
  shows "mem_read_bytes E a n s = Some (map (\<lambda>k. ram (mem s) (a + word_of_nat k)) [0..<n], s)"
proof -
  have "default_read_bytes (read_u8 E) a n (mem s) (host s)
      = Some (map (\<lambda>k. ram (mem s) (a + word_of_nat k)) [0..<n], host s)"
    by (rule ram_memory.read_bytes_view [OF assms(1)]) (use assms(2) in \<open>auto simp: in_ram_def\<close>)
  then show ?thesis using assms(1) by (simp add: mem_read_bytes_def read_bytes_default)
qed

lemma ram_write_put_xreg:
  "mem (put_xreg s r v) = mem s" "xreg (put_xreg s r v) r' = (if r' = r \<and> r \<noteq> 0 then v else xreg s r')"
  by (auto simp: put_xreg_def xreg_def)

text \<open>The built-in calls on the machine.\<close>

lemma sys_write_ram:
  assumes "wf_memory (mem s)" "count = min (unat len) SYS_BUF_MAX" "in_ram buf count"
  shows "sys_write E fd buf len s = Some (Inr (), put_xreg
    (let out = map (\<lambda>k. ram (mem s) (buf + word_of_nat k)) [0..<count] in
     if fd = 1 then s\<lparr>host := js_write_stdout E out (host s)\<rparr>
     else if fd = 2 then s\<lparr>host := js_write_stderr E out (host s)\<rparr> else s) 10 len)"
  using assms by (simp add: sys_write_def mem_read_bytes_ram exec_simps sys_ok_def Let_def)

lemma sys_brk_eq:
  "sys_brk a s = Some (Inr (), put_xreg
     (if a \<noteq> 0 then s\<lparr>mem := set_brk a (mem s)\<rparr> else s) 10
     (if initial_brk (mem s) \<le> a \<and> a < MMIO_BASE \<and> a \<noteq> 0 then a else brk_ptr (mem s)))"
  by (auto simp: sys_brk_def exec_simps sys_ok_def Let_def set_brk_def get_brk_def)

context stdin_host
begin

text \<open>A read stores what the host delivered at the start of the buffer and returns its length.\<close>

lemma sys_read_ram:
  assumes "wf_memory (mem s)" "unat len \<le> SYS_BUF_MAX"
    "read_from_stdin E len (host s) = ((n, bs), h)" "0 < sint n" "in_ram buf (nat (sint n))"
  shows "\<exists>s'. sys_read E buf len s = Some (Inr (), put_xreg s' 10 n)
    \<and> ram_write (s\<lparr>host := h\<rparr>) (store_bytes (ram (mem s)) buf (take (nat (sint n)) (bs @ replicate (unat len) 0))) s'"
proof -
  let ?k = "nat (sint n)"
  define data where "data = take ?k (bs @ replicate (unat len) 0)"
  have k: "?k \<le> unat len" using stdin_count [OF assms(3)] assms(4) by (simp add: nat_le_iff)
  then have sl: "slice (scratch_after (unat len) bs) 0 ?k = Some data" "length data = ?k"
    by (auto simp: slice_def scratch_after_def min_def data_def)
  obtain s' where "mem_write_bytes E buf data (s\<lparr>host := h\<rparr>) = Some s'"
      "ram_write (s\<lparr>host := h\<rparr>) (store_bytes (ram (mem s)) buf data) s'"
    using mem_write_bytes_ram [of "s\<lparr>host := h\<rparr>" buf data E] assms(1,5) sl(2) by auto
  with assms sl(1) show ?thesis
    unfolding data_def [symmetric] by (auto simp: sys_read_def min_absorb1 exec_simps sys_ok_def Let_def)
qed

end

text \<open>On the native host a read consumes the front of the input that was queued for it.\<close>

lemma native_read_value:
  assumes "length (mock_stdin h) < 2 ^ 32" "n = min (length (mock_stdin h)) (unat len)"
  shows "native_read_from_stdin len h =
    ((word_of_nat n, take n (mock_stdin h)), h\<lparr>mock_stdin := drop n (mock_stdin h)\<rparr>)"
proof -
  have "unat (min (word_of_nat (length (mock_stdin h)) :: u32) len) = n"
    using assms by (simp add: min_def word_le_nat_alt unat_of_nat)
  then show ?thesis
    by (auto simp: native_read_from_stdin_def assms(2) Let_def)
qed

lemma native_sys_read:
  assumes "wf_memory (mem s)" "unat len \<le> SYS_BUF_MAX" "length (mock_stdin (host s)) < 2 ^ 32"
    "n = min (length (mock_stdin (host s))) (unat len)" "in_ram buf n"
  shows "\<exists>s'. sys_read (native_env c) buf len s = Some (Inr (), put_xreg s' 10 (word_of_nat n))
    \<and> ram_write (s\<lparr>host := (host s)\<lparr>mock_stdin := drop n (mock_stdin (host s))\<rparr>\<rparr>)
        (store_bytes (ram (mem s)) buf (take n (mock_stdin (host s)))) s'"
proof -
  let ?h = "(host s)\<lparr>mock_stdin := drop n (mock_stdin (host s))\<rparr>"
  have r: "read_from_stdin (native_env c) len (host s) = ((word_of_nat n, take n (mock_stdin (host s))), ?h)"
    using native_read_value [OF assms(3,4)] by (simp add: native_env_def)
  have n: "n \<le> 2 ^ 24" using assms(2,4) by (simp add: SYS_BUF_MAX_def)
  then have si: "sint (word_of_nat n :: i32) = int n"
    by (simp add: signed_of_nat signed_take_bit_int_eq_self)
  show ?thesis
  proof (cases "n = 0")
    case True
    have "ram_write (s\<lparr>host := ?h\<rparr>) (ram (mem s)) (s\<lparr>host := ?h\<rparr>)"
      using assms(1) by (auto simp: ram_write_def mem_inv_def intro!: exI [of _ "mem s"])
    with True r show ?thesis
      using assms(2) by (auto simp: sys_read_def min_absorb1 exec_simps sys_ok_def Let_def)
  next
    case False
    from native_stdin.sys_read_ram [OF assms(1,2) r] False si assms(4,5) show ?thesis by simp
  qed
qed

section \<open>NaN boxing\<close>

lemma nan_box_mask: "nan_box v = push_bit 32 (mask 32) OR ucast v"
  by (simp add: nan_box_def mask_eq_exp_minus_1 push_bit_eq_mult)

lemma unbox_nan_box [simp]: "unbox (nan_box v) = v"
proof -
  have "bit v n \<Longrightarrow> n < 32" for n using bit_imp_le_length [of v n] by simp
  then have "drop_bit 32 (nan_box v) = mask 32"
    unfolding nan_box_mask by (intro bit_word_eqI) (auto simp: bit_simps)
  then have "drop_bit 32 (nan_box v) = 0xFFFFFFFF" by (simp add: mask_eq_exp_minus_1)
  moreover have "(ucast (nan_box v) :: u32) = v"
    unfolding nan_box_mask by (rule bit_word_eqI) (auto simp: bit_simps)
  ultimately show ?thesis by (simp add: unbox_def)
qed

lemma unbox_box: "unbox (box v) = (if f32_is_nan v then NAN_F32 else v)"
  by (simp add: box_def) (simp add: unbox_def NAN_F64_def NAN_F32_def)

text \<open>A boxed single is a NaN when the register is read as a double.\<close>

lemma nan_box_is_nan: "f64_is_nan (nan_box v)"
proof -
  have "(nan_box v AND mask 63) AND push_bit 32 (mask 31) = push_bit 32 (mask 31)"
    unfolding nan_box_mask by (rule bit_word_eqI) (auto simp: bit_simps)
  then have le: "push_bit 32 (mask 31) \<le> nan_box v AND mask 63" by (metis word_and_le2)
  have lt: "(0x7FF0000000000000 :: u64) < push_bit 32 (mask 31)"
    by (simp add: mask_eq_exp_minus_1 push_bit_eq_mult)
  have m: "(0x7FFFFFFFFFFFFFFF :: u64) = mask 63" by (simp add: mask_eq_exp_minus_1)
  show ?thesis unfolding f64_is_nan_def m by (rule less_le_trans [OF lt le])
qed

section \<open>Saving and restoring a floating-point register\<close>

lemma load32_store32 [simp]: "load32 (store32 M a v) a = v" "load32 (store32 M (a + 4) v) a = load32 M a"
  by (simp_all add: load32_def store32_def)

lemma join_split: "join_words (ucast v) (ucast (drop_bit 32 v)) = v"
  by (rule bit_word_eqI) (auto simp: join_words_def bit_simps)

lemma in_ram_halves:
  assumes "in_ram a 8"
  shows "in_ram a 4" "in_ram (a + 4) 4"
proof -
  show "in_ram a 4" using assms by (simp add: in_ram_def)
  have "a + 4 + word_of_nat k < MMIO_BASE" if "k < 4" for k
    using assms that by (auto simp: in_ram_def ac_simps dest!: spec [of _ "4 + k"])
  then show "in_ram (a + 4) 4" by (simp add: in_ram_def)
qed

lemma run_fsd:
  assumes "machine_ok s" "\<not> overflow_checks E" "rs1 < 32" "rs2 < 32" "signed_take_bit 11 imm = imm"
    and a: "a = xreg s rs1 + imm" "in_ram a 8"
  shows "\<exists>s'. execute_inst32 E (encode_s 0x27 3 rs1 rs2 imm) s = Some (Inr (), s') \<and> machine_ok s'
    \<and> ram (mem s') = store32 (store32 (ram (mem s)) a (ucast (fregs (cpu s) rs2))) (a + 4)
        (ucast (drop_bit 32 (fregs (cpu s) rs2)))
    \<and> cpu s' = (cpu s)\<lparr>pc := pc (cpu s) + 4\<rparr> \<and> host s' = host s"
proof -
  let ?v = "fregs (cpu s) rs2"
  note r = in_ram_halves [OF a(2)]
  obtain s1 where s1: "mem_write_u32 E a (ucast ?v) s = Some s1" "ram_write s (store32 (ram (mem s)) a (ucast ?v)) s1"
    using mem_write_u32_ram [OF machine_ok_wf [OF assms(1)] r(1)] by blast
  then have "wf_memory (mem s1)" by (auto dest: ram_write_facts)
  then obtain s2 where s2: "mem_write_u32 E (a + 4) (ucast (drop_bit 32 ?v)) s1 = Some s2"
      "ram_write s1 (store32 (ram (mem s1)) (a + 4) (ucast (drop_bit 32 ?v))) s2"
    using mem_write_u32_ram [OF _ r(2)] by blast
  have "implements s s2 ((arch_of s)\<lparr>a_mem := ram (mem s2)\<rparr>)"
    using implements_mem [OF implements_mem [OF implements_refl [OF assms(1)] s1(2)] s2(2)] ram_write_facts [OF s2(2)]
    by simp
  then have ok: "machine_ok s2" by (simp add: implements_def)
  show ?thesis
    using s1 s2 ok ram_write_facts [OF s1(2)] ram_write_facts [OF s2(2)] assms(3-5) a(1)
    by (simp add: execute_inst32_def run_stores [OF assms(4,3,5,2)] c_fsd_def exec_simps and_then_def ok_def
        set_pc_def machine_ok_def)
qed

lemma run_fld:
  assumes "machine_ok s" "\<not> overflow_checks E" "rs1 < 32" "rd < 32" "signed_take_bit 11 imm = imm"
    and a: "a = xreg s rs1 + imm" "in_ram a 8"
  shows "execute_inst32 E (encode_i 0x07 rd 3 rs1 imm) s = Some (Inr (), put_freg
    (s\<lparr>cpu := (cpu s)\<lparr>pc := pc (cpu s) + 4\<rparr>\<rparr>) rd
    (canon64 (join_words (load32 (ram (mem s)) a) (load32 (ram (mem s)) (a + 4)))))"
  using assms in_ram_halves [OF a(2)]
  by (simp add: execute_inst32_def run_loads c_fld_def exec_simps Let_def and_then_def ok_def set_pc_def
      mem_reads_ram machine_ok_wf put_freg_def)

text \<open>A register saved and restored at double width comes back with NaNs canonicalised.\<close>

lemma fsd_fld:
  assumes "machine_ok s" "\<not> overflow_checks E" "rs1 < 32" "rs2 < 32" "rd < 32" "signed_take_bit 11 imm = imm"
    "in_ram (xreg s rs1 + imm) 8" "execute_inst32 E (encode_s 0x27 3 rs1 rs2 imm) s = Some (Inr (), s')"
    "execute_inst32 E (encode_i 0x07 rd 3 rs1 imm) s' = Some (Inr (), s'')"
  shows "fregs (cpu s'') = (fregs (cpu s))(rd := canon64 (fregs (cpu s) rs2))" "mem s'' = mem s'"
proof -
  let ?a = "xreg s rs1 + imm"
  from run_fsd [OF assms(1-4,6) refl assms(7)] assms(8)
  have f: "machine_ok s'" "cpu s' = (cpu s)\<lparr>pc := pc (cpu s) + 4\<rparr>"
    "ram (mem s') = store32 (store32 (ram (mem s)) ?a (ucast (fregs (cpu s) rs2))) (?a + 4)
        (ucast (drop_bit 32 (fregs (cpu s) rs2)))" by auto
  have x: "xreg s' rs1 = xreg s rs1" by (simp add: xreg_def f(2))
  have r: "load32 (ram (mem s')) ?a = ucast (fregs (cpu s) rs2)"
    "load32 (ram (mem s')) (?a + 4) = ucast (drop_bit 32 (fregs (cpu s) rs2))" by (simp_all add: f(3))
  have e: "s'' = put_freg (s'\<lparr>cpu := (cpu s')\<lparr>pc := pc (cpu s') + 4\<rparr>\<rparr>) rd (canon64 (fregs (cpu s) rs2))"
    using run_fld [of s' E rs1 rd imm ?a] assms f(1) x by (simp add: r join_split)
  show "fregs (cpu s'') = (fregs (cpu s))(rd := canon64 (fregs (cpu s) rs2))" "mem s'' = mem s'"
    unfolding e by (simp_all add: put_freg_def f(2))
qed

lemma canon_boxed: "unbox (canon64 (nan_box v)) = NAN_F32"
  by (simp add: canon64_def nan_box_is_nan) (simp add: unbox_def NAN_F32_def)

lemma fsd_then_fld:
  assumes "machine_ok s" "\<not> overflow_checks E" "rs1 < 32" "rs2 < 32" "rd < 32" "signed_take_bit 11 imm = imm"
    "in_ram (xreg s rs1 + imm) 8"
  shows "\<exists>s' s''. execute_inst32 E (encode_s 0x27 3 rs1 rs2 imm) s = Some (Inr (), s')
    \<and> execute_inst32 E (encode_i 0x07 rd 3 rs1 imm) s' = Some (Inr (), s'')
    \<and> fregs (cpu s'') = (fregs (cpu s))(rd := canon64 (fregs (cpu s) rs2))
    \<and> (\<forall>v. fregs (cpu s) rs2 = nan_box v \<longrightarrow> unbox (fregs (cpu s'') rd) = NAN_F32)"
proof -
  obtain s' where s': "execute_inst32 E (encode_s 0x27 3 rs1 rs2 imm) s = Some (Inr (), s')" "machine_ok s'"
      "cpu s' = (cpu s)\<lparr>pc := pc (cpu s) + 4\<rparr>"
    using run_fsd [OF assms(1-4,6) refl assms(7)] by blast
  have "xreg s' rs1 = xreg s rs1" by (simp add: xreg_def s'(3))
  then have "in_ram (xreg s' rs1 + imm) 8" using assms(7) by simp
  then obtain s'' where s'': "execute_inst32 E (encode_i 0x07 rd 3 rs1 imm) s' = Some (Inr (), s'')"
    using run_fld [OF s'(2) assms(2,3,5,6) refl] by blast
  show ?thesis using s'(1) s'' fsd_fld(1) [OF assms s'(1) s''] canon_boxed by auto
qed

section \<open>Breakpoints\<close>

text \<open>A slice that resumes from a breakpoint executes at least one instruction before it stops at one.\<close>

lemma slice_iter_resumes:
  assumes "pc (cpu s) = p"
  shows "slice_iter E w (Some p) s \<noteq> Some (Some Breakpoint, sk, s')"
  using assms by (auto simp: slice_iter_def Let_def split: if_splits Option.bind_split_asm sum.splits)

context quiet_host
begin

lemma breakpoint_progress:
  assumes "run_slice E budget s = Some (out, s')" "so_status out = Breakpoint" "budget \<noteq> 0"
    "resume_past_breakpoint (cpu s) = Some (pc (cpu s))"
  shows "0 < so_steps out"
proof -
  let ?s = "s\<lparr>cpu := (cpu s)\<lparr>resume_past_breakpoint := None\<rparr>\<rparr>"
  let ?w = "debug_enabled (cpu s) \<and> breakpoints (cpu s) \<noteq> {}"
  obtain k st sk where e: "exec_n E ?w (unat budget) (Some (pc (cpu ?s))) ?s = Some (k, st, sk, s')"
      "so_status out = final_status st s'" "so_steps out = word_of_nat k"
    using assms(1,4) unfolding run_slice_exec_n by auto
  obtain n where n: "unat budget = Suc n" using assms(3) by (cases "unat budget") (auto simp: unat_eq_zero)
  have st: "st = Some Breakpoint"
    using e(2) assms(2) by (auto simp: final_status_def split: option.splits if_splits)
  have "k \<noteq> 0"
    using e(1) st unfolding n by (auto simp: slice_iter_resumes split: Option.bind_split_asm option.splits)
  moreover have "k < 2 ^ 32"
    using exec_n_count [OF e(1)] unsigned_less [of budget, where 'a = nat] by simp
  ultimately show ?thesis
    by (simp add: e(3) word_less_nat_alt unat_of_nat)
qed

end

end
