(* ===== verification/Program.thy ===== *)
theory Program
  imports Effects
begin

text \<open>
  From instructions to programs. The fetch through the two-in-one window of \<open>fetch_window\<close> delivers the bytes
  at the program counter, so a whole step of the emulator, fetch included, is a step of the instruction
  set; a slice is a sequence of them.
\<close>

section \<open>Fetch\<close>

lemma low_half: "(ucast (from_le_bytes4 a b c d) :: u16) = from_le_bytes2 a b"
  by (rule bit_word_eqI) (auto simp: from_le_bytes4_def from_le_bytes2_def bit_simps)

lemma fetch_window_narrow:
  assumes "wf_memory m" "in_ram a 2"
  shows "\<exists>w wide. fetch_window E a m h = Some ((w, wide), h) \<and> ucast w = load16 (ram m) a
    \<and> (wide \<longrightarrow> w = load32 (ram m) a)"
proof (cases "offset_of a + 3 < 65536")
  case True
  with assms fetch_window_ram [of m a E h] in_ram_bytes(2) [of a] show ?thesis
    by (auto simp: load16_def load32_def low_half)
next
  case False
  have "read_u16 E a m h = Some (load16 (ram m) a, h)"
    using assms in_ram_bytes(2) [of a] by (simp add: read_u16_default ram_memory.read_u16_view load16_def)
  with False show ?thesis by (auto simp: fetch_window_def Let_def PAGE_SIZE_def)
qed

lemma load32_low: "(ucast (load32 M a) :: u16) = load16 M a"
  by (simp add: load32_def load16_def low_half)

lemma low_bits_ucast: "(ucast (w :: u32) :: u16) AND 3 = 3 \<longleftrightarrow> w AND 3 = 3"
proof -
  have "(ucast w :: u16) AND 3 = ucast (w AND 3)"
    by (rule bit_word_eqI) (auto simp: bit_simps bit_numeral_rec)
  moreover have "unat (w AND 3) < 8" by (rule unat_and_less) simp
  ultimately show ?thesis
    by (simp add: word_unat_eq_iff unsigned_ucast_eq take_bit_nat_eq_self)
qed

text \<open>The fetch-execute cycle, with the fetch written as plain loads.\<close>

lemma fetch_execute_ram:
  assumes "wf_memory (mem s)" "p = pc (cpu s)"
  shows "in_ram p 2 \<Longrightarrow> load16 (ram (mem s)) p AND 3 \<noteq> 3 \<Longrightarrow>
      fetch_execute E s = map_option (\<lambda>(res, s). ((True, res), s)) (execute_inst16 E (load16 (ram (mem s)) p) s)"
    "in_ram p 4 \<Longrightarrow> load16 (ram (mem s)) p AND 3 = 3 \<Longrightarrow>
      fetch_execute E s = map_option (\<lambda>(res, s). ((False, res), s)) (execute_inst32 E (load32 (ram (mem s)) p) s)"
proof -
  have w: "\<exists>w wide. mem_fetch_window E p s = Some ((w, wide), s) \<and> ucast w = load16 (ram (mem s)) p
      \<and> (wide \<longrightarrow> w = load32 (ram (mem s)) p)" if "in_ram p 2"
    using fetch_window_narrow [OF assms(1) that, of E "host s"] by (auto simp: mem_fetch_window_def)
  show "fetch_execute E s = map_option (\<lambda>(res, s). ((True, res), s)) (execute_inst16 E (load16 (ram (mem s)) p) s)"
    if a: "in_ram p 2" "load16 (ram (mem s)) p AND 3 \<noteq> 3"
    using w [OF a(1)] a(2)
    by (auto simp: fetch_execute_def assms(2) [symmetric] Let_def split: Option.bind_split)
  show "fetch_execute E s = map_option (\<lambda>(res, s). ((False, res), s)) (execute_inst32 E (load32 (ram (mem s)) p) s)"
    if a: "in_ram p 4" "load16 (ram (mem s)) p AND 3 = 3"
  proof -
    have "in_ram p 2" using a(1) by (simp add: in_ram_def)
    from w [OF this] a show ?thesis
      by (auto simp: fetch_execute_def assms(2) [symmetric] Let_def mem_reads_ram(3) [OF assms(1)]
          split: Option.bind_split)
  qed
qed

section \<open>A step of the instruction set\<close>

lemma asm_opcode: "wf_instr i \<Longrightarrow> \<exists>opc. asm i AND 0x7F = opc \<and> opc AND 3 = 3"
  by (cases i) (auto simp: field_encode_r field_encode_i field_encode_s field_encode_b field_encode_uj)

lemma asm_wide: "wf_instr i \<Longrightarrow> (ucast (asm i) :: u16) AND 3 = 3"
proof -
  assume "wf_instr i"
  then have "(asm i AND 0x7F) AND 3 = 3" using asm_opcode by auto
  then have b: "bit (asm i AND (0x7F AND 3)) n = bit (3 :: u32) n" for n by (simp only: and.assoc)
  show ?thesis
  proof (rule bit_word_eqI)
    fix n :: nat
    assume "n < LENGTH(16)"
    then show "bit ((ucast (asm i) :: u16) AND 3) n = bit (3 :: u16) n"
      using b [of n] by (auto simp: bit_simps bit_numeral_rec)
  qed
qed

text \<open>The accesses of an instruction, on the architectural state.\<close>

definition access_ok :: "instr \<Rightarrow> arch \<Rightarrow> bool" where
  "access_ok i a = (case i of
       Load l rd rs1 imm \<Rightarrow> in_ram (a_x a rs1 + imm) (access_width l)
     | Store t rs1 rs2 imm \<Rightarrow> in_ram (a_x a rs1 + imm) (store_width t)
     | Amo op aqrl rd rs1 rs2 \<Rightarrow> in_ram (a_x a rs1) 4
     | _ \<Rightarrow> True)"

lemma access_ok_mem: "access_ok i (arch_of s) = mem_ok i s"
  by (cases i) (simp_all add: access_ok_def)

text \<open>
  The instruction at the program counter, and the state it leads to. A halfword stands for the instruction that
  it expands to; every compressed instruction that is not a floating-point access or \<open>c.ebreak\<close> is covered.
\<close>

inductive isa_step :: "arch \<Rightarrow> arch \<Rightarrow> bool" where
  full: "in_ram (a_pc a) 4 \<Longrightarrow> load32 (a_mem a) (a_pc a) = asm i \<Longrightarrow> wf_instr i \<Longrightarrow> access_ok i a \<Longrightarrow>
    isa_step a (isa 4 i a)"
| compressed: "in_ram (a_pc a) 2 \<Longrightarrow> expand16 (load16 (a_mem a) (a_pc a)) = Some (asm i) \<Longrightarrow> wf_instr i \<Longrightarrow>
    access_ok i a \<Longrightarrow> isa_step a (isa 2 i a)"

inductive_cases isa_stepE: "isa_step a a'"

inductive isa_steps :: "nat \<Rightarrow> arch \<Rightarrow> arch \<Rightarrow> bool" where
  none: "isa_steps 0 a a"
| more: "isa_step a b \<Longrightarrow> isa_steps n b c \<Longrightarrow> isa_steps (Suc n) a c"

definition is_instr :: "u32 \<Rightarrow> bool" where
  "is_instr w \<longleftrightarrow> (\<exists>i. wf_instr i \<and> asm i = w)"

lemma is_instrI: "wf_instr i \<Longrightarrow> is_instr (asm i)"
  by (auto simp: is_instr_def)

lemma instr_addi: "rd < 32 \<Longrightarrow> rs1 < 32 \<Longrightarrow> signed_take_bit 11 imm = imm \<Longrightarrow> is_instr (addi rd rs1 imm)"
  using is_instrI [of "OpImm ADDI rd rs1 imm"] by (simp add: addi_def)

lemma instr_jumps:
  "rd < 32 \<Longrightarrow> is_instr (encode_j 0x6F rd (c_j_offset c))"
  "rs1 < 32 \<Longrightarrow> is_instr (encode_b 0x63 0 rs1 0 (c_b_offset c))"
  "rs1 < 32 \<Longrightarrow> is_instr (encode_b 0x63 1 rs1 0 (c_b_offset c))"
  using is_instrI [of "JAL rd (c_j_offset c)"] is_instrI [of "Branch BEQ rs1 0 (c_b_offset c)"]
    is_instrI [of "Branch BNE rs1 0 (c_b_offset c)"] signed_imm_fits(3,4) [of c]
  by simp_all

lemmas expansion_instrs = instr_addi instr_jumps
  is_instrI [of "OpImm ANDI rd rs1 imm" for rd rs1 imm, simplified]
  is_instrI [of "Load LW rd rs1 imm" for rd rs1 imm, simplified]
  is_instrI [of "Store SW rs1 rs2 imm" for rs1 rs2 imm, simplified]
  is_instrI [of "Shift SLLI rd rs1 sh" for rd rs1 sh, simplified]
  is_instrI [of "Shift SRLI rd rs1 sh" for rd rs1 sh, simplified]
  is_instrI [of "Shift SRAI rd rs1 sh" for rd rs1 sh, simplified]
  is_instrI [of "Op ADD rd rs1 rs2" for rd rs1 rs2, simplified]
  is_instrI [of "Op SUB rd rs1 rs2" for rd rs1 rs2, simplified]
  is_instrI [of "Op RXOR rd rs1 rs2" for rd rs1 rs2, simplified]
  is_instrI [of "Op ROR rd rs1 rs2" for rd rs1 rs2, simplified]
  is_instrI [of "Op RAND rd rs1 rs2" for rd rs1 rs2, simplified]
  is_instrI [of "JALR rd rs1 0" for rd rs1, simplified]
  is_instrI [of "LUI rd imm" for rd imm, simplified]

lemma expand16_is_instr:
  assumes "expand16 c = Some w"
  shows "is_instr w \<or> d_opcode (decode32 w) = OP_LOAD_FP \<or> d_opcode (decode32 w) = OP_STORE_FP \<or> w = 0x00100073"
  using assms
  by (auto simp: expand16_code expand_q0_code expand_q1_code expand_q2_code expand_misc_alu_code Let_def expansion_instrs
      exec_simps i_imm_fits signed_imm_fits decode_encode OP_LOAD_FP_def OP_STORE_FP_def split: if_splits)

lemma expand16_narrow: "expand16 c = Some w \<Longrightarrow> c AND 3 \<noteq> 3"
  by (auto simp: expand16_code Let_def decode16_def split: if_splits)

lemma execute_inst16_isa:
  assumes "machine_ok s" "expand16 c = Some (asm i)" "wf_instr i" "mem_ok i s" "\<not> overflow_checks E"
  shows "\<exists>s'. execute_inst16 E c s = Some (Inr (), s') \<and> implements s s' (isa 2 i (arch_of s))"
  using execute_refines [OF assms(1,3,4), of E 2] assms(2,5)
  by (auto simp: refines_def execute_inst16_def dispatch16_expand and_then_def set_pc_def ok_def)

text \<open>A step of the machine, fetch included, is a step of the instruction set.\<close>

lemma fetch_execute_isa:
  assumes "machine_ok s" "isa_step (arch_of s) a" "\<not> overflow_checks E"
  shows "\<exists>comp s'. fetch_execute E s = Some ((comp, Inr ()), s') \<and> implements s s' a"
  using assms(2)
proof (cases rule: isa_step.cases)
  case (full i)
  have "load16 (ram (mem s)) (pc (cpu s)) AND 3 = 3"
    using full asm_wide [of i] load32_low [of "ram (mem s)" "pc (cpu s)"] by simp
  then show ?thesis
    using fetch_execute_ram(2) [OF machine_ok_wf [OF assms(1)] refl, of E] full
      execute_inst32_refines [OF assms(1) full(4), of E] by (auto simp: access_ok_mem)
next
  case (compressed i)
  let ?c = "load16 (ram (mem s)) (pc (cpu s))"
  have e: "expand16 ?c = Some (asm i)" using compressed by simp
  obtain s' where "execute_inst16 E ?c s = Some (Inr (), s')" "implements s s' a"
    using execute_inst16_isa [OF assms(1) e compressed(4) _ assms(3)] compressed by (auto simp: access_ok_mem)
  then show ?thesis
    using fetch_execute_ram(1) [OF machine_ok_wf [OF assms(1)] refl, of E] expand16_narrow [OF e] compressed(2) by auto
qed

section \<open>A slice of the instruction set\<close>

text \<open>What a run through the instruction set leaves alone.\<close>

definition quiet_run :: "'h machine \<Rightarrow> nat \<Rightarrow> 'h machine \<Rightarrow> arch \<Rightarrow> bool" where
  "quiet_run s n s' a \<longleftrightarrow> arch_of s' = a \<and> machine_ok s' \<and> host s' = host s
     \<and> (cpu s')\<lparr>regs := regs (cpu s), pc := pc (cpu s), step_counter := step_counter (cpu s)\<rparr> = cpu s
     \<and> step_counter (cpu s') = step_counter (cpu s) + word_of_nat n"

lemma quiet_run_halted: "quiet_run s n s' a \<Longrightarrow> is_halted (cpu s') = is_halted (cpu s)"
proof -
  assume "quiet_run s n s' a"
  then have "is_halted (cpu s) =
      is_halted ((cpu s')\<lparr>regs := regs (cpu s), pc := pc (cpu s), step_counter := step_counter (cpu s)\<rparr>)"
    by (simp only: quiet_run_def)
  then show ?thesis by simp
qed

lemma quiet_run_trans:
  assumes "quiet_run s m s' b" "quiet_run s' n s'' c"
  shows "quiet_run s (m + n) s'' c"
proof -
  have "cpu s = (cpu s')\<lparr>regs := regs (cpu s), pc := pc (cpu s), step_counter := step_counter (cpu s)\<rparr>"
    using assms(1) by (simp add: quiet_run_def)
  also have "cpu s' = (cpu s'')\<lparr>regs := regs (cpu s'), pc := pc (cpu s'), step_counter := step_counter (cpu s')\<rparr>"
    using assms(2) by (simp add: quiet_run_def)
  finally have "cpu s = (cpu s'')\<lparr>regs := regs (cpu s), pc := pc (cpu s), step_counter := step_counter (cpu s)\<rparr>"
    by simp
  then show ?thesis using assms by (simp add: quiet_run_def)
qed

lemma slice_iter_isa:
  assumes "machine_ok s" "isa_step (arch_of s) a" "\<not> overflow_checks E" "\<not> is_halted (cpu s)"
  shows "\<exists>s'. slice_iter E False sk s = Some (None, sk, s') \<and> quiet_run s 1 s' a"
proof -
  obtain comp s1 where s1: "fetch_execute E s = Some ((comp, Inr ()), s1)" "implements s s1 a"
    using fetch_execute_isa [OF assms(1-3)] by blast
  have c: "count_step E s1 = Some (s1\<lparr>cpu := (cpu s1)\<lparr>step_counter := step_counter (cpu s1) + 1\<rparr>\<rparr>)"
    using assms(3) by (simp add: count_step_def add_or_panic_def)
  have k: "step_counter (cpu s1) = step_counter (cpu s)"
  proof -
    have "step_counter (cpu s) = step_counter ((cpu s1)\<lparr>regs := regs (cpu s), pc := pc (cpu s)\<rparr>)"
      using s1(2) by (simp only: implements_def)
    then show ?thesis by simp
  qed
  have "(cpu s1)\<lparr>step_counter := x, regs := regs (cpu s), pc := pc (cpu s), step_counter := step_counter (cpu s)\<rparr>
      = (cpu s1)\<lparr>regs := regs (cpu s), pc := pc (cpu s)\<rparr>" for x
    by (simp add: k [symmetric])
  then have "quiet_run s 1 (s1\<lparr>cpu := (cpu s1)\<lparr>step_counter := step_counter (cpu s1) + 1\<rparr>\<rparr>) a"
    using s1(2) by (auto simp: quiet_run_def implements_def arch_of_def xreg_def fun_eq_iff k)
  then show ?thesis
    using assms(4) s1(1) c by (auto simp: slice_iter_def)
qed

lemma exec_n_isa:
  assumes "\<not> overflow_checks E"
  shows "isa_steps n a b \<Longrightarrow> a = arch_of s \<Longrightarrow> machine_ok s \<Longrightarrow> \<not> is_halted (cpu s) \<Longrightarrow>
    \<exists>s'. exec_n E False n sk s = Some (n, None, sk, s') \<and> quiet_run s n s' b"
proof (induction n a b arbitrary: s rule: isa_steps.induct)
  case (none a)
  then show ?case by (simp add: quiet_run_def)
next
  case (more a b n c)
  obtain s1 where s1: "slice_iter E False sk s = Some (None, sk, s1)" "quiet_run s 1 s1 b"
    using slice_iter_isa [of s b E sk] more assms by blast
  have h: "is_halted (cpu s1) = is_halted (cpu s)"
    using s1(2) quiet_run_halted by blast
  obtain s2 where s2: "exec_n E False n sk s1 = Some (n, None, sk, s2)" "quiet_run s1 n s2 c"
    using more.IH [of s1] s1(2) more.prems h by (auto simp: quiet_run_def)
  show ?case using s1 s2 quiet_run_trans [OF s1(2) s2(2)] by simp
qed

context quiet_host
begin

lemma run_slice_isa:
  assumes "\<not> overflow_checks E" "machine_ok s" "\<not> is_halted (cpu s)"
    "\<not> (debug_enabled (cpu s) \<and> breakpoints (cpu s) \<noteq> {})" "resume_past_breakpoint (cpu s) = None"
    "isa_steps (unat budget) (arch_of s) b"
  shows "\<exists>s'. run_slice E budget s = Some (\<lparr>so_status = Running, so_steps = ucast budget, so_pc = a_pc b,
      so_exit_code = exit_code (cpu s')\<rparr>, s') \<and> quiet_run s (unat budget) s' b"
proof -
  have self: "s\<lparr>cpu := (cpu s)\<lparr>resume_past_breakpoint := None\<rparr>\<rparr> = s" using assms(5) by simp
  obtain s' where s': "exec_n E False (unat budget) None s = Some (unat budget, None, None, s')"
      "quiet_run s (unat budget) s' b"
    using exec_n_isa [OF assms(1,6) refl assms(2,3)] by blast
  have "final_status None s' = Running" "pc (cpu s') = a_pc b"
    using quiet_run_halted [OF s'(2)] assms(3) s'(2) by (auto simp: final_status_def quiet_run_def)
  moreover have "(debug_enabled (cpu s) \<and> breakpoints (cpu s) \<noteq> {}) = False" using assms(4) by blast
  note slice = run_slice_exec_n [of budget s, unfolded this self assms(5) s'(1)]
  moreover have "(word_of_nat (unat budget) :: u64) = ucast budget" by simp
  ultimately show ?thesis
    using s'(2) by simp
qed

end

section \<open>A single step\<close>

text \<open>The machine is at a breakpoint that it has not just reported.\<close>

definition stops_here :: "cpu \<Rightarrow> bool" where
  "stops_here c \<longleftrightarrow> debug_enabled c \<and> pc c \<in> breakpoints c \<and> resume_past_breakpoint c \<noteq> Some (pc c)"

text \<open>The machine with no breakpoint to skip, and the machine that a faulting instruction leaves: stopped where it was.\<close>

definition resumed :: "'h machine \<Rightarrow> 'h machine" where
  "resumed s = s\<lparr>cpu := (cpu s)\<lparr>resume_past_breakpoint := None\<rparr>\<rparr>"

definition trapped_from :: "'h machine \<Rightarrow> 'h \<Rightarrow> u64 \<Rightarrow> 'h machine" where
  "trapped_from s h n = s\<lparr>host := h, cpu := (cpu s)\<lparr>resume_past_breakpoint := None, trapped := True, exit_code := 134,
     is_halted := True, step_counter := step_counter (cpu s) + n\<rparr>\<rparr>"

lemma resumed_simps [simp]:
  "machine_ok (resumed s) = machine_ok s" "arch_of (resumed s) = arch_of s" "mem (resumed s) = mem s"
  "is_halted (cpu (resumed s)) = is_halted (cpu s)" "pc (cpu (resumed s)) = pc (cpu s)"
  by (simp_all add: resumed_def arch_of_def xreg_def fun_eq_iff)

lemma count_step_release:
  "\<not> overflow_checks E \<Longrightarrow> count_step E s = Some (s\<lparr>cpu := (cpu s)\<lparr>step_counter := step_counter (cpu s) + 1\<rparr>\<rparr>)"
  by (simp add: count_step_def add_or_panic_def)

lemma step_instruction_stops:
  "stops_here (cpu s) \<Longrightarrow> step_instruction E s =
     Some (BreakpointHit (pc (cpu s)), s\<lparr>cpu := (cpu s)\<lparr>resume_past_breakpoint := Some (pc (cpu s))\<rparr>\<rparr>)"
  "\<not> stops_here (cpu s) \<Longrightarrow> is_halted (cpu s) \<Longrightarrow> step_instruction E s = Some (StepHalted (exit_code (cpu s)), resumed s)"
  by (auto simp: step_instruction_def stops_here_def resumed_def Let_def)

lemma step_instruction_runs:
  assumes "\<not> overflow_checks E" "\<not> stops_here (cpu s)" "\<not> is_halted (cpu s)"
    "fetch_execute E (resumed s) = Some ((c, Inr u), s1)"
  shows "step_instruction E s = Some (if is_halted (cpu s1) then StepHalted (exit_code (cpu s1)) else StepOk,
      s1\<lparr>cpu := (cpu s1)\<lparr>step_counter := step_counter (cpu s1) + 1\<rparr>\<rparr>)"
  using assms by (auto simp: step_instruction_def stops_here_def resumed_def count_step_release Let_def)

context stdin_host
begin

text \<open>An error leaves the registers and the memory alone.\<close>

lemma fetch_error_clean:
  assumes "machine_ok s" "\<not> overflow_checks E" "fetch_execute E s = Some ((c, Inl e), s1)"
  shows "cpu s1 = cpu s" "mem s1 = mem s"
  using fetch_execute_safe [OF assms(1,2)] assms(3) by (simp_all add: inst_post_def)

lemma step_instruction_traps:
  assumes "machine_ok s" "\<not> overflow_checks E" "\<not> stops_here (cpu s)" "\<not> is_halted (cpu s)"
    "fetch_execute E (resumed s) = Some ((c, Inl e), s1)"
  shows "\<exists>h. step_instruction E s = Some (Trap (pc (cpu s)), trapped_from s h 1)"
proof -
  let ?s2 = "s1\<lparr>cpu := (cpu s1)\<lparr>step_counter := step_counter (cpu s1) + 1\<rparr>\<rparr>"
  have c: "cpu s1 = cpu (resumed s)" "mem s1 = mem s"
    using fetch_error_clean [OF _ assms(2,5)] assms(1) by simp_all
  have "stop_trapped (step_report E e ?s2) = trapped_from s (host (step_report E e ?s2)) 1"
    by (intro machine.equality) (simp_all add: c stop_trapped_def trapped_from_def resumed_def TRAP_EXIT_CODE_def)
  moreover have "step_instruction E s = Some (Trap (pc (cpu s)), stop_trapped (step_report E e ?s2))"
    using assms(2-5) by (auto simp: step_instruction_def stops_here_def resumed_def count_step_release Let_def)
  ultimately show ?thesis by metis
qed

lemma slice_iter_traps:
  assumes "machine_ok s" "\<not> overflow_checks E" "\<not> stops_here (cpu s)" "\<not> is_halted (cpu s)"
    "fetch_execute E (resumed s) = Some ((c, Inl e), s1)" "w \<Longrightarrow> debug_enabled (cpu s)"
  shows "\<exists>h sk. slice_iter E w (resume_past_breakpoint (cpu s)) (resumed s) = Some (Some Trapped, sk, trapped_from s h 0)"
proof -
  let ?r = "slice_report E c (pc (cpu s)) e s1"
  have c: "cpu s1 = cpu (resumed s)" "mem s1 = mem s"
    using fetch_error_clean [OF _ assms(2,5)] assms(1) by simp_all
  have "stop_trapped ?r = trapped_from s (host ?r) 0"
    by (intro machine.equality) (simp_all add: c stop_trapped_def trapped_from_def resumed_def TRAP_EXIT_CODE_def)
  moreover have "\<exists>sk. slice_iter E w (resume_past_breakpoint (cpu s)) (resumed s) = Some (Some Trapped, sk, stop_trapped ?r)"
    using assms(3-6) by (auto simp: slice_iter_def stops_here_def resumed_def Let_def)
  ultimately show ?thesis by metis
qed

end

lemma step_instruction_isa:
  assumes "machine_ok s" "\<not> overflow_checks E" "\<not> stops_here (cpu s)" "\<not> is_halted (cpu s)" "isa_step (arch_of s) b"
  shows "\<exists>s'. step_instruction E s = Some (StepOk, s') \<and> quiet_run (resumed s) 1 s' b"
proof -
  obtain s' where i: "slice_iter E False None (resumed s) = Some (None, None, s')" "quiet_run (resumed s) 1 s' b"
    using slice_iter_isa [of "resumed s" b E None] assms by auto
  obtain c s1 where f: "fetch_execute E (resumed s) = Some ((c, Inr ()), s1)"
    using fetch_execute_isa [of "resumed s" b E] assms by auto
  have "s' = s1\<lparr>cpu := (cpu s1)\<lparr>step_counter := step_counter (cpu s1) + 1\<rparr>\<rparr>"
    using i(1) f assms(2,4) by (simp add: slice_iter_def count_step_release)
  with step_instruction_runs [OF assms(2-4) f] i(2) quiet_run_halted [OF i(2)] assms(4) show ?thesis by auto
qed

context calm_host
begin

lemma run_slice_traps:
  assumes "machine_ok s" "\<not> overflow_checks E" "\<not> stops_here (cpu s)" "\<not> is_halted (cpu s)"
    "fetch_execute E (resumed s) = Some ((c, Inl e), s1)" "budget \<noteq> 0"
  shows "\<exists>h. run_slice E budget s = Some (\<lparr>so_status = Trapped, so_steps = 0, so_pc = pc (cpu s), so_exit_code = 134\<rparr>,
    trapped_from s h 0)"
proof -
  let ?w = "debug_enabled (cpu s) \<and> breakpoints (cpu s) \<noteq> {}"
  obtain h sk where i: "slice_iter E ?w (resume_past_breakpoint (cpu s)) (resumed s) = Some (Some Trapped, sk, trapped_from s h 0)"
    using slice_iter_traps [OF assms(1-5), of ?w] by blast
  obtain n where "unat budget = Suc n" using assms(6) by (cases "unat budget") (simp_all add: unat_eq_0)
  then show ?thesis
    using i by (intro exI [of _ h]) (simp add: run_slice_exec_n resumed_def [symmetric] final_status_def trapped_from_def)
qed

end

end
