(* ===== verification/Float_Exact.thy ===== *)
theory Float_Exact
  imports Program
begin

text \<open>
  Conversions that lose nothing: packing a number whose significand fits the format and unpacking it gives the
  number back, so 32-bit integers pass through a double and singles pass through a double unchanged.
\<close>

section \<open>Bit length\<close>

lemma bitlen_0 [simp]: "bitlen 0 = 0"
  by (simp add: bitlen.simps)

lemma bitlen_pos: "0 < n \<Longrightarrow> bitlen n = Suc (bitlen (n div 2))"
  by (simp add: bitlen.simps [of n])

lemma bitlen_upper: "n < 2 ^ bitlen n"
proof (induction n rule: bitlen.induct)
  case (1 n)
  show ?case
  proof (cases "n = 0")
    case False
    with 1 have "n div 2 < 2 ^ bitlen (n div 2)" by simp
    with False show ?thesis by (simp add: bitlen_pos)
  qed simp
qed

lemma bitlen_lower: "0 < n \<Longrightarrow> 2 ^ (bitlen n - 1) \<le> n"
proof (induction n rule: bitlen.induct)
  case (1 n)
  show ?case
  proof (cases "n div 2 = 0")
    case True
    with 1 show ?thesis by (simp add: bitlen_pos)
  next
    case False
    with 1 have "2 ^ (bitlen (n div 2) - 1) \<le> n div 2" by simp
    moreover have "bitlen (n div 2) = Suc (bitlen (n div 2) - 1)" using False by (simp add: bitlen_pos)
    ultimately have "2 ^ bitlen (n div 2) \<le> 2 * (n div 2)" by (metis mult_le_mono2 power_Suc)
    also have "\<dots> \<le> n" by simp
    finally show ?thesis using 1 by (simp add: bitlen_pos)
  qed
qed

lemma bitlen_less: "n < 2 ^ k \<Longrightarrow> bitlen n \<le> k"
proof (rule ccontr)
  assume a: "n < 2 ^ k" "\<not> bitlen n \<le> k"
  then have "0 < n" by (cases n) auto
  have "(2::nat) ^ k \<le> 2 ^ (bitlen n - 1)" using a(2) by (intro power_increasing) auto
  also have "\<dots> \<le> n" by (rule bitlen_lower [OF \<open>0 < n\<close>])
  finally have "2 ^ k \<le> n" .
  with a(1) show False by simp
qed

section \<open>Packing\<close>

text \<open>The significand of \<open>m\<close> shifted so that its leading bit is the implicit bit of the format.\<close>

lemma normalised:
  assumes "0 < m" "bitlen m \<le> Suc mb"
  shows "2 ^ mb \<le> m * 2 ^ (Suc mb - bitlen m)" "m * 2 ^ (Suc mb - bitlen m) < 2 ^ Suc mb"
proof -
  have "bitlen m = Suc (bitlen m - 1)" using assms(1) by (simp add: bitlen_pos)
  then have "(2::nat) ^ mb = 2 ^ (bitlen m - 1) * 2 ^ (Suc mb - bitlen m)"
    using assms(2) by (simp flip: power_add)
  then show "2 ^ mb \<le> m * 2 ^ (Suc mb - bitlen m)"
    using bitlen_lower [OF assms(1)] by simp
  have "m * 2 ^ (Suc mb - bitlen m) < 2 ^ bitlen m * 2 ^ (Suc mb - bitlen m)"
    using bitlen_upper [of m] by simp
  also have "\<dots> = 2 ^ Suc mb" using assms(2) by (simp flip: power_add)
  finally show "m * 2 ^ (Suc mb - bitlen m) < 2 ^ Suc mb" .
qed

lemma round_mag_normal:
  assumes "0 < m" "bitlen m \<le> Suc mb" and q: "q = e + int (bitlen m) - int mb - 1" "fp_emin mb eb \<le> q"
    and n: "n = nat (q - fp_emin mb eb)" "n + 2 < 2 ^ eb"
  shows "round_mag mb eb m e = n * 2 ^ mb + m * 2 ^ (Suc mb - bitlen m)"
proof -
  let ?M = "m * 2 ^ (Suc mb - bitlen m)"
  have "max (fp_emin mb eb) (e + int (bitlen m) - int mb - 1) = q" using q by simp
  moreover have "q \<le> e" "nat (e - q) = Suc mb - bitlen m" using assms(2) q(1) by auto
  moreover have "n * 2 ^ mb + ?M \<le> fp_inf mb eb"
  proof -
    have "n * 2 ^ mb + ?M < n * 2 ^ mb + 2 ^ Suc mb" using normalised(2) [OF assms(1,2)] by simp
    also have "\<dots> = (n + 2) * 2 ^ mb" by (simp add: algebra_simps)
    also have "\<dots> \<le> (2 ^ eb - 1) * 2 ^ mb" using n(2) by (intro mult_right_mono) auto
    finally show ?thesis by (simp add: fp_inf_def)
  qed
  ultimately show ?thesis using assms(1) n(1) by (simp add: round_mag_def Let_def min_def)
qed

lemma unpack_parts:
  assumes "f < 2 ^ mb" "x < 2 ^ eb"
  shows "unpack mb eb (fp_sign mb eb s + (x * 2 ^ mb + f)) =
    (if x = 2 ^ eb - 1 then (if f = 0 then Inf s else NaN)
     else if x = 0 then Fin s f (fp_emin mb eb)
     else Fin s (f + 2 ^ mb) (fp_emin mb eb + int x - 1))"
proof -
  let ?b = "fp_sign mb eb s + (x * 2 ^ mb + f)"
  have sg: "fp_sign mb eb s = (of_bool s * 2 ^ eb) * 2 ^ mb" by (simp add: fp_sign_def power_add mult.commute)
  have b: "?b = (of_bool s * 2 ^ eb + x) * 2 ^ mb + f" by (simp add: sg algebra_simps)
  have f: "?b mod 2 ^ mb = f" "?b div 2 ^ mb = of_bool s * 2 ^ eb + x" unfolding b using assms(1) by simp_all
  have x: "(of_bool s * 2 ^ eb + x) mod 2 ^ eb = x" "(of_bool s * 2 ^ eb + x) div 2 ^ eb = of_bool s"
    using assms(2) by simp_all
  have d: "?b div 2 ^ (mb + eb) = of_bool s" by (simp only: power_add div_mult2_eq f x)
  show ?thesis using assms(2) by (simp add: unpack_def Let_def f x d)
qed

text \<open>A number with at most \<open>mb + 1\<close> significant bits and an exponent in range is represented exactly.\<close>

lemma unpack_round_pack:
  assumes "0 < m" "bitlen m \<le> Suc mb" and q: "q = e + int (bitlen m) - int mb - 1" "fp_emin mb eb \<le> q"
    and n: "nat (q - fp_emin mb eb) + 2 < 2 ^ eb"
  shows "unpack mb eb (round_pack mb eb (Fin s m e)) = Fin s (m * 2 ^ (Suc mb - bitlen m)) q"
proof -
  define k where "k = nat (q - fp_emin mb eb)"
  define f where "f = m * 2 ^ (Suc mb - bitlen m) - 2 ^ mb"
  note M = normalised [OF assms(1,2)]
  have f: "f < 2 ^ mb" "m * 2 ^ (Suc mb - bitlen m) = f + 2 ^ mb" using M by (auto simp: f_def)
  have "round_pack mb eb (Fin s m e) = fp_sign mb eb s + (Suc k * 2 ^ mb + f)"
    using round_mag_normal [OF assms(1,2) q k_def] n by (simp add: f(2) k_def)
  moreover have "Suc k < 2 ^ eb" "Suc k \<noteq> 2 ^ eb - 1" "fp_emin mb eb + int (Suc k) - 1 = q"
    using n q(2) by (auto simp: k_def)
  ultimately show ?thesis
    using unpack_parts [OF f(1), of "Suc k" eb s] f(2) by simp
qed

lemma unpack_round_pack_0:
  assumes "0 < eb"
  shows "unpack mb eb (round_pack mb eb (Fin s 0 e)) = Fin s 0 (fp_emin mb eb)"
proof -
  have "(2::nat) ^ 1 \<le> 2 ^ eb" using assms by (intro power_increasing) auto
  then show ?thesis using unpack_parts [of 0 mb 0 eb s] by (simp add: round_mag_def Let_def)
qed

lemma round_pack_bound:
  assumes "0 < mb" "0 < eb"
  shows "round_pack mb eb x < 2 ^ Suc (mb + eb)"
proof -
  have "(2::nat) ^ (mb - 1) < 2 ^ mb" using assms(1) by (intro power_strict_increasing) auto
  moreover have "fp_inf mb eb + 2 ^ mb = 2 ^ (mb + eb)"
  proof -
    have "fp_inf mb eb + 2 ^ mb = (2 ^ eb - 1 + 1) * 2 ^ mb" by (simp only: fp_inf_def distrib_right mult_1)
    also have "\<dots> = 2 ^ (mb + eb)" by (simp add: power_add)
    finally show ?thesis .
  qed
  ultimately have "fp_inf mb eb + 2 ^ (mb - 1) < 2 ^ (mb + eb)" by linarith
  then show ?thesis
    by (cases x) (auto simp: fp_sign_def round_mag_def Let_def)
qed

section \<open>Integers through a double\<close>

lemma f64_val_of: "f64_val (f64_of x) = unpack 52 11 (round_pack 52 11 x)"
  using round_pack_bound [of 52 11 x] by (simp add: f64_val_def f64_of_def unat_of_nat)

lemma trunc_normalised:
  assumes "bitlen m \<le> Suc mb"
  shows "trunc_mag (m * 2 ^ (Suc mb - bitlen m)) (int (bitlen m) - int (Suc mb)) = m"
proof -
  have "nat (1 + int mb - int (bitlen m)) = Suc mb - bitlen m" using assms by simp
  then show ?thesis using assms by (auto simp: trunc_mag_def)
qed

lemma fp_to_int_of_int:
  assumes "\<bar>i\<bar> < 2 ^ 53" "lo \<le> i" "i \<le> hi"
  shows "fp_to_int lo hi (f64_val (f64_of (fp_of_int i))) = i"
proof (cases "i = 0")
  case True
  have "f64_val (f64_of (fp_of_int 0)) = Fin False 0 (fp_emin 52 11)"
    unfolding f64_val_of fp_of_int_def using unpack_round_pack_0 [of 11 52 False 0] by simp
  with True assms show ?thesis by (simp add: signed_mag_def trunc_mag_def)
next
  case False
  let ?m = "nat \<bar>i\<bar>" and ?l = "bitlen (nat \<bar>i\<bar>)"
  have m: "0 < ?m" "?l \<le> Suc 52" using False assms(1) by (auto intro!: bitlen_less simp: nat_less_iff)
  have v: "f64_val (f64_of (fp_of_int i)) = Fin (i < 0) (?m * 2 ^ (Suc 52 - ?l)) (int ?l - int (Suc 52))"
    unfolding f64_val_of fp_of_int_def
    by (rule unpack_round_pack [OF m]) (use m in \<open>auto simp: fp_emin_def fp_bias_def\<close>)
  show ?thesis
    unfolding v fp_to_int.simps trunc_normalised [OF m(2)] using assms by (auto simp: signed_mag_def)
qed

lemma double_of_int:
  "f64_to_i32 (i32_to_f64 w) = w" "f64_to_u32 (u32_to_f64 w) = w"
proof -
  have s: "- (2 ^ 31) \<le> sint w" "sint w < 2 ^ 31" using sint_greater_eq [of w] sint_less [of w] by simp_all
  show "f64_to_i32 (i32_to_f64 w) = w"
    unfolding f64_to_i32_def i32_to_f64_def using s by (subst fp_to_int_of_int) auto
  have u: "uint w < 2 ^ 32" using unsigned_less [of w, where 'a = int] by simp
  show "f64_to_u32 (u32_to_f64 w) = w"
    unfolding f64_to_u32_def u32_to_f64_def using u by (subst fp_to_int_of_int) auto
qed

section \<open>Singles through a double\<close>

text \<open>Unpacking a single, which has a significand of at most 24 bits.\<close>

lemma unpack_cases:
  assumes "b < 2 ^ Suc (mb + eb)"
  obtains s x f where "f < 2 ^ mb" "x < 2 ^ eb" "b = fp_sign mb eb s + (x * 2 ^ mb + f)"
proof -
  define y where "y = b div 2 ^ mb"
  have "y div 2 ^ eb < 2" using assms by (simp add: y_def less_mult_imp_div_less flip: power_add div_mult2_eq)
  then obtain s where s: "y div 2 ^ eb = of_bool s"
    by (cases "y div 2 ^ eb = 0") (auto intro: that [of True] that [of False])
  have "b = y * 2 ^ mb + b mod 2 ^ mb" by (simp only: y_def div_mult_mod_eq)
  moreover have "y = of_bool s * 2 ^ eb + y mod 2 ^ eb" using div_mult_mod_eq [of y "2 ^ eb"] by (simp add: s)
  ultimately have "b = (of_bool s * 2 ^ eb + y mod 2 ^ eb) * 2 ^ mb + b mod 2 ^ mb" by simp
  moreover have "fp_sign mb eb s = of_bool s * 2 ^ eb * 2 ^ mb" by (simp add: fp_sign_def power_add mult.commute)
  ultimately show ?thesis
    by (intro that [of "b mod 2 ^ mb" "y mod 2 ^ eb" s]) (simp_all add: distrib_right)
qed

lemma rne_exact: "rne (m * 2 ^ k) k = m"
  by (simp add: rne_def Let_def)

lemma bitlen_shift: "0 < m \<Longrightarrow> bitlen (m * 2 ^ k) = bitlen m + k"
proof (induction k)
  case (Suc k)
  have "bitlen (m * 2 ^ Suc k) = Suc (bitlen (m * 2 ^ Suc k div 2))" by (rule bitlen_pos) (simp add: Suc.prems)
  also have "m * 2 ^ Suc k div 2 = m * 2 ^ k" by simp
  finally show ?case using Suc by simp
qed simp

text \<open>
  Packing a number \<open>m * 2^k\<close> whose last \<open>k\<close> bits are zero, where \<open>m\<close> fits the format and \<open>e\<close> is the exponent
  of the last place of the result.
\<close>

lemma round_mag_shifted:
  assumes "0 < m" "bitlen m \<le> Suc mb" "fp_emin mb eb \<le> e" "bitlen m = Suc mb \<or> e = fp_emin mb eb"
    and n: "nat (e - fp_emin mb eb) + 2 < 2 ^ eb"
  shows "round_mag mb eb (m * 2 ^ k) (e - int k) = nat (e - fp_emin mb eb) * 2 ^ mb + m"
proof -
  have q: "max (fp_emin mb eb) (e - int k + int (bitlen (m * 2 ^ k)) - int mb - 1) = e"
    using assms by (auto simp: bitlen_shift)
  have m': "(if e \<le> e - int k then m * 2 ^ k * 2 ^ nat (e - int k - e) else rne (m * 2 ^ k) (nat (e - (e - int k)))) = m"
    by (simp add: rne_exact)
  have "m < 2 ^ Suc mb"
    using bitlen_upper [of m] assms(2) by (meson le_less_trans less_le_trans one_le_numeral power_increasing)
  have "nat (e - fp_emin mb eb) * 2 ^ mb + m \<le> (nat (e - fp_emin mb eb) + 2) * 2 ^ mb"
    using \<open>m < 2 ^ Suc mb\<close> by (simp add: algebra_simps)
  also have "\<dots> \<le> fp_inf mb eb" unfolding fp_inf_def using n by (intro mult_right_mono) auto
  finally show ?thesis
    using assms(1) unfolding round_mag_def q Let_def m' by (simp add: min_def)
qed

lemma emin_values: "fp_emin 23 8 = - 149" "fp_emin 52 11 = - 1074"
  by (simp_all add: fp_emin_def fp_bias_def)

text \<open>A finite single, widened and narrowed again.\<close>

lemma widen_narrow:
  assumes "0 < m" "bitlen m \<le> Suc 23" "- 149 \<le> e" "bitlen m = Suc 23 \<or> e = - 149" "e < 105"
  shows "round_pack 23 8 (unpack 52 11 (round_pack 52 11 (Fin s m e)))
    = fp_sign 23 8 s + (nat (e + 149) * 2 ^ 23 + m)"
proof -
  define k where "k = Suc 52 - bitlen m"
  have l: "1 \<le> bitlen m" using assms(1) by (simp add: bitlen_pos)
  have "unpack 52 11 (round_pack 52 11 (Fin s m e)) = Fin s (m * 2 ^ k) (e - int k)"
    unfolding k_def by (rule unpack_round_pack) (use assms l in \<open>auto simp: emin_values\<close>)
  moreover have "round_mag 23 8 (m * 2 ^ k) (e - int k) = nat (e - fp_emin 23 8) * 2 ^ 23 + m"
    by (rule round_mag_shifted) (use assms in \<open>auto simp: emin_values\<close>)
  ultimately show ?thesis by (simp add: emin_values)
qed

lemma unpack_inf: "unpack 52 11 (round_pack 52 11 (Inf s)) = Inf s"
  using unpack_parts [of 0 52 "2 ^ 11 - 1" 11 s] by (simp add: fp_inf_def)

lemma single_through_double:
  assumes "n < 2 ^ 32" "unpack 23 8 n \<noteq> NaN"
  shows "round_pack 23 8 (unpack 52 11 (round_pack 52 11 (unpack 23 8 n))) = n"
proof -
  obtain s x f where n: "f < 2 ^ 23" "x < 2 ^ 8" "n = fp_sign 23 8 s + (x * 2 ^ 23 + f)"
    by (rule unpack_cases [of n 23 8]) (use assms(1) in simp)
  note u = unpack_parts [OF n(1,2), of s, folded n(3)]
  consider "x = 255" "f = 0" | "x = 0" "f = 0" | "x = 0" "0 < f" | "0 < x" "x < 255"
    using n(2) u assms(2) by (auto split: if_splits)
  then show ?thesis
  proof cases
    case 1
    with u n unpack_inf [of s] show ?thesis by (simp add: fp_inf_def)
  next
    case 2
    then show ?thesis
      using u n unpack_round_pack_0 [of 11 52 s] by (simp add: round_mag_def Let_def)
  next
    case 3
    have "bitlen f \<le> 23" by (rule bitlen_less [OF n(1)])
    with 3 show ?thesis using u n widen_narrow [of f "- 149" s] by (simp add: emin_values)
  next
    case 4
    have "bitlen (f + 2 ^ 23) = Suc 23"
    proof (rule antisym)
      show "bitlen (f + 2 ^ 23) \<le> Suc 23" by (rule bitlen_less) (use n(1) in simp)
      show "Suc 23 \<le> bitlen (f + 2 ^ 23)"
        using bitlen_upper [of "f + 2 ^ 23"] power_strict_increasing_iff [of "2::nat" 23 "bitlen (f + 2 ^ 23)"]
        by (meson Suc_leI le_add2 le_less_trans one_less_numeral_iff semiring_norm(76))
    qed
    with 4 show ?thesis
      using u n widen_narrow [of "f + 2 ^ 23" "int x - 150" s] by (simp add: emin_values)
  qed
qed

lemma f32_double_f32: "f32_val b \<noteq> NaN \<Longrightarrow> f64_to_f32 (f32_to_f64 b) = b"
  using single_through_double [of "unat b"] unsigned_less [of b, where 'a = nat]
  by (simp add: f64_to_f32_def f32_to_f64_def f64_val_of f32_of_def f32_val_def)

section \<open>The conversion instructions\<close>

lemma unpack_nan:
  assumes "b < 2 ^ Suc (mb + eb)" "0 < eb"
  shows "unpack mb eb b = NaN \<longleftrightarrow> fp_inf mb eb < b mod 2 ^ (mb + eb)"
proof -
  obtain s x f where b: "f < 2 ^ mb" "x < 2 ^ eb" "b = fp_sign mb eb s + (x * 2 ^ mb + f)"
    by (rule unpack_cases [OF assms(1)])
  have le: "x * 2 ^ mb + f < Suc x * 2 ^ mb" using b(1) by simp
  also have "Suc x * 2 ^ mb \<le> 2 ^ eb * 2 ^ mb" using b(2) by (intro mult_right_mono) auto
  finally have m: "b mod 2 ^ (mb + eb) = x * 2 ^ mb + f"
    unfolding b(3) by (simp add: fp_sign_def power_add mult.commute)
  have "fp_inf mb eb < x * 2 ^ mb + f \<longleftrightarrow> x = 2 ^ eb - 1 \<and> f \<noteq> 0"
  proof (cases "x = 2 ^ eb - 1")
    case False
    with b(2) have "Suc x \<le> 2 ^ eb - 1" by simp
    then have "Suc x * 2 ^ mb \<le> fp_inf mb eb" unfolding fp_inf_def by (intro mult_right_mono) auto
    with le False show ?thesis by simp
  qed (simp add: fp_inf_def)
  with unpack_parts [OF b(1,2), of s, folded b(3)] show ?thesis by (simp add: m)
qed

lemma is_nan_unpack: "f32_is_nan b \<longleftrightarrow> f32_val b = NaN" "f64_is_nan c \<longleftrightarrow> f64_val c = NaN"
proof -
  have m: "(0x7FFFFFFF :: u32) = mask 31" "(0x7FFFFFFFFFFFFFFF :: u64) = mask 63"
    by (simp_all add: mask_eq_exp_minus_1)
  have "unat (b AND mask 31) = unat b mod 2 ^ 31" "unat (c AND mask 63) = unat c mod 2 ^ 63"
    by (simp_all add: take_bit_eq_mod unat_mod_distrib flip: take_bit_eq_mask)
  moreover have "unat b < 2 ^ 32" "unat c < 2 ^ 64"
    using unsigned_less [of b, where 'a = nat] unsigned_less [of c, where 'a = nat] by simp_all
  ultimately show "f32_is_nan b \<longleftrightarrow> f32_val b = NaN" "f64_is_nan c \<longleftrightarrow> f64_val c = NaN"
    using unpack_nan [of "unat b" 23 8] unpack_nan [of "unat c" 52 11]
    by (simp_all add: f32_is_nan_def f64_is_nan_def f32_val_def f64_val_def m word_less_nat_alt fp_inf_def)
qed

text \<open>The conversions between words and doubles and between the two formats, as instructions.\<close>

lemmas fcvt_simps = execute_inst32_def run32 exec_op_fp_def exec_op_fp_s_def exec_op_fp_d_def set_pc_def
  next_inst_def put_freg_def put_xreg_def

lemma run_fcvt:
  assumes "rd < 32" "r1 < 32" "rm < 8"
  shows "execute_inst32 E (encode_r 0x53 rd rm r1 0 0x69) s
      = Some (Inr (), put_freg (next_inst s) rd (canon64 (i32_to_f64 (xreg s r1))))"
    "execute_inst32 E (encode_r 0x53 rd rm r1 1 0x69) s
      = Some (Inr (), put_freg (next_inst s) rd (canon64 (u32_to_f64 (xreg s r1))))"
    "execute_inst32 E (encode_r 0x53 rd rm r1 0 0x61) s
      = Some (Inr (), put_xreg (next_inst s) rd (f64_to_i32 (fregs (cpu s) r1)))"
    "execute_inst32 E (encode_r 0x53 rd rm r1 1 0x61) s
      = Some (Inr (), put_xreg (next_inst s) rd (f64_to_u32 (fregs (cpu s) r1)))"
    "execute_inst32 E (encode_r 0x53 rd rm r1 0 0x21) s
      = Some (Inr (), put_freg (next_inst s) rd (canon64 (f32_to_f64 (unbox (fregs (cpu s) r1)))))"
    "execute_inst32 E (encode_r 0x53 rd rm r1 1 0x20) s
      = Some (Inr (), put_freg (next_inst s) rd (box (f64_to_f32 (fregs (cpu s) r1))))"
  using assms by (simp_all add: fcvt_simps)

lemma xreg_put_freg [simp]: "xreg (put_freg s r v) q = xreg s q"
  by (simp add: xreg_def put_freg_def)

lemma fregs_put_freg [simp]: "fregs (cpu (put_freg s r v)) r = v"
  by (simp add: put_freg_def)

lemma canon64_id: "f64_val v \<noteq> NaN \<Longrightarrow> canon64 v = v"
  by (simp add: canon64_def is_nan_unpack)

text \<open>No conversion from an integer or from a single that is not a NaN yields a NaN.\<close>

lemma f64_of_not_nan: "unpack 52 11 (round_pack 52 11 (Fin s m e)) \<noteq> NaN"
proof -
  have "fp_sign 52 11 s + round_mag 52 11 m e < 2 ^ Suc (52 + 11)"
    using round_pack_bound [of 52 11 "Fin s m e"] by simp
  moreover have "round_mag 52 11 m e \<le> fp_inf 52 11" by (simp add: round_mag_def Let_def)
  moreover have "fp_inf 52 11 < 2 ^ (52 + 11)" by (simp add: fp_inf_def)
  ultimately have "(fp_sign 52 11 s + round_mag 52 11 m e) mod 2 ^ (52 + 11) \<le> fp_inf 52 11"
    by (simp add: fp_sign_def)
  then show ?thesis
    using unpack_nan [of "round_pack 52 11 (Fin s m e)" 52 11] round_pack_bound [of 52 11 "Fin s m e"] by simp
qed

lemma widened_not_nan: "f32_val b \<noteq> NaN \<Longrightarrow> f64_val (f32_to_f64 b) \<noteq> NaN"
  by (cases "f32_val b") (simp_all only: f32_to_f64_def f64_val_of f64_of_not_nan unpack_inf, simp_all)

lemma int_double_not_nan: "f64_val (f64_of (fp_of_int i)) \<noteq> NaN"
  by (simp only: f64_val_of fp_of_int_def f64_of_not_nan not_False_eq_True)

lemma canon_int: "canon64 (i32_to_f64 w) = i32_to_f64 w" "canon64 (u32_to_f64 w) = u32_to_f64 w"
  by (simp_all add: i32_to_f64_def u32_to_f64_def canon64_id int_double_not_nan)

lemma convert_back:
  assumes "fd < 32" "rd < 32" "rd \<noteq> 0" "r1 < 32" "rm < 8"
  shows "execute_inst32 E (encode_r 0x53 fd rm r1 0 0x69) s \<bind>
      (\<lambda>(_, s'). execute_inst32 E (encode_r 0x53 rd rm fd 0 0x61) s' \<bind> (\<lambda>(_, s''). Some (xreg s'' rd))) = Some (xreg s r1)"
    "execute_inst32 E (encode_r 0x53 fd rm r1 1 0x69) s \<bind>
      (\<lambda>(_, s'). execute_inst32 E (encode_r 0x53 rd rm fd 1 0x61) s' \<bind> (\<lambda>(_, s''). Some (xreg s'' rd))) = Some (xreg s r1)"
    "\<not> f32_is_nan (unbox (fregs (cpu s) r1)) \<Longrightarrow> execute_inst32 E (encode_r 0x53 fd rm r1 0 0x21) s \<bind>
      (\<lambda>(_, s'). execute_inst32 E (encode_r 0x53 rd rm fd 1 0x20) s' \<bind> (\<lambda>(_, s''). Some (unbox (fregs (cpu s'') rd))))
        = Some (unbox (fregs (cpu s) r1))"
  using assms
  by (simp_all add: run_fcvt canon_int double_of_int ram_write_put_xreg canon64_id is_nan_unpack widened_not_nan
      f32_double_f32 unbox_box del: One_nat_def)

end
