(* ===== verification/Calls.thy ===== *)
theory Calls
  imports Effects
begin

text \<open>
  What the debugger takes for a call. A call is a jump that links: \<open>jal\<close> or \<open>jalr\<close> into \<open>ra\<close> or \<open>t0\<close>, or a
  halfword that expands to one. The test of \<open>src/lib.rs\<close> holds for exactly these and, by mistake, for the
  halfwords \<open>c.ebreak\<close> and \<open>c.add\<close>, which share the leading bits of \<open>c.jalr\<close>.
\<close>

definition link32 :: "u32 \<Rightarrow> bool" where
  "link32 w \<longleftrightarrow> (\<exists>rd\<in>{1, 5}. (\<exists>imm. w = encode_j 0x6F rd imm)
     \<or> (\<exists>f<8. \<exists>rs1<32. \<exists>imm. w = encode_i 0x67 rd f rs1 imm))"

definition call_site :: "u32 \<Rightarrow> bool" where
  "call_site w \<longleftrightarrow> (if w AND 3 = 3 then link32 w else (\<exists>e. expand16 (ucast w) = Some e \<and> link32 e))"

definition c_add :: "nat \<Rightarrow> nat \<Rightarrow> u16" where
  "c_add rd rs2 = 0x9002 OR push_bit 7 (word_of_nat rd) OR push_bit 2 (word_of_nat rs2)"

definition call_lookalike :: "u32 \<Rightarrow> bool" where
  "call_lookalike w \<longleftrightarrow> ucast w = (0x9002 :: u16) \<or> (\<exists>rd<32. \<exists>rs2<32. rs2 \<noteq> 0 \<and> ucast w = c_add rd rs2)"

section \<open>Words\<close>

lemma ucast_opcode: "(ucast (w AND 0x7F :: u32) :: u8) = ucast (v :: u32) \<longleftrightarrow> w AND 0x7F = v" if "v < 128"
proof -
  have "unat (w AND 0x7F) < 128" "unat v < 128"
    using that by (simp_all add: unat_and_less word_less_nat_alt)
  then show ?thesis
    by (simp add: word_unat_eq_iff unsigned_ucast_eq take_bit_nat_eq_self)
qed

lemma link32_fields:
  "link32 w \<longleftrightarrow> (d_opcode (decode32 w) = OP_JAL \<or> d_opcode (decode32 w) = OP_JALR) \<and> d_rd (decode32 w) \<in> {1, 5}"
proof
  show "(d_opcode (decode32 w) = OP_JAL \<or> d_opcode (decode32 w) = OP_JALR) \<and> d_rd (decode32 w) \<in> {1, 5}" if "link32 w"
    using that by (auto simp: link32_def decode_encode OP_JAL_def OP_JALR_def)
  assume a: "(d_opcode (decode32 w) = OP_JAL \<or> d_opcode (decode32 w) = OP_JALR) \<and> d_rd (decode32 w) \<in> {1, 5}"
  then have "w AND 0x7F = 0x6F \<or> w AND 0x7F = 0x67"
    using ucast_opcode [of "0x6F" w] ucast_opcode [of "0x67" w] by (auto simp: decode32_def OP_JAL_def OP_JALR_def)
  moreover have "shift_then_mask w 12 7 < 8" "d_rs1 (decode32 w) < 32"
    by (simp_all add: word_less_nat_alt width_simps)
  ultimately show "link32 w"
    using encode_decode(1,5) [of w] a unfolding link32_def by metis
qed

section \<open>Halfwords\<close>

lemma expansion_links:
  "(\<exists>e. expand16 c = Some e \<and> link32 e) \<longleftrightarrow>
     (c AND 3 = 1 \<and> shift_then_mask c 13 7 = 1)
     \<or> (c AND 3 = 2 \<and> shift_then_mask c 13 7 = 4 \<and> bit c 12 \<and> c_rs2 c = 0 \<and> c_rd c \<noteq> 0)"
proof -
  have f: "unat (shift_then_mask c 13 7) < 8" by (simp add: width_simps)
  have h: "h_funct3 (decode16 c) = ucast (shift_then_mask c 13 7)" by (simp add: decode16_def)
  have e: "d_opcode (decode32 0x00100073) = 0x73" by (simp add: decode32_def)
  show ?thesis
    by (auto simp: expand16_code h small_cast [OF f] decode16_fields expand_q0_code expand_q1_code expand_q2_code
        expand_misc_alu_code addi_def e link32_fields decode_encode exec_simps OP_JAL_def OP_JALR_def field_bit12 Let_def
        split: if_splits)
qed

lemma lookalike_fields:
  "(c = 0x9002 \<or> (\<exists>rd<32. \<exists>rs2<32. rs2 \<noteq> 0 \<and> c = c_add rd rs2)) \<longleftrightarrow>
     c AND 3 = 2 \<and> shift_then_mask c 13 7 = 4 \<and> bit c 12 \<and> \<not> (c_rs2 c = 0 \<and> c_rd c \<noteq> 0)"
  (is "?L = ?R")
proof
  have a: "c_add rd rs2 AND 3 = 2" "shift_then_mask (c_add rd rs2) 13 7 = 4" "bit (c_add rd rs2) 12"
      "shift_then_mask (c_add rd rs2) 2 0x1F = word_of_nat rs2" if "rd < 32" "rs2 < 32" for rd rs2
    using that by (auto simp: c_add_def shift_then_mask_def bit_simps field_simps32 intro!: word16_eqI)
  have u: "unat (word_of_nat r :: u16) = r" if "r < 32" for r
    using that by (simp add: unat_of_nat)
  show ?R if ?L using that by (auto simp: a c_rs2_def u) (simp_all add: shift_then_mask_def c_rs2_def c_rd_def)
  assume r: ?R
  then have q: "c AND 3 = 2" "shift_then_mask c 13 7 = 4" "bit c 12" by simp_all
  have "bit c 0 = bit (2 :: u16) 0" "bit c 1 = bit (2 :: u16) 1"
    using arg_cong [OF q(1), of "\<lambda>x. bit x 0"] arg_cong [OF q(1), of "\<lambda>x. bit x 1"] by (simp_all add: bit_simps)
  moreover have "bit c 13 = bit (4 :: u16) 0" "bit c 14 = bit (4 :: u16) 1" "bit c 15 = bit (4 :: u16) 2"
    using arg_cong [OF q(2), of "\<lambda>x. bit x 0"] arg_cong [OF q(2), of "\<lambda>x. bit x 1"] arg_cong [OF q(2), of "\<lambda>x. bit x 2"]
    by (simp_all add: bit_simps shift_then_mask_def)
  ultimately have "c = c_add (c_rd c) (c_rs2 c)"
    using q(3) by (intro word16_eqI) (simp_all add: c_add_def c_rd_def c_rs2_def shift_then_mask_def bit_simps)
  moreover have "c_rd c < 32" "c_rs2 c < 32" by (simp_all add: c_rd_def c_rs2_def width_simps)
  moreover have "c_add 0 0 = 0x9002" by (simp add: c_add_def)
  ultimately show ?L using r by metis
qed

lemma halfword_fields:
  fixes w :: u32
  defines "c \<equiv> ucast w :: u16"
  shows "w AND 3 = ucast (c AND 3)" "shift_then_mask w 13 7 = ucast (shift_then_mask c 13 7)"
    "shift_then_mask w 12 1 = of_bool (bit c 12)"
  unfolding c_def by (rule word32_eqI; simp add: shift_then_mask_def bit_simps)+

lemma ucast_inj: "(ucast (x :: u16) :: u32) = ucast y \<longleftrightarrow> x = y"
proof -
  have "unat (ucast z :: u32) = unat z" for z :: u16
    by (simp add: unsigned_ucast_eq take_bit_nat_eq_self [OF less_trans [OF unsigned_less]])
  then show ?thesis by (simp add: word_unat_eq_iff)
qed

theorem is_call_instruction_iff: "is_call_instruction w \<longleftrightarrow> call_site w \<or> call_lookalike w"
proof -
  let ?c = "ucast w :: u16"
  have l: "call_lookalike w \<longleftrightarrow> ?c AND 3 = 2 \<and> shift_then_mask ?c 13 7 = 4 \<and> bit ?c 12 \<and> \<not> (c_rs2 ?c = 0 \<and> c_rd ?c \<noteq> 0)"
    unfolding call_lookalike_def by (rule lookalike_fields)
  have n: "w AND 3 = k \<longleftrightarrow> ?c AND 3 = ucast k" if "k \<in> {1, 2, 3}" for k
    using that halfword_fields(1) [of w] ucast_inj [of "?c AND 3" "ucast k"] by auto
  have f: "shift_then_mask w 13 7 = k \<longleftrightarrow> shift_then_mask ?c 13 7 = ucast k" if "k \<in> {1, 4}" for k
    using that halfword_fields(2) [of w] ucast_inj [of "shift_then_mask ?c 13 7" "ucast k"] by auto
  show ?thesis
    using link32_fields [of w] expansion_links [of ?c]
    by (auto simp: is_call_instruction_def call_site_def l n f halfword_fields(3) Let_def)
qed

end
