(* ===== verification/Sections.thy ===== *)
theory Sections
  imports Safe_Sim
begin

unbundle bit_operations_syntax

text \<open>
  Relocatable ELF objects. A file without program headers is laid out section by section from \<open>0x10000\<close> on: each
  section that occupies memory goes to the next multiple of its alignment. The reference layout is computed on
  natural numbers; the loader's word arithmetic agrees with it, and memory then holds every section intact.
\<close>

section \<open>The reference layout\<close>

definition occupies :: "elf_shdr \<Rightarrow> bool" where
  "occupies h \<longleftrightarrow> sh_size h > 0 \<and> (sh_flags h AND 2 \<noteq> 0 \<or> sh_type h = SHT_PROGBITS)"

definition section_align :: "elf_shdr \<Rightarrow> nat" where
  "section_align h = (if sh_addralign h > 0 then unat (sh_addralign h) else 4)"

definition round_up :: "nat \<Rightarrow> nat \<Rightarrow> nat" where
  "round_up a c = (c + a - 1) div a * a"

definition after_section :: "elf_shdr \<Rightarrow> nat \<Rightarrow> nat" where
  "after_section h c = (if occupies h then round_up (section_align h) c + unat (sh_size h) else c)"

fun layout :: "elf_shdr list \<Rightarrow> nat \<Rightarrow> nat list" where
  "layout [] c = []"
| "layout (h # hs) c = (if occupies h then round_up (section_align h) c else 0) # layout hs (after_section h c)"

abbreviation layout_end :: "elf_shdr list \<Rightarrow> nat \<Rightarrow> nat" where
  "layout_end hs c \<equiv> fold after_section hs c"

lemma round_up_bounds:
  assumes "0 < a"
  shows "c \<le> round_up a c" "a dvd round_up a c" "round_up a c < c + a"
proof -
  have "round_up a c = (c + a - 1) - (c + a - 1) mod a" by (simp add: round_up_def minus_mod_eq_div_mult)
  moreover have "(c + a - 1) mod a < a" using assms by simp
  ultimately show "c \<le> round_up a c" "round_up a c < c + a" using assms by linarith+
qed (simp add: round_up_def)

lemma length_layout [simp]: "length (layout hs c) = length hs"
  by (induction hs arbitrary: c) simp_all

definition aligned_shdr :: "elf_shdr \<Rightarrow> bool" where
  "aligned_shdr h \<longleftrightarrow> (occupies h \<longrightarrow> (\<exists>k < 32. section_align h = 2 ^ k))"

lemma section_align_pos: "aligned_shdr h \<Longrightarrow> occupies h \<Longrightarrow> 0 < section_align h"
  by (auto simp: aligned_shdr_def)

lemma after_section_occ: "occupies h \<Longrightarrow> after_section h c = round_up (section_align h) c + unat (sh_size h)"
  by (simp add: after_section_def)

lemma after_section_ge: "aligned_shdr h \<Longrightarrow> c \<le> after_section h c"
  using round_up_bounds(1) [of "section_align h" c] section_align_pos [of h] by (auto simp: after_section_def)

lemma layout_end_ge: "\<forall>h \<in> set hs. aligned_shdr h \<Longrightarrow> c \<le> layout_end hs c"
  by (induction hs arbitrary: c) (auto intro: order_trans [OF after_section_ge])

text \<open>Sections that occupy memory start at or above \<open>c\<close>, at their alignment, and end before the next one.\<close>

lemma layout_bounds:
  "\<forall>h \<in> set hs. aligned_shdr h \<Longrightarrow> i < length hs \<Longrightarrow> occupies (hs ! i) \<Longrightarrow>
     c \<le> layout hs c ! i \<and> section_align (hs ! i) dvd layout hs c ! i
     \<and> layout hs c ! i + unat (sh_size (hs ! i)) \<le> layout_end hs c"
proof (induction hs arbitrary: c i)
  case (Cons h hs)
  show ?case
  proof (cases i)
    case 0
    with Cons.prems show ?thesis
      using round_up_bounds [of "section_align h" c] section_align_pos [of h] layout_end_ge [of hs "after_section h c"]
      by (simp add: after_section_occ)
  next
    case (Suc i')
    with Cons.prems show ?thesis
      using Cons.IH [of i' "after_section h c"] after_section_ge [of h c] by auto
  qed
qed simp

lemma layout_disjoint:
  "\<forall>h \<in> set hs. aligned_shdr h \<Longrightarrow> i < j \<Longrightarrow> j < length hs \<Longrightarrow> occupies (hs ! i) \<Longrightarrow> occupies (hs ! j) \<Longrightarrow>
     layout hs c ! i + unat (sh_size (hs ! i)) \<le> layout hs c ! j"
proof (induction hs arbitrary: c i j)
  case (Cons h hs)
  obtain j' where j: "j = Suc j'" "j' < length hs" using Cons.prems by (cases j) auto
  show ?case
  proof (cases i)
    case 0
    with Cons.prems j layout_bounds [of hs j' "after_section h c"] show ?thesis by (simp add: after_section_occ)
  next
    case (Suc i')
    with Cons.prems j Cons.IH [of i' j' "after_section h c"] show ?thesis by simp
  qed
qed simp

section \<open>The loader's arithmetic\<close>

lemma and_not_mask: "(x :: 'a::len word) AND NOT (mask k) = push_bit k (drop_bit k x)"
  by (rule bit_word_eqI) (auto simp: bit_simps)

lemma unat_and_not_mask: "unat ((x :: 'a::len word) AND NOT (mask k)) = unat x div 2 ^ k * 2 ^ k"
proof -
  have "unat x div 2 ^ k * 2 ^ k \<le> unat x" by (rule div_times_less_eq_dividend)
  then have "unat x div 2 ^ k * 2 ^ k < 2 ^ LENGTH('a)" using unsigned_less [of x, where 'a = nat] by linarith
  then show ?thesis
    by (simp only: and_not_mask unsigned_push_bit_eq unsigned_drop_bit_eq)
       (simp add: push_bit_eq_mult drop_bit_eq_div take_bit_nat_eq_self)
qed

text \<open>The address and the next free one, when the section ends below the device window.\<close>

lemma section_addr_layout:
  assumes "\<not> overflow_checks E" "occupies h" "aligned_shdr h" "sh_addr h = 0"
    and c: "after_section h (unat c) \<le> 0xFFFF0000"
  shows "section_addr E h c = Some (word_of_nat (round_up (section_align h) (unat c)), word_of_nat (after_section h (unat c)))"
proof -
  obtain k where k: "k < 32" "section_align h = 2 ^ k" using assms(2,3) by (auto simp: aligned_shdr_def)
  let ?a = "if sh_addralign h > 0 then ucast (sh_addralign h) else 4 :: u32"
  let ?n = "unat c + 2 ^ k - 1"
  have "unat (sh_addralign h) = 2 ^ k" if "sh_addralign h > 0" using k that by (simp add: section_align_def)
  then have "unat ?a = 2 ^ k"
    using k by (auto simp: section_align_def unsigned_ucast_eq take_bit_nat_eq_self)
  then have "word_of_nat (unat ?a) = (2 ^ k :: u32)" by simp
  then have a: "?a = 2 ^ k" unfolding of_nat_unat ucast_id .
  have r: "round_up (2 ^ k) (unat c) \<le> 0xFFFF0000" using c assms(2) by (simp add: after_section_def k)
  have n: "?n < 2 ^ 32"
  proof (rule ccontr)
    assume "\<not> ?n < 2 ^ 32"
    moreover have "(2::nat) ^ 32 = 2 ^ (32 - k) * 2 ^ k" using k(1) by (simp flip: power_add)
    ultimately have "2 ^ (32 - k) \<le> ?n div 2 ^ k" by (simp add: less_eq_div_iff_mult_less_eq)
    then have "2 ^ (32 - k) * 2 ^ k \<le> round_up (2 ^ k) (unat c)" by (simp add: round_up_def)
    moreover have "(2::nat) ^ (32 - k) * 2 ^ k = 2 ^ 32" using k(1) by (simp flip: power_add)
    ultimately show False using r by simp
  qed
  have "(1::nat) \<le> unat c + 2 ^ k" using one_le_power [of "2::nat" k] by linarith
  then have "c + 2 ^ k - 1 = word_of_nat ?n" by (simp only: of_nat_diff) simp
  with n have "unat (c + 2 ^ k - 1) = ?n" by (simp add: unat_of_nat)
  then have up: "(c + 2 ^ k - 1) AND NOT (2 ^ k - 1) = word_of_nat (round_up (2 ^ k) (unat c))"
    using r by (simp add: word_unat_eq_iff unat_and_not_mask flip: mask_eq_exp_minus_1)
       (simp add: round_up_def unat_of_nat flip: of_nat_mult)
  have "(ucast (sh_size h) :: u32) = word_of_nat (unat (sh_size h))" by simp
  then show ?thesis
    using assms(1,2,4) by (simp add: section_addr_def a sub_or_panic_def add_or_panic_def up k after_section_def Let_def)
qed

section \<open>The memory image\<close>

text \<open>The bytes the loader copies for a section, and the contents the section has in the file.\<close>

definition section_bytes :: "u8 list \<Rightarrow> elf_shdr \<Rightarrow> u8 list" where
  "section_bytes bytes h =
     (if occupies h \<and> sh_type h \<noteq> SHT_NOBITS then take (unat (sh_size h)) (drop (unat (sh_offset h)) bytes) else [])"

definition section_data :: "u8 list \<Rightarrow> elf_shdr \<Rightarrow> nat \<Rightarrow> u8" where
  "section_data bytes h k = (if sh_type h = SHT_NOBITS then 0 else bytes ! (unat (sh_offset h) + k))"

definition relocatable :: "u8 list \<Rightarrow> elf_shdr \<Rightarrow> bool" where
  "relocatable bytes h \<longleftrightarrow> aligned_shdr h \<and> (occupies h \<longrightarrow> sh_addr h = 0)
     \<and> range_ok (sh_offset h) (sh_size h)
     \<and> (occupies h \<and> sh_type h \<noteq> SHT_NOBITS \<longrightarrow> unat (sh_offset h) + unat (sh_size h) \<le> length bytes)"

fun sections_image :: "u8 list \<Rightarrow> elf_shdr list \<Rightarrow> nat \<Rightarrow> (u32 \<Rightarrow> u8) \<Rightarrow> (u32 \<Rightarrow> u8)" where
  "sections_image bytes [] c M = M"
| "sections_image bytes (h # hs) c M = sections_image bytes hs (after_section h c)
     (store_bytes M (word_of_nat (round_up (section_align h) c)) (section_bytes bytes h))"

lemma section_bytes_nth:
  assumes "relocatable bytes h" "occupies h" "sh_type h \<noteq> SHT_NOBITS"
  shows "length (section_bytes bytes h) = unat (sh_size h)"
    "k < unat (sh_size h) \<Longrightarrow> section_bytes bytes h ! k = section_data bytes h k"
  using assms by (auto simp: relocatable_def section_bytes_def section_data_def)

lemma in_ram_range: "n + l \<le> 0xFFFF0000 \<Longrightarrow> in_ram (word_of_nat n) l"
  by (auto simp: in_ram_def MMIO_BASE_def word_less_nat_alt unat_of_nat simp flip: of_nat_add)

lemma load_sections_skip:
  "\<not> occupies h \<Longrightarrow> load_sections E bytes (h # hs) c as s = load_sections E bytes hs c (as @ [0]) s"
  by (auto simp: occupies_def)

lemma load_sections_occ:
  assumes "occupies h" "section_addr E h c = Some (a, e)" "(if sh_type h \<noteq> SHT_NOBITS then do {
      r \<leftarrow> file_range E bytes (sh_offset h) (sh_size h); write_range E a r s } else Some s) = Some s1"
  shows "load_sections E bytes (h # hs) c as s = load_sections E bytes hs e (as @ [a]) s1"
  using assms(1) by (simp only: load_sections.simps occupies_def if_True simp_thms assms bind.bind_lunit prod.case)

lemma load_section_image:
  assumes "\<not> overflow_checks E" "wf_memory (mem s)" "relocatable bytes h" "occupies h"
    "in_ram a (length (section_bytes bytes h))"
  shows "\<exists>s1. (if sh_type h \<noteq> SHT_NOBITS then do {
      r \<leftarrow> file_range E bytes (sh_offset h) (sh_size h); write_range E a r s } else Some s) = Some s1
    \<and> wf_memory (mem s1) \<and> ram (mem s1) = store_bytes (ram (mem s)) a (section_bytes bytes h) \<and> cpu s1 = cpu s
    \<and> host s1 = host s"
proof (cases "sh_type h = SHT_NOBITS")
  case True
  with assms(2) show ?thesis by (simp add: section_bytes_def)
next
  case False
  then have "file_range E bytes (sh_offset h) (sh_size h) = Some (Some (section_bytes bytes h))"
    using assms(1,3,4) by (simp add: relocatable_def file_range_value section_bytes_def)
  with False mem_write_bytes_ram [OF assms(2,5), of E] show ?thesis
    by (auto simp: write_range_def dest!: ram_write_facts)
qed

lemma load_sections_image:
  assumes "\<not> overflow_checks E"
  shows "wf_memory (mem s) \<Longrightarrow> \<forall>h \<in> set hs. relocatable bytes h \<Longrightarrow> layout_end hs (unat c) \<le> 0xFFFF0000 \<Longrightarrow>
    \<exists>s'. load_sections E bytes hs c as s = Some (as @ map word_of_nat (layout hs (unat c)), s')
      \<and> ram (mem s') = sections_image bytes hs (unat c) (ram (mem s)) \<and> cpu s' = cpu s \<and> host s' = host s"
proof (induction hs arbitrary: c as s)
  case (Cons h hs)
  have rel: "relocatable bytes h" "\<forall>h \<in> set hs. relocatable bytes h" using Cons.prems(2) by simp_all
  show ?case
  proof (cases "occupies h")
    case False
    then show ?thesis
      using Cons.IH [OF Cons.prems(1) rel(2), of c "as @ [0]"] Cons.prems(3)
      by (simp add: load_sections_skip after_section_def [of h] section_bytes_def del: load_sections.simps)
  next
    case True
    let ?a = "round_up (section_align h) (unat c)" and ?e = "after_section h (unat c)"
    have "\<forall>h \<in> set hs. aligned_shdr h" using rel(2) by (simp add: relocatable_def)
    then have e: "?e \<le> 0xFFFF0000" using layout_end_ge [of hs ?e] Cons.prems(3) by simp
    then have ce: "unat (word_of_nat ?e :: u32) = ?e" by (simp add: unat_of_nat)
    have sa: "section_addr E h c = Some (word_of_nat ?a, word_of_nat ?e)"
      using section_addr_layout [OF assms True _ _ e] rel(1) True by (simp add: relocatable_def)
    have "in_ram (word_of_nat ?a) (length (section_bytes bytes h))"
      using e True by (intro in_ram_range) (auto simp: after_section_occ section_bytes_def)
    from load_section_image [OF assms Cons.prems(1) rel(1) True this]
    obtain s1 where s1: "(if sh_type h \<noteq> SHT_NOBITS then do {
          r \<leftarrow> file_range E bytes (sh_offset h) (sh_size h); write_range E (word_of_nat ?a) r s } else Some s) = Some s1"
      "wf_memory (mem s1)" "ram (mem s1) = store_bytes (ram (mem s)) (word_of_nat ?a) (section_bytes bytes h)"
      "cpu s1 = cpu s" "host s1 = host s" by blast
    obtain s' where "load_sections E bytes hs (word_of_nat ?e) (as @ [word_of_nat ?a]) s1
        = Some ((as @ [word_of_nat ?a]) @ map word_of_nat (layout hs ?e), s')"
      "ram (mem s') = sections_image bytes hs ?e (ram (mem s1))" "cpu s' = cpu s1" "host s' = host s1"
      using Cons.IH [OF s1(2) rel(2), of "word_of_nat ?e" "as @ [word_of_nat ?a]"] Cons.prems(3) by (auto simp: ce)
    then show ?thesis
      using True s1(3-5) by (simp add: load_sections_occ [OF True sa s1(1)] del: load_sections.simps)
  qed
qed simp

text \<open>Every section is in the image, unharmed by those after it, when memory is empty from \<open>c\<close> on.\<close>

lemma store_bytes_outside:
  assumes "n + length bs \<le> 0xFFFF0000" "unat x < n \<or> n + length bs \<le> unat x"
  shows "store_bytes M (word_of_nat n) bs x = M x"
proof (rule store_bytes_other)
  fix k assume "k < length bs"
  with assms(1) have "unat (word_of_nat n + word_of_nat k :: u32) = n + k" by (simp add: unat_of_nat flip: of_nat_add)
  with assms(2) \<open>k < length bs\<close> show "x \<noteq> word_of_nat n + word_of_nat k" by auto
qed

lemma section_bytes_length: "length (section_bytes bytes h) \<le> unat (sh_size h)"
  by (simp add: section_bytes_def)

lemma section_bytes_empty: "\<not> occupies h \<Longrightarrow> section_bytes bytes h = []"
  by (simp add: section_bytes_def)

lemma store_section_outside:
  assumes "after_section h c \<le> 0xFFFF0000" "aligned_shdr h" "unat x < c \<or> after_section h c \<le> unat x"
  shows "store_bytes M (word_of_nat (round_up (section_align h) c)) (section_bytes bytes h) x = M x"
proof (cases "occupies h")
  case True
  let ?a = "round_up (section_align h) c"
  have "c \<le> ?a" "after_section h c = ?a + unat (sh_size h)"
    using round_up_bounds(1) section_align_pos [OF assms(2) True] True by (auto simp: after_section_occ)
  with assms section_bytes_length [of bytes h] show ?thesis by (intro store_bytes_outside) auto
qed (simp add: section_bytes_empty)

lemma sections_image_below:
  "\<forall>h \<in> set hs. aligned_shdr h \<Longrightarrow> layout_end hs c \<le> 0xFFFF0000 \<Longrightarrow> unat x < c \<Longrightarrow> sections_image bytes hs c M x = M x"
proof (induction hs arbitrary: c M)
  case (Cons h hs)
  have "after_section h c \<le> layout_end hs (after_section h c)" "c \<le> after_section h c"
    using Cons.prems(1) by (auto intro: layout_end_ge after_section_ge)
  then show ?case
    using Cons.IH [of "after_section h c"] Cons.prems store_section_outside [of h c x] by simp
qed simp

lemma sections_image_at:
  "\<forall>h \<in> set hs. relocatable bytes h \<Longrightarrow> layout_end hs c \<le> 0xFFFF0000 \<Longrightarrow> (\<And>x. c \<le> unat x \<Longrightarrow> M x = 0) \<Longrightarrow>
   i < length hs \<Longrightarrow> occupies (hs ! i) \<Longrightarrow> k < unat (sh_size (hs ! i)) \<Longrightarrow>
     sections_image bytes hs c M (word_of_nat (layout hs c ! i + k)) = section_data bytes (hs ! i) k"
proof (induction hs arbitrary: c M i)
  case (Cons h hs)
  let ?a = "round_up (section_align h) c" and ?e = "after_section h c"
  let ?M = "store_bytes M (word_of_nat ?a) (section_bytes bytes h)"
  have al: "aligned_shdr h" "\<forall>h \<in> set hs. aligned_shdr h" using Cons.prems(1) by (auto simp: relocatable_def)
  have e: "?e \<le> 0xFFFF0000" "c \<le> ?e" using layout_end_ge [OF al(2), of ?e] after_section_ge [OF al(1)] Cons.prems(2) by simp_all
  show ?case
  proof (cases i)
    case 0
    with Cons.prems have h: "occupies h" "k < unat (sh_size h)" by simp_all
    then have ak: "?a + k < ?e" by (simp add: after_section_occ)
    with e have u: "unat (word_of_nat (?a + k) :: u32) = ?a + k" by (simp only: unat_of_nat) simp
    have c: "c \<le> ?a" using round_up_bounds(1) section_align_pos [OF al(1) h(1)] by blast
    have "?M (word_of_nat (?a + k)) = section_data bytes h k"
    proof (cases "sh_type h = SHT_NOBITS")
      case True
      with Cons.prems(3) u c show ?thesis by (simp add: section_bytes_def section_data_def del: of_nat_add)
    next
      case False
      note b = section_bytes_nth [OF _ h(1) False, of bytes]
      have "unat (sh_size h) \<le> 2 ^ 32" using e h by (simp add: after_section_occ)
      with b h Cons.prems(1) show ?thesis by (simp add: store_bytes_at)
    qed
    with 0 h ak e Cons.prems(2) sections_image_below [OF al(2), of ?e "word_of_nat (?a + k)" bytes ?M]
    show ?thesis unfolding u by (simp del: of_nat_add)
  next
    case (Suc i')
    have "?M x = 0" if "?e \<le> unat x" for x
      using store_section_outside [OF e(1) al(1), of x M bytes] that e(2) Cons.prems(3) [of x] by simp
    with Suc Cons.IH [of ?e ?M i'] Cons.prems show ?thesis by simp
  qed
qed simp

section \<open>Symbols and the start address\<close>

text \<open>The name of a symbol, if it has one that is not empty.\<close>

definition sym_name :: "elf \<Rightarrow> elf_sym \<Rightarrow> string option" where
  "sym_name elf y = (case strtab_get_at elf (st_name y) of Some n \<Rightarrow> if n = [] then None else Some n | None \<Rightarrow> None)"

text \<open>The symbol at \<open>a\<close> is called \<open>n\<close>: that is the name of the last of the symbols that have a name and lie at \<open>a\<close>.\<close>

definition symbol_at :: "(elf_sym \<Rightarrow> string option) \<Rightarrow> (elf_sym \<Rightarrow> u32) \<Rightarrow> elf_sym list \<Rightarrow> u32 \<Rightarrow> string \<Rightarrow> bool" where
  "symbol_at name addr ys a n \<longleftrightarrow> (\<exists>i < length ys. name (ys ! i) = Some n \<and> addr (ys ! i) = a
     \<and> (\<forall>j < length ys. i < j \<and> addr (ys ! j) = a \<longrightarrow> name (ys ! j) = None))"

text \<open>The first symbol with a property.\<close>

definition first_symbol :: "(elf_sym \<Rightarrow> bool) \<Rightarrow> elf_sym list \<Rightarrow> elf_sym \<Rightarrow> bool" where
  "first_symbol P ys y \<longleftrightarrow> (\<exists>i < length ys. y = ys ! i \<and> P y \<and> (\<forall>j < i. \<not> P (ys ! j)))"

definition no_symbol :: "(elf_sym \<Rightarrow> bool) \<Rightarrow> elf_sym list \<Rightarrow> bool" where
  "no_symbol P ys \<longleftrightarrow> (\<forall>y \<in> set ys. \<not> P y)"

lemma find_first: "first_symbol P ys y \<Longrightarrow> find P ys = Some y" "no_symbol P ys \<Longrightarrow> find P ys = None"
  by (auto simp: first_symbol_def no_symbol_def find_Some_iff find_None_iff)

lemma symbol_at_snoc:
  "symbol_at name addr (ys @ [y]) a n \<longleftrightarrow>
     (if addr y = a \<and> name y \<noteq> None then name y = Some n else symbol_at name addr ys a n)"
proof -
  have all: "(\<forall>j < length (ys @ [y]). P ((ys @ [y]) ! j) j) \<longleftrightarrow> (\<forall>j < length ys. P (ys ! j) j) \<and> P y (length ys)"
    and ex: "(\<exists>j < length (ys @ [y]). P ((ys @ [y]) ! j) j) \<longleftrightarrow> (\<exists>j < length ys. P (ys ! j) j) \<or> P y (length ys)" for P
    by (simp_all add: All_less_Suc Ex_less_Suc nth_append conj_commute disj_commute cong: conj_cong)
  show ?thesis
    unfolding symbol_at_def all [of "\<lambda>z j. i < j \<and> addr z = a \<longrightarrow> name z = None" for i]
      ex [of "\<lambda>z i. name z = Some n \<and> addr z = a \<and> (\<forall>j < length ys. i < j \<and> addr (ys ! j) = a \<longrightarrow> name (ys ! j) = None)
        \<and> (i < length ys \<and> addr y = a \<longrightarrow> name y = None)"]
    by auto
qed

text \<open>Both loops over the symbols insert the named ones one after the other.\<close>

definition put_symbol :: "(elf_sym \<Rightarrow> string option) \<Rightarrow> (elf_sym \<Rightarrow> u32) \<Rightarrow> elf_sym \<Rightarrow> symbols \<Rightarrow> symbols" where
  "put_symbol name addr y m = (case name y of Some n \<Rightarrow> m(addr y \<mapsto> n) | None \<Rightarrow> m)"

lemma put_symbols_at: "fold (put_symbol name addr) ys (\<lambda>_. None) a = Some n \<longleftrightarrow> symbol_at name addr ys a n"
proof (induction ys rule: rev_induct)
  case Nil
  show ?case by (simp add: symbol_at_def)
next
  case (snoc y ys)
  then show ?case by (auto simp: symbol_at_snoc put_symbol_def split: option.splits)
qed

definition loaded_name :: "elf \<Rightarrow> elf_sym \<Rightarrow> string option" where
  "loaded_name elf y = (if st_value y = 0 then None else sym_name elf y)"

lemma segment_symbols_put: "segment_symbols elf ys m = fold (put_symbol (loaded_name elf) (\<lambda>y. ucast (st_value y))) ys m"
  by (induction ys arbitrary: m)
    (auto simp: put_symbol_def loaded_name_def sym_name_def split: option.splits intro!: arg_cong [of _ _ "fold _ _"])

lemma segment_symbols_at:
  "segment_symbols elf ys (\<lambda>_. None) a = Some n \<longleftrightarrow> symbol_at (loaded_name elf) (\<lambda>y. ucast (st_value y)) ys a n"
  by (simp only: segment_symbols_put put_symbols_at)

text \<open>The address of a symbol of an object: its offset from the address given to its section.\<close>

definition relocated :: "nat list \<Rightarrow> elf_sym \<Rightarrow> u32" where
  "relocated addrs y =
     word_of_nat (if st_shndx y < length addrs then addrs ! st_shndx y else 0x10000) + ucast (st_value y)"

definition entry_symbol :: "elf \<Rightarrow> nat list \<Rightarrow> elf_sym \<Rightarrow> bool" where
  "entry_symbol elf addrs y \<longleftrightarrow> (sym_name elf y = Some ''_start'' \<or> sym_name elf y = Some ''main'') \<and> relocated addrs y \<noteq> 0"

lemma section_symbols_put:
  "section_symbols elf (map word_of_nat addrs) ys m e =
     (fold (put_symbol (sym_name elf) (relocated addrs)) ys m,
      if e \<noteq> 0 then e else case find (entry_symbol elf addrs) ys of Some y \<Rightarrow> relocated addrs y | None \<Rightarrow> 0)"
proof (induction ys arbitrary: m e)
  case (Cons y ys)
  have r: "(if st_shndx y < length (map word_of_nat addrs) then map word_of_nat addrs ! st_shndx y else 0x10000)
      + ucast (st_value y) = relocated addrs y"
    by (simp add: relocated_def)
  show ?case
    by (simp only: section_symbols.simps r Let_def Cons.IH)
       (cases "strtab_get_at elf (st_name y)"; auto simp: put_symbol_def [of _ _ y] sym_name_def [of elf y] entry_symbol_def [of elf addrs y])
qed simp

lemma section_symbols_at:
  "fst (section_symbols elf (map word_of_nat addrs) ys (\<lambda>_. None) e) a = Some n \<longleftrightarrow>
     symbol_at (sym_name elf) (relocated addrs) ys a n"
  by (simp only: section_symbols_put fst_conv put_symbols_at)

text \<open>The \<open>_start\<close> symbol that overrides the entry point of the header.\<close>

definition start_label :: "elf \<Rightarrow> elf_sym \<Rightarrow> bool" where
  "start_label elf y \<longleftrightarrow> sym_name elf y = Some ''_start'' \<and> st_value y \<noteq> 0"

lemma start_override_first:
  "e_entry elf \<noteq> 0 \<Longrightarrow> first_symbol (start_label elf) (syms elf) y \<Longrightarrow> start_override elf e = ucast (st_value y)"
  "e_entry elf = 0 \<or> no_symbol (start_label elf) (syms elf) \<Longrightarrow> start_override elf e = e"
proof -
  have "start_symbol elf = start_label elf"
    by (auto simp: fun_eq_iff start_symbol_def start_label_def sym_name_def split: option.splits if_splits)
  then show "e_entry elf \<noteq> 0 \<Longrightarrow> first_symbol (start_label elf) (syms elf) y \<Longrightarrow> start_override elf e = ucast (st_value y)"
    "e_entry elf = 0 \<or> no_symbol (start_label elf) (syms elf) \<Longrightarrow> start_override elf e = e"
    by (auto simp: start_override_def find_first)
qed

text \<open>Where execution of an object starts.\<close>

lemma object_entry:
  assumes "section_symbols elf (map word_of_nat addrs) (syms elf) m (ucast (e_entry elf)) = (m', e)"
    "e_entry elf = 0 \<or> no_symbol (start_label elf) (syms elf)"
  defines "start \<equiv> start_override elf (if e = 0 then 0x10000 else e)"
  shows "(ucast (e_entry elf) :: u32) \<noteq> 0 \<Longrightarrow> start = ucast (e_entry elf)"
    "(ucast (e_entry elf) :: u32) = 0 \<Longrightarrow> first_symbol (entry_symbol elf addrs) (syms elf) y \<Longrightarrow> start = relocated addrs y"
    "(ucast (e_entry elf) :: u32) = 0 \<Longrightarrow> no_symbol (entry_symbol elf addrs) (syms elf) \<Longrightarrow> start = 0x10000"
proof -
  have s: "start = (if e = 0 then 0x10000 else e)"
    using start_override_first(2) [OF assms(2)] by (simp add: start_def)
  have e: "e = (if ucast (e_entry elf) \<noteq> (0 :: u32) then ucast (e_entry elf)
      else case find (entry_symbol elf addrs) (syms elf) of Some y \<Rightarrow> relocated addrs y | None \<Rightarrow> 0)"
    using assms(1) by (simp only: section_symbols_put prod.inject)
  show "start = ucast (e_entry elf)" if "(ucast (e_entry elf) :: u32) \<noteq> 0"
    using that by (simp add: s e)
  show "start = relocated addrs y" if "(ucast (e_entry elf) :: u32) = 0" "first_symbol (entry_symbol elf addrs) (syms elf) y"
    using that find_first(1) [OF that(2)] by (auto simp: s e first_symbol_def entry_symbol_def)
  show "start = 0x10000" if "(ucast (e_entry elf) :: u32) = 0" "no_symbol (entry_symbol elf addrs) (syms elf)"
    using that find_first(2) [OF that(2)] by (simp add: s e)
qed

section \<open>Loading an object\<close>

lemma load_elf_sections:
  assumes "\<not> overflow_checks E" "elf_parse bytes = Some elf" "program_headers elf = []"
    and hs: "hs = section_headers elf" "\<forall>h \<in> set hs. relocatable bytes h" "layout_end hs 0x10000 \<le> 0xFFFF0000"
    and sy: "section_symbols elf (map word_of_nat (layout hs 0x10000)) (syms elf) (\<lambda>_. None) (ucast (e_entry elf)) = (m, e)"
  shows "\<exists>sim'. load_binary_with_args elf_parse E bytes args sim
      = Some (start_override elf (if e = 0 then 0x10000 else e), sim')
    \<and> pc (cpu (machine sim')) = start_override elf (if e = 0 then 0x10000 else e) \<and> symbols sim' = m
    \<and> ram (mem (machine sim')) = sections_image bytes hs 0x10000 (\<lambda>_. 0)"
proof -
  obtain s where s: "init_registers (register_inits (parse_args args))
      \<lparr>cpu = cpu_new\<lparr>has_custom_syscalls := has_custom_syscalls (cpu (machine sim))\<rparr>, mem = memory_new,
        host = host (machine sim)\<rparr> = Some s" "mem s = memory_new"
    using loader_start [of args "cpu_new\<lparr>has_custom_syscalls := has_custom_syscalls (cpu (machine sim))\<rparr>" "host (machine sim)"]
    by auto
  have w: "wf_memory (mem s)" by (simp add: s(2) memory_new_facts)
  have z: "ram (mem s) = (\<lambda>_. 0)" by (simp only: s(2) memory_new_facts)
  have c: "unat (0x10000 :: u32) = 0x10000" by simp
  from load_sections_image [OF assms(1) w hs(2), where c = "0x10000" and as = "[]", unfolded c, OF hs(3)]
  obtain s' where "load_sections E bytes hs 0x10000 [] s = Some (map word_of_nat (layout hs 0x10000), s')"
      "ram (mem s') = sections_image bytes hs 0x10000 (\<lambda>_. 0)"
    unfolding append_Nil z by blast
  then show ?thesis
    using s assms(2,3) sy by (simp add: load_binary_with_args_def load_elf_def Let_def hs(1))
qed

end
