(* ===== verification/Session.thy ===== *)
theory Session
  imports Safe_Sim
begin

text \<open>
  A session with the simulator: any sequence of the calls that its interface offers, in any order. The states a
  session can reach all satisfy \<open>machine_ok\<close>. Of the calls that return, those that panic are the loads of an ELF file
  with a range that wraps around and whose wrapped end is inside the file; they panic whatever was called before.
\<close>

section \<open>Calls\<close>

datatype command =
    LoadBinary "u8 list" "string list"
  | RunFull
  | RunSlice u32
  | DebugStep
  | DebugStepOver
  | DebugStepOut
  | RunUntilBreakpoint
  | SetDebugMode bool
  | SetCustomSyscalls bool
  | AddBreakpoint u32
  | RemoveBreakpoint u32
  | ClearBreakpoints
  | ReadMemoryRange u32 u32
  | WriteMemoryByte u32 u8
  | WriteRegister nat u32
  | DisassembleRange u32 u32

text \<open>The simulator a call leaves: the outer \<open>None\<close> is a call that does not return, the inner one a panic.\<close>

fun perform :: "(u8 list \<Rightarrow> elf option) \<Rightarrow> 'h env \<Rightarrow> command \<Rightarrow> 'h simulator \<Rightarrow> 'h simulator option option" where
  "perform P E (LoadBinary bytes args) m = Some (map_option snd (load_binary_with_args P E bytes args m))"
| "perform P E RunFull m = map_option (map_option snd) (run_full E m)"
| "perform P E (RunSlice budget) m = Some (map_option snd (sim_run_slice E budget m))"
| "perform P E DebugStep m = Some (map_option snd (debug_step E m))"
| "perform P E DebugStepOver m = map_option (map_option snd) (debug_step_over E m)"
| "perform P E DebugStepOut m = map_option (map_option snd) (debug_step_out E m)"
| "perform P E RunUntilBreakpoint m = map_option (map_option snd) (run_until_breakpoint E m)"
| "perform P E (SetDebugMode b) m = Some (Some (set_debug_mode b m))"
| "perform P E (SetCustomSyscalls b) m = Some (Some (set_has_custom_syscalls b m))"
| "perform P E (AddBreakpoint a) m = Some (Some (add_breakpoint a m))"
| "perform P E (RemoveBreakpoint a) m = Some (Some (remove_breakpoint a m))"
| "perform P E ClearBreakpoints m = Some (Some (clear_breakpoints m))"
| "perform P E (ReadMemoryRange a len) m = Some (map_option snd (read_memory_range E a len m))"
| "perform P E (WriteMemoryByte a v) m = Some (write_memory_byte E a v m)"
| "perform P E (WriteRegister r v) m = Some (write_register r v m)"
| "perform P E (DisassembleRange a len) m = Some (map_option snd (disassemble_range E a len m))"

text \<open>Between two calls the host may change its own state in any way, e.g. queue input.\<close>

inductive session :: "(u8 list \<Rightarrow> elf option) \<Rightarrow> 'h env \<Rightarrow> 'h simulator \<Rightarrow> bool" for P E where
  start: "session P E (simulator_new h)"
| call: "session P E m \<Longrightarrow> perform P E c m = Some (Some m') \<Longrightarrow> session P E m'"
| host: "session P E m \<Longrightarrow> session P E (m\<lparr>machine := (machine m)\<lparr>host := h\<rparr>\<rparr>)"

section \<open>The invariant\<close>

abbreviation sim_ok :: "'h simulator \<Rightarrow> bool" where
  "sim_ok m \<equiv> machine_ok (machine m)"

lemma returns_map [simp]: "returns (map_option f r) Q = returns r (\<lambda>x. Q (f x))"
  by (cases r) simp_all

lemma read_each_returns:
  "wf_memory m \<Longrightarrow> returns (read_each (read_u8 E) a i n m h) (\<lambda>_. True)"
  by (induction n arbitrary: i h) (auto intro!: read_u8_returns simp: split_def)

lemma read_memory_range_safe: "sim_ok m \<Longrightarrow> returns (read_memory_range E a len m) (\<lambda>(_, m'). sim_ok m')"
  using read_each_returns [of "mem (machine m)" E a 0 "unat len" "host (machine m)"]
  by (auto simp: read_memory_range_def machine_ok_wf elim!: returnsE)

lemma write_memory_byte_safe: "sim_ok m \<Longrightarrow> returns (write_memory_byte E a v m) sim_ok"
  unfolding write_memory_byte_def returns_map
  by (rule mem_write_u8_wp [OF exec_inv_refl]) (auto simp: exec_inv_def)

lemma write_register_safe: "sim_ok m \<Longrightarrow> returns (write_register r v m) sim_ok"
  by (simp add: write_register_def exec_simps machine_ok_def)

lemma settings_safe:
  assumes "sim_ok m"
  shows "sim_ok (set_debug_mode b m)" "sim_ok (set_has_custom_syscalls b m)" "sim_ok (add_breakpoint a m)"
    "sim_ok (remove_breakpoint a m)" "sim_ok (clear_breakpoints m)"
  using assms by (simp_all add: machine_ok_def set_debug_mode_def set_has_custom_syscalls_def add_breakpoint_def
      remove_breakpoint_def clear_breakpoints_def update_cpu_def)

section \<open>Loading any file\<close>

text \<open>The range of the file wraps around the address space and ends, wrapped, inside the file.\<close>

definition wraps_into :: "u8 list \<Rightarrow> u64 \<Rightarrow> u64 \<Rightarrow> bool" where
  "wraps_into bytes offset len \<longleftrightarrow>
     2 ^ 64 \<le> unat offset + unat len \<and> unat offset + unat len - 2 ^ 64 \<le> length bytes"

definition segment_wraps :: "u8 list \<Rightarrow> elf_phdr \<Rightarrow> bool" where
  "segment_wraps bytes p \<longleftrightarrow> p_type p = PT_LOAD \<and> wraps_into bytes (p_offset p) (p_filesz p)"

definition section_wraps :: "u8 list \<Rightarrow> elf_shdr \<Rightarrow> bool" where
  "section_wraps bytes h \<longleftrightarrow> sh_size h > 0 \<and> (sh_flags h AND 2 \<noteq> 0 \<or> sh_type h = SHT_PROGBITS) \<and> sh_type h \<noteq> SHT_NOBITS
     \<and> wraps_into bytes (sh_offset h) (sh_size h)"

definition elf_wraps :: "u8 list \<Rightarrow> elf \<Rightarrow> bool" where
  "elf_wraps bytes elf \<longleftrightarrow>
     (if program_headers elf \<noteq> [] then \<exists>p \<in> set (program_headers elf). segment_wraps bytes p
      else \<exists>h \<in> set (section_headers elf). section_wraps bytes h)"

lemma file_range_panics:
  assumes "\<not> overflow_checks E"
  shows "file_range E bytes offset len = None \<longleftrightarrow> wraps_into bytes offset len"
proof (cases "range_ok offset len")
  case True
  then show ?thesis
    using file_range_safe [OF True assms, of "\<lambda>_. True" bytes] by (auto simp: wraps_into_def range_ok_def elim!: returnsE)
next
  case False
  then have w: "2 ^ 64 \<le> unat offset + unat len" by (simp add: range_ok_def)
  moreover have b: "unat offset < 2 ^ 64" "unat len < 2 ^ 64"
    using unsigned_less [of offset, where 'a = nat] unsigned_less [of len, where 'a = nat] by simp_all
  ultimately have "(unat offset + unat len) mod 2 ^ 64 = unat offset + unat len - 2 ^ 64"
    by (subst le_mod_geq) simp_all
  then have "unat (offset + len) = unat offset + unat len - 2 ^ 64" by (simp add: unat_word_ariths)
  moreover from this b w have "unat (offset + len) < unat offset" by linarith
  ultimately show ?thesis
    using w assms by (simp add: file_range_def slice_range_def wraps_into_def)
qed

text \<open>A computation that panics exactly under a condition, and otherwise leaves a state with a property.\<close>

definition panics_iff :: "bool \<Rightarrow> 'a option \<Rightarrow> ('a \<Rightarrow> bool) \<Rightarrow> bool" where
  "panics_iff b r Q \<longleftrightarrow> (if b then r = None else returns r Q)"

lemma panics_iff_bind:
  assumes "panics_iff b r Q" "\<And>x. Q x \<Longrightarrow> panics_iff c (f x) R"
  shows "panics_iff (b \<or> c) (r \<bind> f) R"
  using assms by (cases r) (auto simp: panics_iff_def split: if_splits)

lemma panics_iff_False [simp]: "panics_iff False r Q = returns r Q"
  by (simp add: panics_iff_def)

lemma copy_range_panics:
  assumes "\<not> overflow_checks E" "fresh_ctrl b s"
  shows "panics_iff (wraps_into bytes offset len)
    (do { r \<leftarrow> file_range E bytes offset len; write_range E a r s }) (fresh_ctrl b)"
proof (cases "file_range E bytes offset len")
  case None
  then show ?thesis using file_range_panics [OF assms(1), of bytes offset len] by (simp add: panics_iff_def)
next
  case (Some r)
  then have "\<not> wraps_into bytes offset len" using file_range_panics [OF assms(1), of bytes offset len] by simp
  with Some write_range_fresh [OF assms(2)] show ?thesis by simp
qed

lemma load_segments_panics:
  assumes "\<not> overflow_checks E"
  shows "fresh_ctrl b s \<Longrightarrow> panics_iff (\<exists>p \<in> set ps. segment_wraps bytes p) (load_segments E bytes ps s) (fresh_ctrl b)"
proof (induction ps arbitrary: s)
  case (Cons p ps)
  have "panics_iff (segment_wraps bytes p) (if p_type p = PT_LOAD then do {
        r \<leftarrow> file_range E bytes (p_offset p) (p_filesz p); write_range E (ucast (p_vaddr p)) r s }
      else Some s) (fresh_ctrl b)"
    using copy_range_panics [OF assms Cons.prems, of bytes] Cons.prems by (simp add: segment_wraps_def)
  from panics_iff_bind [OF this Cons.IH] show ?case
    by (simp only: load_segments.simps list.set bex_simps)
qed simp

lemma load_sections_panics:
  assumes "\<not> overflow_checks E"
  shows "fresh_ctrl b s \<Longrightarrow> panics_iff (\<exists>h \<in> set hs. section_wraps bytes h) (load_sections E bytes hs c as s)
    (\<lambda>(as', s'). fresh_ctrl b s')"
proof (induction hs arbitrary: c as s)
  case (Cons h hs)
  obtain a c' where a: "section_addr E h c = Some (a, c')"
    using section_addr_safe [OF assms, of "\<lambda>_. True" h c] by (auto elim!: returnsE)
  show ?case
  proof (cases "sh_size h > 0 \<and> (sh_flags h AND 2 \<noteq> 0 \<or> sh_type h = SHT_PROGBITS)")
    case True
    then have "panics_iff (section_wraps bytes h) (if sh_type h \<noteq> SHT_NOBITS then do {
        r \<leftarrow> file_range E bytes (sh_offset h) (sh_size h); write_range E a r s } else Some s) (fresh_ctrl b)"
      using copy_range_panics [OF assms Cons.prems, of bytes] Cons.prems by (simp add: section_wraps_def)
    from panics_iff_bind [OF this Cons.IH] True show ?thesis
      by (simp only: load_sections.simps if_True simp_thms a bind.bind_lunit prod.case list.set bex_simps)
  next
    case False
    then have "\<not> section_wraps bytes h" by (auto simp: section_wraps_def)
    with False Cons.IH [OF Cons.prems] show ?thesis
      by (simp only: load_sections.simps if_False list.set bex_simps simp_thms)
  qed
qed simp

lemma load_elf_panics:
  assumes "\<not> overflow_checks E" "fresh_ctrl b s"
  shows "panics_iff (elf_wraps bytes elf) (load_elf E bytes elf s) (\<lambda>((e, m), s'). fresh_ctrl b s')"
  using load_segments_panics [OF assms, of "program_headers elf" bytes]
    load_sections_panics [OF assms, of "section_headers elf" bytes "0x10000" "[]"]
  by (auto simp: load_elf_def elf_wraps_def panics_iff_def Let_def fresh_ctrl_pc elim!: returnsE split: prod.splits if_splits)

lemma load_binary_panics:
  assumes "\<not> overflow_checks E"
  shows "panics_iff (\<exists>elf. P bytes = Some elf \<and> elf_wraps bytes elf) (load_binary_with_args P E bytes args m)
    (\<lambda>(_, m'). sim_ok m')"
proof (cases "P bytes")
  case None
  then show ?thesis
    using load_binary_safe [OF assms, of P bytes args m] by (auto simp: fresh_ctrl_def elim!: returnsE)
next
  case (Some elf)
  let ?b = "has_custom_syscalls (cpu (machine m))"
  obtain s where s: "init_registers (register_inits (parse_args args))
      \<lparr>cpu = cpu_new\<lparr>has_custom_syscalls := ?b\<rparr>, mem = memory_new, host = host (machine m)\<rparr> = Some s"
      "fresh_ctrl ?b s"
    using init_registers_safe [OF fresh_ctrl_new, of "register_inits (parse_args args)" ?b "host (machine m)"]
      parse_args_ok [of args] by (auto simp: inits_ok_def elim!: returnsE)
  with Some load_elf_panics [OF assms s(2), of bytes elf] show ?thesis
    by (auto simp: load_binary_with_args_def Let_def panics_iff_def fresh_ctrl_def elim!: returnsE split: if_splits)
qed

text \<open>The calls that panic.\<close>

fun wrapping_load :: "(u8 list \<Rightarrow> elf option) \<Rightarrow> command \<Rightarrow> bool" where
  "wrapping_load P (LoadBinary bytes args) \<longleftrightarrow> (\<exists>elf. P bytes = Some elf \<and> elf_wraps bytes elf)"
| "wrapping_load P c \<longleftrightarrow> False"

context stdin_host
begin

lemma perform_safe:
  assumes "\<not> overflow_checks E" "sim_ok m" "perform P E c m = Some r"
  shows "panics_iff (wrapping_load P c) r sim_ok"
  using assms(3)
proof (cases c)
  case (LoadBinary bytes args)
  then show ?thesis
    using assms load_binary_panics [OF assms(1), of P bytes args m] by (auto simp: panics_iff_def split_def split: if_splits)
next
  case RunFull
  then show ?thesis
    using assms run_safe [OF assms(1), of E "machine m"] by (auto simp: run_full_def lift_machine_def)
next
  case (RunSlice budget)
  then show ?thesis
    using assms run_slice_safe [OF assms(2,1), of budget]
    by (auto simp: sim_run_slice_def lift_machine_def slice_post_def after_steps_def elim!: returnsE)
next
  case DebugStep
  then show ?thesis
    using assms debug_step_safe [OF assms(1,2)] by (auto simp: settings_kept_def elim!: returnsE)
next
  case DebugStepOver
  then show ?thesis
    using assms debug_step_over_safe [OF assms(1,2)] by (auto simp: settings_kept_def elim!: returnsE)
next
  case DebugStepOut
  then show ?thesis
    using assms debug_step_out_safe [OF assms(1,2)] by (auto simp: settings_kept_def elim!: returnsE)
next
  case RunUntilBreakpoint
  then show ?thesis
    using assms run_until_breakpoint_safe [OF assms(1), of E m] by (auto simp: stop_post_def elim!: returnsE)
next
  case (ReadMemoryRange a len)
  then show ?thesis using assms read_memory_range_safe [OF assms(2), of E a len] by (auto simp: split_def)
next
  case (WriteMemoryByte a v)
  then show ?thesis using assms write_memory_byte_safe [OF assms(2), of E a v] by auto
next
  case (WriteRegister x v)
  then show ?thesis using assms write_register_safe [OF assms(2), of x v] by auto
next
  case (DisassembleRange a len)
  then show ?thesis
    using assms disassemble_loop_listing [OF assms(2), of E a len a] by (auto simp: disassemble_range_def elim!: returnsE)
qed (use assms settings_safe [OF assms(2)] in auto)

lemma session_safe:
  assumes "\<not> overflow_checks E"
  shows "session P E m \<Longrightarrow> sim_ok m"
proof (induction rule: session.induct)
  case (start h)
  show ?case by (simp add: simulator_new_def machine_ok_def cpu_new_def memory_new_def wf_memory_def brk_ok_def MMIO_BASE_def)
next
  case (call m c m')
  from perform_safe [OF assms call.IH call.hyps(2)] show ?case by (simp add: panics_iff_def split: if_splits)
qed simp

end

end
