(* ===== verification/Interleave.thy ===== *)
theory Interleave
  imports Slices
begin

text \<open>
  Slices on any host, interrupts included. The reference machine \<open>guest\<close> executes instructions, is polled by the
  host, and takes interrupts, in any order; a slice is one of its runs, in which polls are kept apart by
  instructions and a pending interrupt comes first.
\<close>

section \<open>The reference machine\<close>

datatype event = Instruction | Polled | Interrupted i32

inductive guest :: "'h env \<Rightarrow> 'h machine \<Rightarrow> event list \<Rightarrow> 'h machine \<Rightarrow> bool" for E where
  finished: "guest E s [] s"
| instruction: "\<not> is_halted (cpu s) \<Longrightarrow> fetch_execute E s = Some ((compressed, Inr ()), s1) \<Longrightarrow> count_step E s1 = Some s2 \<Longrightarrow>
    guest E s2 es s' \<Longrightarrow> guest E s (Instruction # es) s'"
| polled: "guest E (s\<lparr>host := h\<rparr>) es s' \<Longrightarrow> guest E s (Polled # es) s'"
| interrupted: "interrupts_enabled (cpu s) = Some True \<Longrightarrow> irq \<noteq> 0 \<Longrightarrow> handle_interrupt (cpu s) irq = Some c \<Longrightarrow>
    guest E (s\<lparr>cpu := c, host := h\<rparr>) es s' \<Longrightarrow> guest E s (Interrupted irq # es) s'"

inductive_simps guest_Nil [simp]: "guest E s [] s'"

lemma guest_append: "guest E s es s1 \<Longrightarrow> guest E s1 es' s' \<Longrightarrow> guest E s (es @ es') s'"
  by (induction rule: guest.induct) (auto intro: guest.intros)

text \<open>How a slice ends: out of budget, at a halted guest, at a breakpoint, or at an instruction that fails.\<close>

definition slice_end :: "'h env \<Rightarrow> 'h machine \<Rightarrow> slice_status \<Rightarrow> 'h machine \<Rightarrow> bool" where
  "slice_end E s1 status s' = (case status of
     Running \<Rightarrow> s' = s1 \<and> \<not> is_halted (cpu s1)
   | Halted \<Rightarrow> s' = s1 \<and> is_halted (cpu s1)
   | Breakpoint \<Rightarrow> pc (cpu s1) \<in> breakpoints (cpu s1)
       \<and> s' = s1\<lparr>cpu := (cpu s1)\<lparr>resume_past_breakpoint := Some (pc (cpu s1))\<rparr>\<rparr>
   | Trapped \<Rightarrow> \<exists>compressed e s2. fetch_execute E s1 = Some ((compressed, Inl e), s2)
       \<and> s' = stop_trapped (slice_report E compressed (pc (cpu s1)) e s2))"

section \<open>Chunks\<close>

lemma slice_iter_stop:
  "slice_iter E w sk s = Some (Some status, sk', s') \<Longrightarrow> slice_end E s status s'"
  by (auto simp: slice_iter_def Let_def slice_end_def split: if_splits Option.bind_split_asm sum.splits)

lemma slice_iter_next:
  "slice_iter E w sk s = Some (None, sk', s') \<Longrightarrow> \<exists>compressed s1. \<not> is_halted (cpu s)
     \<and> fetch_execute E s = Some ((compressed, Inr ()), s1) \<and> count_step E s1 = Some s'"
  by (auto simp: slice_iter_def Let_def split: if_splits Option.bind_split_asm sum.splits)

lemma exec_n_guest:
  "exec_n E w n sk s = Some (k, st, sk', s') \<Longrightarrow>
     \<exists>s1. guest E s (replicate k Instruction) s1 \<and> (case st of None \<Rightarrow> s' = s1 | Some status \<Rightarrow> slice_end E s1 status s')"
proof (induction n arbitrary: sk s k)
  case (Suc n)
  obtain st1 sk1 s1 where i: "slice_iter E w sk s = Some (st1, sk1, s1)"
    using Suc.prems by (auto split: Option.bind_split_asm)
  show ?case
  proof (cases st1)
    case (Some status)
    with i Suc.prems slice_iter_stop [of E w sk s status sk1 s1] show ?thesis by auto
  next
    case None
    with i Suc.prems obtain k' where k: "k = Suc k'" "exec_n E w n sk1 s1 = Some (k', st, sk', s')"
      by (auto split: Option.bind_split_asm)
    from Suc.IH [OF k(2)] slice_iter_next [OF i [unfolded None]] show ?thesis
      by (auto simp: k(1) intro: guest.instruction)
  qed
qed simp

section \<open>Polls\<close>

definition pending :: "'h env \<Rightarrow> 'h machine \<Rightarrow> i32 \<Rightarrow> bool" where
  "pending E s irq \<longleftrightarrow> interrupts_enabled (cpu s) = Some True \<and> irq \<noteq> 0
     \<and> (\<exists>d h1 en h2 h3. js_get_int_inst_delay E (host s) = (d, h1) \<and> js_interrupt_enabled E h1 = (en, h2) \<and> en \<noteq> 0
        \<and> js_external_interrupt E h2 = (irq, h3))"

lemma poll_event:
  assumes "poll_interrupt E s = Some (d, s1)"
  shows "\<exists>ev. ev \<noteq> Instruction \<and> (\<forall>irq. pending E s irq \<longrightarrow> ev = Interrupted irq)
    \<and> (\<forall>es s'. guest E s1 es s' \<longrightarrow> guest E s (ev # es) s')"
proof -
  obtain dl h1 en h2 irq h3 where j: "js_get_int_inst_delay E (host s) = (dl, h1)" "js_interrupt_enabled E h1 = (en, h2)"
    "js_external_interrupt E h2 = (irq, h3)" by fastforce
  show ?thesis
  proof (cases "en \<noteq> 0 \<and> interrupts_enabled (cpu s) = Some True \<and> irq \<noteq> 0")
    case True
    then obtain c where "handle_interrupt (cpu s) irq = Some c" "s1 = s\<lparr>cpu := c, host := h3\<rparr>"
      using assms by (auto simp: poll_interrupt_def Let_def j split: Option.bind_split_asm)
    with True j show ?thesis
      by (intro exI [of _ "Interrupted irq"]) (auto simp: pending_def intro: guest.interrupted)
  next
    case False
    then obtain h where "s1 = s\<lparr>host := h\<rparr>"
      using assms by (auto simp: poll_interrupt_def Let_def j split: if_splits Option.bind_split_asm)
    with False j show ?thesis
      by (intro exI [of _ Polled]) (auto simp: pending_def intro: guest.polled)
  qed
qed

section \<open>Slices\<close>

abbreviation apart :: "event list \<Rightarrow> bool" where
  "apart es \<equiv> successively (\<lambda>a b. a = Instruction \<or> b = Instruction) es"

lemma count_run [simp]: "count_list (replicate k x) x = k"
  by (induction k) simp_all

lemma apart_run: "apart (replicate k Instruction)"
  by (induction k) (auto simp: successively_Cons)

lemma apart_poll: "apart (ev # replicate k Instruction)"
  by (cases k) (auto simp: successively_Cons apart_run simp flip: replicate_Suc)

lemma apart_chunk: "apart es \<Longrightarrow> 0 < k \<Longrightarrow> apart (ev # replicate k Instruction @ es)"
  by (cases k) (auto simp: successively_Cons successively_append_iff apart_run hd_append simp flip: replicate_append_same
      split: list.splits)

lemma slice_loop_guest:
  "slice_loop E w budget n sk s = Some ((status, n'), s') \<Longrightarrow>
    \<exists>es s1. guest E s es s1 \<and> n' = n + word_of_nat (count_list es Instruction) \<and> apart es \<and> slice_end E s1 status s'
      \<and> (\<forall>irq. pending E s irq \<longrightarrow> \<not> is_halted (cpu s) \<longrightarrow> n < budget \<longrightarrow> (\<exists>es'. es = Interrupted irq # es'))"
proof (induction E w budget n sk s arbitrary: rule: slice_loop.induct)
  case (1 E w budget n sk s)
  show ?case
  proof (cases "is_halted (cpu s) \<or> budget \<le> n")
    case True
    with 1(2) show ?thesis
      by (subst (asm) slice_loop.simps) (auto simp: slice_end_def intro!: exI [of _ "[]"] exI [of _ s] split: if_splits)
  next
    case False
    obtain d s1 k st sk2 s2 where p: "poll_interrupt E s = Some (d, s1)"
        "slice_chunk E w (min d (budget - n)) 0 sk s1 = Some (k, st, sk2, s2)"
        "case st of Some status' \<Rightarrow> status' = status \<and> n' = n + k \<and> s' = s2
          | None \<Rightarrow> slice_loop E w budget (n + k) sk2 s2 = Some ((status, n'), s')"
      using 1(2) False by (subst (asm) slice_loop.simps) (auto simp: Let_def split: Option.bind_split_asm option.splits)
    obtain j where j: "exec_n E w (unat (min d (budget - n))) sk s1 = Some (j, st, sk2, s2)" "k = word_of_nat j"
      using p(2) slice_chunk_exec_n [of 0 "min d (budget - n)" E w sk s1] by auto
    obtain s3 where g: "guest E s1 (replicate j Instruction) s3"
        "case st of None \<Rightarrow> s2 = s3 | Some status \<Rightarrow> slice_end E s3 status s2"
      using exec_n_guest [OF j(1)] by blast
    obtain ev where ev: "ev \<noteq> Instruction" "\<And>irq. pending E s irq \<Longrightarrow> ev = Interrupted irq"
        "\<And>es s'. guest E s1 es s' \<Longrightarrow> guest E s (ev # es) s'"
      using poll_event [OF p(1)] by blast
    show ?thesis
    proof (cases st)
      case (Some status')
      with p(3) g ev j(2) show ?thesis
        by (intro exI [of _ "ev # replicate j Instruction"] exI [of _ s3])
           (auto simp: apart_poll)
    next
      case None
      have "0 < unat (min d (budget - n))"
        using chunk_progress(1) [of n budget d] poll_interrupt_pos [OF p(1)] False
        by (metis add.right_neutral not_le not_less unat_0 unat_gt_0 word_gt_0 less_irrefl)
      then have "0 < j" using exec_n_count [OF j(1)] None by simp
      have rest: "slice_loop E w budget (n + k) sk2 s2 = Some ((status, n'), s')" using p(3) None by simp
      have "\<exists>es s1. guest E s2 es s1 \<and> n' = n + k + word_of_nat (count_list es Instruction) \<and> apart es
          \<and> slice_end E s1 status s'"
        using 1(1) [OF _ _ p(1) refl refl p(2) refl refl refl None rest] False by auto
      then obtain es s4 where r: "guest E s2 es s4" "n' = n + k + word_of_nat (count_list es Instruction)" "apart es"
          "slice_end E s4 status s'" by blast
      have "guest E s1 (replicate j Instruction @ es) s4" using g None r(1) guest_append by auto
      with ev r j(2) apart_chunk [OF r(3) \<open>0 < j\<close>, of ev] show ?thesis
        by (intro exI [of _ "ev # replicate j Instruction @ es"] exI [of _ s4]) (auto simp: ac_simps)
    qed
  qed
qed

lemma run_slice_guest:
  assumes "run_slice E budget s = Some (out, s')"
  shows "\<exists>es s1. guest E (s\<lparr>cpu := (cpu s)\<lparr>resume_past_breakpoint := None\<rparr>\<rparr>) es s1
    \<and> so_steps out = word_of_nat (count_list es Instruction) \<and> apart es \<and> slice_end E s1 (so_status out) s'
    \<and> (\<forall>irq. pending E s irq \<longrightarrow> \<not> is_halted (cpu s) \<longrightarrow> budget \<noteq> 0 \<longrightarrow> (\<exists>es'. es = Interrupted irq # es'))"
proof -
  let ?s = "s\<lparr>cpu := (cpu s)\<lparr>resume_past_breakpoint := None\<rparr>\<rparr>"
  obtain w where l: "slice_loop E w (ucast budget) 0 (resume_past_breakpoint (cpu s)) ?s = Some ((so_status out, so_steps out), s')"
    using assms by (auto simp: run_slice_def Let_def split: Option.bind_split_asm)
  have "pending E ?s = pending E s" by (simp add: fun_eq_iff pending_def interrupts_enabled_def)
  moreover have "unat (ucast budget :: u64) = unat budget"
    by (simp add: unsigned_ucast_eq take_bit_nat_eq_self_iff less_trans [OF unsigned_less])
  then have "(0 :: u64) < ucast budget \<longleftrightarrow> budget \<noteq> 0" by (simp add: word_less_nat_alt unat_eq_0 flip: unat_gt_0)
  ultimately show ?thesis using slice_loop_guest [OF l] by simp
qed

end
