(* ===== verification/Samples.thy ===== *)
theory Samples
  imports Float_Exact Calls Sections Session Interleave
begin

text \<open>
  Concrete machines on which the properties are instantiated: the machine of a new simulator, and machines
  with a few bytes of memory filled in.
\<close>

text \<open>The machine that \<open>Simulator::new\<close> creates, on the native host with its mocks reset.\<close>

definition boot :: "unit native_host machine" where
  "boot = \<lparr>cpu = cpu_new, mem = memory_new, host = fresh_host\<rparr>"

text \<open>The same with bytes in memory, and the program \<open>addi x5, x0, 7; c.add x5, x5\<close> at address 0.\<close>

definition with_bytes :: "(u32 \<times> u8) list \<Rightarrow> unit native_host machine" where
  "with_bytes bs = boot\<lparr>mem := fold (\<lambda>(a, v) m. poke m a v) bs memory_new\<rparr>"

definition demo :: "unit native_host machine" where
  "demo = with_bytes [(0, 0x93), (1, 0x02), (2, 0x70), (3, 0x00), (4, 0x96), (5, 0x92)]"

lemma memory_new_wf: "wf_memory memory_new" "brk_ok memory_new"
  by (simp_all add: memory_new_def wf_memory_def brk_ok_def MMIO_BASE_def)

lemma boot_ok: "machine_ok boot"
  by (simp add: boot_def machine_ok_def cpu_new_def memory_new_wf)

lemma fold_poke_wf: "wf_memory m \<Longrightarrow> wf_memory (fold (\<lambda>(a, v) m. poke m a v) bs m)"
  by (induction bs arbitrary: m) (simp_all add: split_def)

lemma fold_poke_brk: "brk_ok m \<Longrightarrow> brk_ok (fold (\<lambda>(a, v) m. poke m a v) bs m)"
proof (induction bs arbitrary: m)
  case (Cons x xs)
  have "brk_ok (poke m (fst x) (snd x))" using Cons.prems by (simp add: brk_ok_def)
  from Cons.IH [OF this] show ?case by (simp add: split_def)
qed simp

lemma with_bytes_ok: "machine_ok (with_bytes bs)"
  using fold_poke_wf [OF memory_new_wf(1), of bs] fold_poke_brk [OF memory_new_wf(2), of bs]
  by (simp add: with_bytes_def machine_ok_def boot_def cpu_new_def)

lemma with_bytes_simps [simp]: "cpu (with_bytes bs) = cpu_new" "host (with_bytes bs) = fresh_host"
  by (simp_all add: with_bytes_def boot_def)

lemma ram_new [simp]: "ram memory_new = (\<lambda>_. 0)"
  by (simp add: fun_eq_iff ram_def page_at_def memory_new_def)

lemma demo_simps [simp]: "cpu demo = cpu_new" "host demo = fresh_host"
  by (simp_all add: demo_def)

lemma demo_ok: "machine_ok demo"
  by (simp add: demo_def with_bytes_ok)

lemma ram_demo: "ram (mem demo) = (\<lambda>_. 0)(0 := 0x93, 1 := 0x02, 2 := 0x70, 4 := 0x96, 5 := 0x92)"
  by (simp add: demo_def with_bytes_def ram_poke fun_upd_twist fun_eq_iff)

lemma native_release: "\<not> overflow_checks (native_env c) \<longleftrightarrow> \<not> c"
  by (simp add: native_env_def)

lemma in_ram_low: "unat a + n \<le> 0xFFFF0000 \<Longrightarrow> in_ram a n"
proof -
  assume a: "unat a + n \<le> 0xFFFF0000"
  have "unat (a + word_of_nat k) = unat a + k" if "k < n" for k
    using a that by (simp add: unat_word_ariths unat_of_nat)
  with a show ?thesis by (auto simp: in_ram_def MMIO_BASE_def word_less_nat_alt)
qed

lemma demo_step: "isa_step (arch_of demo) (isa 4 (OpImm ADDI 5 0 7) (arch_of demo))"
proof -
  have "load32 (ram (mem demo)) 0 = asm (OpImm ADDI 5 0 7)"
    by (simp add: load32_def ram_demo from_le_bytes4_def encode_defs)
  then show ?thesis
    by (intro isa_step.full) (simp_all add: cpu_new_def access_ok_def in_ram_low)
qed

lemma demo_steps: "isa_steps 2 (arch_of demo) (isa 2 (Op ADD 5 5 5) (isa 4 (OpImm ADDI 5 0 7) (arch_of demo)))"
proof -
  let ?a = "isa 4 (OpImm ADDI 5 0 7) (arch_of demo)"
  have "load16 (ram (mem demo)) 4 = 0x9296"
    by (simp add: load16_def ram_demo from_le_bytes2_def)
  moreover have "expand16 0x9296 = Some (asm (Op ADD 5 5 5))"
    by (simp add: expand16_code decode16_def shift_then_mask_def expand_q2_code Let_def c_bit12_def c_rd_def c_rs2_def)
  moreover have "a_pc ?a = 4" "a_mem ?a = ram (mem demo)" by (simp_all add: advance_def arch_set_def cpu_new_def)
  ultimately have "isa_step ?a (isa 2 (Op ADD 5 5 5) ?a)"
    by (intro isa_step.compressed; simp add: access_ok_def in_ram_low del: isa.simps)
  with demo_step show ?thesis
    by (simp only: numeral_2_eq_2) (blast intro: isa_steps.intros)
qed

lemma demo_first_slice:
  "\<exists>out s. run_slice (native_env False) 1 demo = Some (out, s) \<and> so_status out = Running \<and> machine_ok s"
proof -
  obtain b where "isa_step (arch_of demo) b"
    using demo_steps by (auto simp: numeral_2_eq_2 elim: isa_steps.cases)
  then have "isa_steps (unat (1 :: u32)) (arch_of demo) b" by (auto intro: isa_steps.intros)
  with native_quiet.run_slice_isa [of False demo 1 b] show ?thesis
    by (auto simp: native_release demo_ok cpu_new_def quiet_run_def)
qed

text \<open>A guest that executes \<open>ebreak\<close>, which halts it.\<close>

definition stopper :: "unit native_host machine" where
  "stopper = with_bytes [(0, 0x73), (2, 0x10)]"

lemma stopper_ok: "machine_ok stopper"
  by (simp add: stopper_def with_bytes_ok)

lemma stopper_simps: "cpu stopper = cpu_new" "host stopper = fresh_host"
  by (simp_all add: stopper_def)

lemma stopper_word: "load32 (ram (mem stopper)) 0 = 0x00100073"
  by (simp add: stopper_def with_bytes_def ram_poke load32_def from_le_bytes4_def)

lemma run_ebreak32:
  "execute_inst32 E 0x00100073 s = Some (Inr (), s\<lparr>cpu := (cpu s)\<lparr>is_halted := True, pc := pc (cpu s) + 4\<rparr>\<rparr>)"
  by (simp add: execute_inst32_def dispatch32_def decode32_def shift_then_mask_def exec_csr_def Let_def
      and_then_def ok_def set_pc_def)

lemma ebreak_stops:
  assumes "machine_ok s" "\<not> is_halted (cpu s)" "pc (cpu s) = 0" "load32 (ram (mem s)) 0 = 0x00100073"
  shows "exec_n (native_env False) False 2 None s = Some (1, Some Halted, None,
     s\<lparr>cpu := (cpu s)\<lparr>is_halted := True, pc := 4, step_counter := step_counter (cpu s) + 1\<rparr>\<rparr>)"
proof -
  have "load16 (ram (mem s)) 0 AND 3 = 3"
    using load32_low [of "ram (mem s)" 0] assms(4) by simp
  then have "fetch_execute (native_env False) s
      = Some ((False, Inr ()), s\<lparr>cpu := (cpu s)\<lparr>is_halted := True, pc := 4\<rparr>\<rparr>)"
    using fetch_execute_ram(2) [OF machine_ok_wf [OF assms(1)] assms(3) [symmetric], of "native_env False"]
    by (simp add: assms run_ebreak32 in_ram_low)
  then have "slice_iter (native_env False) False None s
      = Some (None, None, s\<lparr>cpu := (cpu s)\<lparr>is_halted := True, pc := 4, step_counter := step_counter (cpu s) + 1\<rparr>\<rparr>)"
    using assms(2) by (simp add: slice_iter_def count_step_def add_or_panic_def native_env_def)
  then show ?thesis unfolding numeral_2_eq_2 by (simp add: slice_iter_halted)
qed

lemma stopper_stops:
  "exec_n (native_env False) False 2 None stopper = Some (1, Some Halted, None,
     stopper\<lparr>cpu := cpu_new\<lparr>is_halted := True, pc := 4, step_counter := 1\<rparr>\<rparr>)"
  using ebreak_stops [OF stopper_ok] by (simp add: stopper_simps stopper_word cpu_new_def)

text \<open>The same guest as a file.\<close>

lemma ebreak_file:
  "\<exists>sim. load_binary (\<lambda>_. None) Some (native_env False) [0x73, 0x00, 0x10, 0x00] [''--newlib''] (simulator_new fresh_host)
       = Some (0, sim) \<and> fresh_ctrl False (machine sim) \<and> pc (cpu (machine sim)) = 0
     \<and> load32 (ram (mem (machine sim))) 0 = 0x00100073"
proof -
  let ?args = "List.map_filter Some [''--newlib'']" and ?bytes = "[0x73, 0x00, 0x10, 0x00] :: u8 list"
  have "\<exists>sim. load_binary_with_args (\<lambda>_. None) (native_env False) ?bytes ?args (simulator_new fresh_host) = Some (0, sim)
      \<and> (\<forall>k < length ?bytes. ram (mem (machine sim)) (word_of_nat k) = ?bytes ! k)"
    using load_raw_image [of "\<lambda>_. None" ?bytes "native_env False" ?args "simulator_new fresh_host"] by fastforce
  then obtain sim where sim: "load_binary_with_args (\<lambda>_. None) (native_env False) ?bytes ?args (simulator_new fresh_host)
        = Some (0, sim)" "\<And>k. k < 4 \<Longrightarrow> ram (mem (machine sim)) (word_of_nat k) = ?bytes ! k" by auto
  have "load32 (ram (mem (machine sim))) 0 = 0x00100073"
    using sim(2) [of 0] sim(2) [of 1] sim(2) [of 2] sim(2) [of 3] by (simp add: load32_def from_le_bytes4_def)
  moreover have "fresh_ctrl False (machine sim) \<and> pc (cpu (machine sim)) = 0"
    using load_binary_safe [of "native_env False" "\<lambda>_. None" ?bytes ?args "simulator_new fresh_host"] sim(1)
    by (simp add: native_release simulator_new_def cpu_new_def)
  ultimately show ?thesis using sim(1) by (auto simp: load_binary_def)
qed

text \<open>Guests about to call \<open>write(1, 0, 2)\<close> and \<open>read(0, 0, 5)\<close> with two bytes of input queued.\<close>

definition writer :: "unit native_host machine" where
  "writer = put_xreg (put_xreg (put_xreg demo 17 64) 10 1) 12 2"

definition reader :: "unit native_host machine" where
  "reader = (put_xreg (put_xreg boot 17 63) 12 5)\<lparr>host := set_mock_stdin [0x68, 0x69] fresh_host\<rparr>"

lemma writer_facts:
  "xreg writer 17 = 64" "xreg writer 10 = 1" "xreg writer 12 = 2" "xreg writer 11 = 0" "mem writer = mem demo"
  "host writer = fresh_host" "\<not> has_custom_syscalls (cpu writer)"
  by (simp_all add: writer_def ram_write_put_xreg) (simp_all add: xreg_def put_xreg_def cpu_new_def)

lemma reader_facts:
  "xreg reader 17 = 63" "xreg reader 12 = 5" "xreg reader 11 = 0" "mem reader = memory_new"
  "mock_stdin (host reader) = [0x68, 0x69]" "\<not> has_custom_syscalls (cpu reader)"
  by (simp_all add: reader_def xreg_def put_xreg_def boot_def cpu_new_def set_mock_stdin_def)

lemma writer_call:
  "wf_memory (mem writer)" "\<not> has_custom_syscalls (cpu writer)" "xreg writer 17 \<in> {64, 4}" "xreg writer 10 = 1"
  "2 = min (unat (xreg writer 12)) SYS_BUF_MAX" "in_ram (xreg writer 11) 2"
  using machine_ok_wf [OF demo_ok] by (simp_all add: writer_facts SYS_BUF_MAX_def in_ram_low)

lemma reader_call:
  "wf_memory (mem reader)" "\<not> has_custom_syscalls (cpu reader)" "xreg reader 17 \<in> {63, 3}"
  "unat (xreg reader 12) \<le> SYS_BUF_MAX" "length (mock_stdin (host reader)) < 2 ^ 32"
  "2 = min (length (mock_stdin (host reader))) (unat (xreg reader 12))" "in_ram (xreg reader 11) 2"
  by (simp_all add: reader_facts SYS_BUF_MAX_def in_ram_low memory_new_wf)

text \<open>Memory that was never written holds zeros, and a zero halfword is not an instruction.\<close>

lemma boot_fetch: "fetch_execute E boot = Some ((True, Inl (IllegalInstruction 0 0)), boot)"
proof -
  have "load16 (ram (mem boot)) (pc (cpu boot)) = 0"
    by (simp add: boot_def load16_def from_le_bytes2_def)
  moreover have "execute_inst16 E 0 boot = Some (Inl (IllegalInstruction 0 0), boot)"
    by (simp add: execute_inst16_def dispatch16_def decode16_def shift_then_mask_def exec_q0_def Let_def
        c_addi4spn_imm_def illegal16_def err_def and_then_def boot_def cpu_new_def)
  ultimately show ?thesis
    using fetch_execute_ram(1) [OF machine_ok_wf [OF boot_ok] refl, of E]
    by (simp add: in_ram_low boot_def cpu_new_def)
qed

text \<open>Operands of a multiply-add whose product is not representable.\<close>

lemma sample_values:
  "f32_val 0x3F800800 = Fin False 8390656 (- 23)" "f32_val 0xBF801000 = Fin True 8392704 (- 23)"
  "f32_val 0x3F801000 = Fin False 8392704 (- 23)"
  by (simp_all add: f32_val_def unpack_def fp_emin_def fp_bias_def Let_def)

lemmas round_defs = f32_of_def round_mag_def fp_emin_def fp_bias_def Let_def rne_def fp_sign_def fp_inf_def
  bitlen.simps signed_mag_def

lemma sample_product: "f32_mul 0x3F800800 0x3F800800 = 0x3F801000"
  by (simp add: f32_mul_def sample_values round_defs)

lemma sample_sum: "f32_add 0x3F801000 0xBF801000 = 0"
  by (simp add: f32_add_def sample_values round_defs)

text \<open>An ELF file of one segment: two bytes at offset 1 of the file for address \<open>0x10000\<close>.\<close>

definition sample_elf :: elf where
  "sample_elf = \<lparr>e_entry = 0x10000,
     program_headers = [\<lparr>p_type = PT_LOAD, p_offset = 1, p_filesz = 2, p_vaddr = 0x10000\<rparr>],
     section_headers = [], syms = [\<lparr>st_name = 1, st_value = 0x10002, st_shndx = 0\<rparr>],
     strtab_get_at = (\<lambda>k. if k = 1 then Some ''_start'' else None)\<rparr>"

lemma sample_elf_ok:
  "elf_ok sample_elf" "program_headers sample_elf \<noteq> []"
  "\<forall>p \<in> set (program_headers sample_elf). segment_ok [0xAA, 0xBB, 0xCC] p"
  by (simp_all add: sample_elf_def elf_ok_def range_ok_def segment_ok_def segment_bytes_def PT_LOAD_def in_ram_low)

lemma sample_elf_image:
  "fold (segment_image [0xAA, 0xBB, 0xCC]) (program_headers sample_elf) (\<lambda>_. 0) 0x10001 = 0xCC"
  by (simp add: sample_elf_def segment_image_def segment_bytes_def PT_LOAD_def)

lemma sample_elf_symbols:
  "e_entry sample_elf \<noteq> 0"
  "first_symbol (start_label sample_elf) (syms sample_elf) \<lparr>st_name = 1, st_value = 0x10002, st_shndx = 0\<rparr>"
  "symbol_at (loaded_name sample_elf) (\<lambda>y. ucast (st_value y)) (syms sample_elf) 0x10002 ''_start''"
  by (simp_all add: sample_elf_def first_symbol_def start_label_def symbol_at_def loaded_name_def sym_name_def)

text \<open>The same with a segment whose range wraps around to the second byte of the file.\<close>

definition wrapping_elf :: elf where
  "wrapping_elf = sample_elf\<lparr>program_headers := [\<lparr>p_type = PT_LOAD, p_offset = 0xFFFFFFFFFFFFFFFF, p_filesz = 2, p_vaddr = 0x10000\<rparr>]\<rparr>"

lemma wrapping_elf_wraps: "elf_wraps [0xAA, 0xBB] wrapping_elf"
  by (simp add: wrapping_elf_def elf_wraps_def segment_wraps_def wraps_into_def)

text \<open>A guest that jumps to itself, stopped at a breakpoint on the jump.\<close>

definition looper :: "unit native_host machine" where
  "looper = (with_bytes [(0, 0x6F)])\<lparr>cpu := cpu_new\<lparr>debug_enabled := True, breakpoints := {0},
     resume_past_breakpoint := Some 0\<rparr>\<rparr>"

lemma looper_resume: "resume_past_breakpoint (cpu looper) = Some (pc (cpu looper))"
  by (simp add: looper_def cpu_new_def)

lemma looper_settings:
  "debug_enabled (cpu looper)" "breakpoints (cpu looper) = {0}" "resume_past_breakpoint (cpu looper) = Some 0"
  by (simp_all add: looper_def)

lemma looper_ok: "machine_ok looper"
  using with_bytes_ok [of "[(0, 0x6F)]"] by (simp add: looper_def machine_ok_def)

lemma looper_stops:
  "\<exists>s'. exec_n (native_env False) True 2 (Some 0) (looper\<lparr>cpu := (cpu looper)\<lparr>resume_past_breakpoint := None\<rparr>\<rparr>)
     = Some (1, Some Breakpoint, None, s') \<and> pc (cpu s') = 0"
proof -
  let ?E = "native_env False :: unit native_host env"
  let ?s = "looper\<lparr>cpu := (cpu looper)\<lparr>resume_past_breakpoint := None\<rparr>\<rparr>"
  have ok: "machine_ok ?s" using looper_ok by simp
  have l: "load32 (ram (mem looper)) 0 = 0x0000006F"
    by (simp add: looper_def with_bytes_def ram_poke load32_def from_le_bytes4_def)
  have p: "pc (cpu ?s) = 0" by (simp add: looper_def cpu_new_def)
  have "execute_inst32 ?E 0x0000006F ?s = Some (Inr (), ?s)"
    by (simp add: execute_inst32_def dispatch32_def decode32_def shift_then_mask_def exec_rv32i_def Let_def exec_simps
        and_then_def ok_def set_pc_def j_imm_def looper_def cpu_new_def)
  moreover have "load16 (ram (mem looper)) 0 AND 3 = 3" using load32_low [of "ram (mem looper)" 0] by (simp add: l)
  ultimately have "fetch_execute ?E ?s = Some ((False, Inr ()), ?s)"
    using fetch_execute_ram(2) [OF machine_ok_wf [OF ok] p [symmetric], of ?E] by (simp add: l in_ram_low)
  moreover have "\<not> overflow_checks ?E" by (simp add: native_release)
  ultimately have "slice_iter ?E True (Some 0) ?s = Some (None, None, ?s\<lparr>cpu := (cpu ?s)\<lparr>step_counter := 1\<rparr>\<rparr>)"
    by (simp add: slice_iter_def Let_def count_step_def add_or_panic_def looper_def cpu_new_def)
  moreover have "slice_iter ?E True None (?s\<lparr>cpu := (cpu ?s)\<lparr>step_counter := 1\<rparr>\<rparr>)
      = Some (Some Breakpoint, None, ?s\<lparr>cpu := (cpu ?s)\<lparr>step_counter := 1, resume_past_breakpoint := Some 0\<rparr>\<rparr>)"
    by (simp add: slice_iter_def looper_def cpu_new_def)
  ultimately show ?thesis using p by (simp add: numeral_2_eq_2)
qed

lemma looper_temporary_stop:
  "\<exists>s'. temporary_stop (native_env False) (regs (cpu looper) 1) \<lparr>machine = looper, symbols = (\<lambda>_. None)\<rparr> 2 Breakpoint s'
     \<and> pc (cpu s') = 0"
proof -
  have ra: "regs (cpu looper) 1 = 0" by (simp add: looper_def cpu_new_def)
  have "looper\<lparr>cpu := (cpu looper)\<lparr>breakpoints := {0}, resume_past_breakpoint := None\<rparr>\<rparr>
      = looper\<lparr>cpu := (cpu looper)\<lparr>resume_past_breakpoint := None\<rparr>\<rparr>"
    by (simp add: looper_def)
  then have "\<exists>s'. exec_n (native_env False) True 2 (Some 0)
      (looper\<lparr>cpu := (cpu looper)\<lparr>breakpoints := {0}, resume_past_breakpoint := None\<rparr>\<rparr>)
      = Some (1, Some Breakpoint, None, s') \<and> pc (cpu s') = 0"
    using looper_stops by (simp only:)
  then show ?thesis by (auto simp: temporary_stop_def looper_settings ra [simplified])
qed

lemma looper_breakpoint:
  "\<exists>out s'. run_slice (native_env False) 5 looper = Some (out, s') \<and> so_status out = Breakpoint"
proof -
  let ?s = "looper\<lparr>cpu := (cpu looper)\<lparr>resume_past_breakpoint := None\<rparr>\<rparr>"
  obtain s' where "exec_n (native_env False) True 2 (Some 0) ?s = Some (1, Some Breakpoint, None, s')"
    using looper_stops by blast
  then have "exec_n (native_env False) True 5 (Some 0) ?s = Some (1, Some Breakpoint, None, s')"
    by (rule exec_n_stopped) simp
  then show ?thesis
    using native_quiet.run_slice_exec_n [of False 5 looper] by (simp add: final_status_def looper_settings)
qed

text \<open>A relocatable object: three bytes of code, and five of zeroed data that are aligned to eight.\<close>

definition sample_object :: elf where
  "sample_object = \<lparr>e_entry = 0, program_headers = [],
     section_headers = [
       \<lparr>sh_type = SHT_PROGBITS, sh_flags = 6, sh_addr = 0, sh_offset = 1, sh_size = 3, sh_addralign = 4\<rparr>,
       \<lparr>sh_type = SHT_NOBITS, sh_flags = 3, sh_addr = 0, sh_offset = 4, sh_size = 5, sh_addralign = 8\<rparr>],
     syms = [\<lparr>st_name = 1, st_value = 4, st_shndx = 1\<rparr>],
     strtab_get_at = (\<lambda>k. if k = 1 then Some ''main'' else None)\<rparr>"

lemma sample_occupies [simp]: "\<forall>h \<in> set (section_headers sample_object). occupies h"
  by (simp add: sample_object_def occupies_def SHT_PROGBITS_def SHT_NOBITS_def)

lemma sample_object_layout:
  "layout (section_headers sample_object) 0x10000 = [0x10000, 0x10008]"
  "layout_end (section_headers sample_object) 0x10000 = 0x1000D"
  using sample_occupies
  by (simp_all add: sample_object_def after_section_def round_up_def section_align_def)

lemma sample_object_ok: "\<forall>h \<in> set (section_headers sample_object). relocatable [0xAA, 0xBB, 0xCC, 0xDD] h"
proof -
  have "(\<exists>k < 32. (4::nat) = 2 ^ k)" by (intro exI [of _ 2]) simp
  moreover have "(\<exists>k < 32. (8::nat) = 2 ^ k)" by (intro exI [of _ 3]) simp
  ultimately show ?thesis
    by (simp add: sample_object_def relocatable_def aligned_shdr_def range_ok_def section_align_def)
qed

lemma sample_object_entry:
  "first_symbol (entry_symbol sample_object [0x10000, 0x10008]) (syms sample_object) \<lparr>st_name = 1, st_value = 4, st_shndx = 1\<rparr>"
  "relocated [0x10000, 0x10008] \<lparr>st_name = 1, st_value = 4, st_shndx = 1\<rparr> = 0x1000C"
  "symbol_at (sym_name sample_object) (relocated [0x10000, 0x10008]) (syms sample_object) 0x1000C ''main''"
  by (simp_all add: sample_object_def first_symbol_def entry_symbol_def symbol_at_def sym_name_def relocated_def)

text \<open>A host with an interrupt pending, and a guest that has interrupts enabled.\<close>

definition ringing :: "unit native_host env" where
  "ringing = (native_env False)\<lparr>js_interrupt_enabled := (\<lambda>h. (1, h)), js_external_interrupt := (\<lambda>h. (11, h))\<rparr>"

definition ringing_guest :: "unit native_host machine" where
  "ringing_guest = boot\<lparr>cpu := cpu_new\<lparr>pc := 0x100, csrs := (\<lambda>_. 0)(0x300 := 8, 0x305 := 0x80)\<rparr>\<rparr>"

lemma ringing_pending: "pending ringing ringing_guest 11"
  by (simp add: pending_def ringing_def ringing_guest_def interrupts_enabled_bit)

lemma ringing_slice: "\<exists>out s'. run_slice ringing 1 ringing_guest = Some (out, s')"
proof -
  have "stdin_host ringing"
    using native_stdin.stdin_host_axioms [of False] by (simp add: stdin_host_def ringing_def)
  moreover have "machine_ok ringing_guest" "\<not> overflow_checks ringing"
    using boot_ok by (simp_all add: ringing_guest_def ringing_def machine_ok_def cpu_new_def boot_def native_env_def)
  ultimately show ?thesis using stdin_host.run_slice_safe [of ringing ringing_guest 1] by (auto elim!: returnsE)
qed

text \<open>A guest about to make call \<open>n\<close>, on a host whose handler gives the answer \<open>r\<close>.\<close>

definition handled :: "u32 \<Rightarrow> u32 \<Rightarrow> unit native_host machine" where
  "handled n r = put_xreg (boot\<lparr>host := fresh_host\<lparr>mock_custom_syscall := Some (\<lambda>_ _ _ _ _ u. (r, u))\<rparr>,
     cpu := cpu_new\<lparr>has_custom_syscalls := True\<rparr>\<rparr>) 17 n"

lemma handled_call:
  "has_custom_syscalls (cpu (handled n r))"
  "custom_syscall (native_env False) a b c d e (host (handled n r)) = (r, host (handled n r))"
  by (simp_all add: handled_def put_xreg_def native_env_def native_custom_syscall_def)

end
