(* ===== verification/Disasm_Exec.thy ===== *)
theory Disasm_Exec
  imports Disasm Program
begin

text \<open>
  The disassembler and the executor agree: on which halfwords are reserved encodings, and on the length of
  an instruction.
\<close>

definition reads_reserved :: "string \<Rightarrow> bool" where
  "reads_reserved txt \<longleftrightarrow> take 10 txt = ''c.reserved''"

lemma reads_reserved_c [simp]: "reads_reserved (c_reserved c)"
  by (simp add: reads_reserved_def c_reserved_def)

lemma reads_other [simp]: "x \<noteq> CHR ''r'' \<Longrightarrow> \<not> reads_reserved (CHR ''c'' # CHR ''.'' # x # rest)"
  by (simp add: reads_reserved_def numeral_eq_Suc)

lemmas text_defs = asm2_def asm3_def asm_mem_def asm_sp_def

lemma rvc_q0_reserved:
  assumes "unat f3 < 8"
  shows "reads_reserved (rvc_q0 c f3) \<longleftrightarrow> expand_q0 c (ucast f3) = None"
  by (simp add: rvc_q0_def expand_q0_code Let_def small_cast assms text_defs)

lemma rvc_misc_alu_reserved: "reads_reserved (rvc_misc_alu c) \<longleftrightarrow> expand_misc_alu c = None"
  by (simp add: rvc_misc_alu_def rvc_alu_name_def expand_misc_alu_code Let_def text_defs)

lemma rvc_q1_reserved:
  assumes "unat f3 < 8"
  shows "reads_reserved (rvc_q1 a c f3) \<longleftrightarrow> expand_q1 c (ucast f3) = None"
  using rvc_misc_alu_reserved [of c]
  by (simp add: rvc_q1_def expand_q1_code Let_def small_cast assms text_defs)

lemma rvc_q2_reserved:
  assumes "unat f3 < 8"
  shows "reads_reserved (rvc_q2 c f3) \<longleftrightarrow> expand_q2 c (ucast f3) = None"
  by (simp add: rvc_q2_def expand_q2_code Let_def small_cast assms text_defs)

lemma decode_rvc_reserved: "reads_reserved (decode_rvc a c) \<longleftrightarrow> expand16 c = None"
proof -
  have f: "unat (shift_then_mask c 13 7) < 8" by (simp add: width_simps)
  have h: "h_funct3 (decode16 c) = ucast (shift_then_mask c 13 7)" by (simp add: decode16_def)
  show ?thesis
    by (simp add: decode_rvc_def expand16_code Let_def decode16_fields h rvc_q0_reserved [OF f]
        rvc_q1_reserved [OF f] rvc_q2_reserved [OF f])
qed

section \<open>What the executor accepts\<close>

text \<open>An encoding with an expansion executes without an error.\<close>

definition accepts :: "('e + 'a) \<times> 'h machine \<Rightarrow> bool" where
  "accepts = (\<lambda>(res, s'). \<not> isl res)"

lemma accepts_ok [simp]: "returns (ok a s) accepts"
  by (simp add: ok_def accepts_def)

lemma c_memory_accepts:
  assumes "machine_ok s" "r < 32" "b < 32"
  shows "returns (c_lw E r b off np s) accepts" "returns (c_flw E r b off np s) accepts"
    "returns (c_fld E r b off np s) accepts" "returns (c_sw E r b off np s) accepts"
    "returns (c_fsw E r b off np s) accepts" "returns (c_fsd E r b off np s) accepts"
  using assms
  by (auto simp: c_lw_def c_flw_def c_fld_def c_sw_def c_fsw_def c_fsd_def exec_simps exec_inv_refl Let_def
      intro!: mem_wp [where ?s0.0 = s])

lemma q0_accepts: "machine_ok s \<Longrightarrow> expand_q0 c f3 \<noteq> None \<Longrightarrow> returns (exec_q0 E c f3 np s) accepts"
  by (auto simp: exec_q0_def expand_q0_code Let_def exec_simps c_memory_accepts split: if_splits)

lemma q1_accepts: "expand_q1 c f3 \<noteq> None \<Longrightarrow> returns (exec_q1 c f3 np s) accepts"
  by (auto simp: exec_q1_def expand_q1_code expand_misc_alu_code c_addi_def c_lui_addi16sp_def c_misc_alu_def Let_def
      exec_simps split: if_splits)

lemma q2_accepts: "machine_ok s \<Longrightarrow> expand_q2 c f3 \<noteq> None \<Longrightarrow> returns (exec_q2 E c f3 np s) accepts"
  by (auto simp: exec_q2_def expand_q2_code c_slli_def c_jr_mv_add_def Let_def exec_simps c_memory_accepts
      split: if_splits)

lemma dispatch16_accepts: "machine_ok s \<Longrightarrow> expand16 c \<noteq> None \<Longrightarrow> returns (dispatch16 E c np s) accepts"
  by (auto simp: dispatch16_def expand16_code Let_def q0_accepts q1_accepts q2_accepts split: if_splits)

lemma execute_inst16_accepts:
  assumes "machine_ok s" "expand16 c \<noteq> None"
  shows "returns (execute_inst16 E c s) accepts"
  using dispatch16_accepts [OF assms, of E "pc (cpu s) + 2"]
  by (auto simp: execute_inst16_def and_then_def accepts_def set_pc_def ok_def elim!: returnsE split: sum.splits)

text \<open>And one without an expansion is rejected, with the machine unchanged.\<close>

lemma q0_rejects: "expand_q0 c f3 = None \<Longrightarrow> exec_q0 E c f3 np s = illegal16 c s"
  by (auto simp: exec_q0_def expand_q0_code Let_def split: if_splits)

lemma q1_rejects: "expand_q1 c f3 = None \<Longrightarrow> exec_q1 c f3 np s = illegal16 c s"
  by (auto simp: exec_q1_def expand_q1_code expand_misc_alu_code c_lui_addi16sp_def c_misc_alu_def Let_def split: if_splits)

lemma q2_rejects: "expand_q2 c f3 = None \<Longrightarrow> exec_q2 E c f3 np s = illegal16 c s"
  by (auto simp: exec_q2_def expand_q2_code c_slli_def c_jr_mv_add_def Let_def split: if_splits)

lemma execute_inst16_rejects:
  "expand16 c = None \<Longrightarrow> execute_inst16 E c s = Some (Inl (IllegalInstruction (pc (cpu s)) (ucast c)), s)"
  by (auto simp: execute_inst16_def dispatch16_def expand16_code Let_def q0_rejects q1_rejects q2_rejects illegal16_def
      err_def and_then_def split: if_splits)

lemma reserved_iff_rejected:
  assumes "machine_ok s"
  shows "reads_reserved (decode_rvc a c) \<longleftrightarrow>
    execute_inst16 E c s = Some (Inl (IllegalInstruction (pc (cpu s)) (ucast c)), s)"
  using execute_inst16_accepts [OF assms, of c E] execute_inst16_rejects [of c E s] decode_rvc_reserved [of a c]
  by (cases "expand16 c = None") (auto simp: accepts_def)

section \<open>Lengths\<close>

lemma listed_length:
  assumes "wf_memory (mem s)" "in_ram (pc (cpu s)) 4" "fetch_execute E s = Some ((compressed, res), s')"
  shows "compressed = di_is_compressed (decode_instruction_with_symbols (pc (cpu s))
    (load32 (ram (mem s)) (pc (cpu s))) names)"
proof -
  let ?w = "load32 (ram (mem s)) (pc (cpu s))"
  have r: "in_ram (pc (cpu s)) 2" using assms(2) by (simp add: in_ram_def)
  have "((ucast ?w :: u16) AND 3 = 3) = (?w AND 3 = 3)" by (rule low_bits_ucast)
  moreover have "compressed = ((ucast ?w :: u16) AND 3 \<noteq> 3)"
  proof (cases "(ucast ?w :: u16) AND 3 = 3")
    case True
    with fetch_execute_ram(2) [OF assms(1) refl assms(2), of E] show ?thesis
      using assms(3) by (auto simp: load32_low dest!: sym [of "Some _"])
  next
    case False
    with fetch_execute_ram(1) [OF assms(1) refl r, of E] show ?thesis
      using assms(3) by (auto simp: load32_low dest!: sym [of "Some _"])
  qed
  ultimately show ?thesis
    by (simp add: decode_instruction_with_symbols_def Let_def split: prod.split)
qed

end
