(* ===== verification/Assemble.thy ===== *)
theory Assemble
  imports Disasm_Exec
begin

text \<open>
  An assembler for the text that the disassembler prints, which gives that text a meaning independent of the
  disassembler: a mnemonic names a format, registers have their ABI names, immediates are decimal and targets
  are absolute addresses. The disassembler is correct when the text assembles to the instruction it was
  printed for; for a halfword that is the instruction the halfword abbreviates.
\<close>

section \<open>Operands\<close>

text \<open>The register names of the calling convention, by their roles.\<close>

definition abi_regs :: "(string \<times> nat) list" where
  "abi_regs =
     [(''zero'', 0), (''ra'', 1), (''sp'', 2), (''gp'', 3), (''tp'', 4), (''fp'', 8),
      (''a0'', 10), (''a1'', 11), (''a2'', 12), (''a3'', 13), (''a4'', 14), (''a5'', 15), (''a6'', 16), (''a7'', 17),
      (''t0'', 5), (''t1'', 6), (''t2'', 7), (''t3'', 28), (''t4'', 29), (''t5'', 30), (''t6'', 31),
      (''s0'', 8), (''s1'', 9), (''s2'', 18), (''s3'', 19), (''s4'', 20), (''s5'', 21), (''s6'', 22), (''s7'', 23),
      (''s8'', 24), (''s9'', 25), (''s10'', 26), (''s11'', 27)]"

definition abi_fregs :: "(string \<times> nat) list" where
  "abi_fregs =
     [(''fa0'', 10), (''fa1'', 11), (''fa2'', 12), (''fa3'', 13), (''fa4'', 14), (''fa5'', 15), (''fa6'', 16), (''fa7'', 17),
      (''ft0'', 0), (''ft1'', 1), (''ft2'', 2), (''ft3'', 3), (''ft4'', 4), (''ft5'', 5), (''ft6'', 6), (''ft7'', 7),
      (''ft8'', 28), (''ft9'', 29), (''ft10'', 30), (''ft11'', 31),
      (''fs0'', 8), (''fs1'', 9), (''fs2'', 18), (''fs3'', 19), (''fs4'', 20), (''fs5'', 21), (''fs6'', 22), (''fs7'', 23),
      (''fs8'', 24), (''fs9'', 25), (''fs10'', 26), (''fs11'', 27)]"

definition reg_of :: "string \<Rightarrow> nat option" where
  "reg_of s = map_of abi_regs s"

definition freg_of :: "string \<Rightarrow> nat option" where
  "freg_of s = map_of abi_fregs s"

definition imm_of :: "string \<Rightarrow> u32 option" where
  "imm_of s =
     (if take 1 s = ''-'' then map_option (\<lambda>n. - word_of_nat n) (from_str_radix (2 ^ 32) 10 (drop 1 s))
      else map_option word_of_nat (from_str_radix (2 ^ 32) 10 s))"

definition shamt_of :: "string \<Rightarrow> nat option" where
  "shamt_of s = from_str_radix 32 10 s"

text \<open>A target may be followed by the symbol at that address.\<close>

definition target_of :: "string \<Rightarrow> u32 option" where
  "target_of s =
     (if take 2 s = ''0x''
      then map_option word_of_nat (from_str_radix (2 ^ 32) 16 (takeWhile (\<lambda>c. c \<noteq> CHR '' '') (drop 2 s)))
      else None)"

definition cut :: "char \<Rightarrow> string \<Rightarrow> string \<times> string" where
  "cut c s = (takeWhile (\<lambda>x. x \<noteq> c) s, drop 1 (dropWhile (\<lambda>x. x \<noteq> c) s))"

definition mem_of :: "string \<Rightarrow> (u32 \<times> nat) option" where
  "mem_of s =
     (let (n, r) = cut (CHR ''('') s in do { off \<leftarrow> imm_of n; b \<leftarrow> reg_of (fst (cut (CHR '')'') r)); Some (off, b) })"

text \<open>The mnemonic and up to three operands.\<close>

definition scan :: "string \<Rightarrow> string \<times> string \<times> string \<times> string" where
  "scan s =
     (let (op, r1) = cut (CHR '' '') s; (a, r2) = cut (CHR '','') r1; (b, r3) = cut (CHR '','') (drop 1 r2)
      in (op, a, b, drop 1 r3))"

section \<open>Formats\<close>

type_synonym format = "string \<Rightarrow> string \<Rightarrow> string \<Rightarrow> u32 option"

definition fixed :: "u32 \<Rightarrow> format" where
  "fixed w a b c = Some w"

definition one_reg :: "(nat \<Rightarrow> u32) \<Rightarrow> format" where
  "one_reg mk a b c = do { x \<leftarrow> reg_of a; Some (mk x) }"

definition two_regs :: "(nat \<Rightarrow> nat \<Rightarrow> u32) \<Rightarrow> format" where
  "two_regs mk a b c = do { x \<leftarrow> reg_of a; y \<leftarrow> reg_of b; Some (mk x y) }"

definition three_regs :: "(nat \<Rightarrow> nat \<Rightarrow> nat \<Rightarrow> u32) \<Rightarrow> format" where
  "three_regs mk a b c = do { x \<leftarrow> reg_of a; y \<leftarrow> reg_of b; z \<leftarrow> reg_of c; Some (mk x y z) }"

definition reg_imm :: "(nat \<Rightarrow> u32 \<Rightarrow> u32) \<Rightarrow> format" where
  "reg_imm mk a b c = do { x \<leftarrow> reg_of a; n \<leftarrow> imm_of b; Some (mk x n) }"

definition regs_imm :: "(nat \<Rightarrow> nat \<Rightarrow> u32 \<Rightarrow> u32) \<Rightarrow> format" where
  "regs_imm mk a b c = do { x \<leftarrow> reg_of a; y \<leftarrow> reg_of b; n \<leftarrow> imm_of c; Some (mk x y n) }"

definition regs_shamt :: "(nat \<Rightarrow> nat \<Rightarrow> nat \<Rightarrow> u32) \<Rightarrow> format" where
  "regs_shamt mk a b c = do { x \<leftarrow> reg_of a; y \<leftarrow> reg_of b; n \<leftarrow> shamt_of c; Some (mk x y n) }"

definition reg_shamt :: "(nat \<Rightarrow> nat \<Rightarrow> u32) \<Rightarrow> format" where
  "reg_shamt mk a b c = do { x \<leftarrow> reg_of a; n \<leftarrow> shamt_of b; Some (mk x n) }"

definition reg_mem :: "(nat \<Rightarrow> nat \<Rightarrow> u32 \<Rightarrow> u32) \<Rightarrow> format" where
  "reg_mem mk a b c = do { x \<leftarrow> reg_of a; (n, y) \<leftarrow> mem_of b; Some (mk x y n) }"

definition freg_mem :: "(nat \<Rightarrow> nat \<Rightarrow> u32 \<Rightarrow> u32) \<Rightarrow> format" where
  "freg_mem mk a b c = do { x \<leftarrow> freg_of a; (n, y) \<leftarrow> mem_of b; Some (mk x y n) }"

definition csr_reg :: "(nat \<Rightarrow> nat \<Rightarrow> u32 \<Rightarrow> u32) \<Rightarrow> format" where
  "csr_reg mk a b c = do { x \<leftarrow> reg_of a; n \<leftarrow> target_of b; y \<leftarrow> reg_of c; Some (mk x y n) }"

definition csr_imm :: "(nat \<Rightarrow> nat \<Rightarrow> u32 \<Rightarrow> u32) \<Rightarrow> format" where
  "csr_imm mk a b c = do { x \<leftarrow> reg_of a; n \<leftarrow> target_of b; y \<leftarrow> shamt_of c; Some (mk x y n) }"

text \<open>Targets are absolute in the text and relative to the instruction at \<open>addr\<close> in the encoding.\<close>

definition jump :: "u32 \<Rightarrow> (u32 \<Rightarrow> u32) \<Rightarrow> format" where
  "jump addr mk a b c = do { t \<leftarrow> target_of a; Some (mk (t - addr)) }"

definition reg_jump :: "u32 \<Rightarrow> (nat \<Rightarrow> u32 \<Rightarrow> u32) \<Rightarrow> format" where
  "reg_jump addr mk a b c = do { x \<leftarrow> reg_of a; t \<leftarrow> target_of b; Some (mk x (t - addr)) }"

definition regs_jump :: "u32 \<Rightarrow> (nat \<Rightarrow> nat \<Rightarrow> u32 \<Rightarrow> u32) \<Rightarrow> format" where
  "regs_jump addr mk a b c = do { x \<leftarrow> reg_of a; y \<leftarrow> reg_of b; t \<leftarrow> target_of c; Some (mk x y (t - addr)) }"

lemmas format_defs = fixed_def one_reg_def two_regs_def three_regs_def reg_imm_def regs_imm_def regs_shamt_def
  reg_shamt_def reg_mem_def freg_mem_def csr_reg_def csr_imm_def jump_def reg_jump_def regs_jump_def

section \<open>Mnemonics\<close>

definition upper_mnemonics :: "u32 \<Rightarrow> (string \<times> format) list" where
  "upper_mnemonics addr =
     [(''lui'', reg_imm (\<lambda>rd n. asm (LUI rd (push_bit 12 n)))),
      (''auipc'', reg_imm (\<lambda>rd n. asm (AUIPC rd (push_bit 12 n)))),
      (''j'', jump addr (\<lambda>off. asm (JAL 0 off))),
      (''jal'', reg_jump addr (\<lambda>rd off. asm (JAL rd off))),
      (''ret'', fixed (asm (JALR 0 1 0))),
      (''jr'', one_reg (\<lambda>rs1. asm (JALR 0 rs1 0))),
      (''jalr'', reg_mem (\<lambda>rd rs1 n. asm (JALR rd rs1 n)))]"

definition branch_mnemonics :: "u32 \<Rightarrow> (string \<times> format) list" where
  "branch_mnemonics addr =
     [(''beq'', regs_jump addr (\<lambda>rs1 rs2 off. asm (Branch BEQ rs1 rs2 off))),
      (''bne'', regs_jump addr (\<lambda>rs1 rs2 off. asm (Branch BNE rs1 rs2 off))),
      (''blt'', regs_jump addr (\<lambda>rs1 rs2 off. asm (Branch BLT rs1 rs2 off))),
      (''bge'', regs_jump addr (\<lambda>rs1 rs2 off. asm (Branch BGE rs1 rs2 off))),
      (''bltu'', regs_jump addr (\<lambda>rs1 rs2 off. asm (Branch BLTU rs1 rs2 off))),
      (''bgeu'', regs_jump addr (\<lambda>rs1 rs2 off. asm (Branch BGEU rs1 rs2 off))),
      (''beqz'', reg_jump addr (\<lambda>rs1 off. asm (Branch BEQ rs1 0 off))),
      (''bnez'', reg_jump addr (\<lambda>rs1 off. asm (Branch BNE rs1 0 off))),
      (''bltz'', reg_jump addr (\<lambda>rs1 off. asm (Branch BLT rs1 0 off))),
      (''bgez'', reg_jump addr (\<lambda>rs1 off. asm (Branch BGE rs1 0 off)))]"

definition mem_mnemonics :: "(string \<times> format) list" where
  "mem_mnemonics =
     [(''lb'', reg_mem (\<lambda>rd rs1 n. asm (Load LB rd rs1 n))), (''lh'', reg_mem (\<lambda>rd rs1 n. asm (Load LH rd rs1 n))),
      (''lw'', reg_mem (\<lambda>rd rs1 n. asm (Load LW rd rs1 n))), (''lbu'', reg_mem (\<lambda>rd rs1 n. asm (Load LBU rd rs1 n))),
      (''lhu'', reg_mem (\<lambda>rd rs1 n. asm (Load LHU rd rs1 n))),
      (''sb'', reg_mem (\<lambda>rs2 rs1 n. asm (Store SB rs1 rs2 n))), (''sh'', reg_mem (\<lambda>rs2 rs1 n. asm (Store SH rs1 rs2 n))),
      (''sw'', reg_mem (\<lambda>rs2 rs1 n. asm (Store SW rs1 rs2 n))),
      (''flw'', freg_mem (\<lambda>rd rs1 n. encode_i 0x07 rd 2 rs1 n)), (''fsw'', freg_mem (\<lambda>rs2 rs1 n. encode_s 0x27 2 rs1 rs2 n)),
      (''fld'', freg_mem (\<lambda>rd rs1 n. encode_i 0x07 rd 3 rs1 n)), (''fsd'', freg_mem (\<lambda>rs2 rs1 n. encode_s 0x27 3 rs1 rs2 n))]"

definition imm_mnemonics :: "(string \<times> format) list" where
  "imm_mnemonics =
     [(''nop'', fixed 0x00000013), (''li'', reg_imm (\<lambda>rd n. asm (OpImm ADDI rd 0 n))),
      (''mv'', two_regs (\<lambda>rd rs1. asm (OpImm ADDI rd rs1 0))), (''addi'', regs_imm (\<lambda>rd rs1 n. asm (OpImm ADDI rd rs1 n))),
      (''slti'', regs_imm (\<lambda>rd rs1 n. asm (OpImm SLTI rd rs1 n))),
      (''sltiu'', regs_imm (\<lambda>rd rs1 n. asm (OpImm SLTIU rd rs1 n))),
      (''xori'', regs_imm (\<lambda>rd rs1 n. asm (OpImm XORI rd rs1 n))), (''ori'', regs_imm (\<lambda>rd rs1 n. asm (OpImm ORI rd rs1 n))),
      (''andi'', regs_imm (\<lambda>rd rs1 n. asm (OpImm ANDI rd rs1 n))),
      (''slli'', regs_shamt (\<lambda>rd rs1 n. asm (Shift SLLI rd rs1 n))),
      (''srli'', regs_shamt (\<lambda>rd rs1 n. asm (Shift SRLI rd rs1 n))),
      (''srai'', regs_shamt (\<lambda>rd rs1 n. asm (Shift SRAI rd rs1 n)))]"

definition op_mnemonics :: "(string \<times> format) list" where
  "op_mnemonics =
     [(''add'', three_regs (\<lambda>x y z. asm (Op ADD x y z))), (''sub'', three_regs (\<lambda>x y z. asm (Op SUB x y z))),
      (''sll'', three_regs (\<lambda>x y z. asm (Op SLL x y z))), (''slt'', three_regs (\<lambda>x y z. asm (Op SLT x y z))),
      (''sltu'', three_regs (\<lambda>x y z. asm (Op SLTU x y z))), (''xor'', three_regs (\<lambda>x y z. asm (Op RXOR x y z))),
      (''srl'', three_regs (\<lambda>x y z. asm (Op SRL x y z))), (''sra'', three_regs (\<lambda>x y z. asm (Op SRA x y z))),
      (''or'', three_regs (\<lambda>x y z. asm (Op ROR x y z))), (''and'', three_regs (\<lambda>x y z. asm (Op RAND x y z))),
      (''mul'', three_regs (\<lambda>x y z. asm (MulDiv MUL x y z))), (''mulh'', three_regs (\<lambda>x y z. asm (MulDiv MULH x y z))),
      (''mulhsu'', three_regs (\<lambda>x y z. asm (MulDiv MULHSU x y z))), (''mulhu'', three_regs (\<lambda>x y z. asm (MulDiv MULHU x y z))),
      (''div'', three_regs (\<lambda>x y z. asm (MulDiv DIV x y z))), (''divu'', three_regs (\<lambda>x y z. asm (MulDiv DIVU x y z))),
      (''rem'', three_regs (\<lambda>x y z. asm (MulDiv REM x y z))), (''remu'', three_regs (\<lambda>x y z. asm (MulDiv REMU x y z)))]"

text \<open>The immediate forms of the CSR instructions take a number below 32, in decimal.\<close>

definition system_mnemonics :: "(string \<times> format) list" where
  "system_mnemonics =
     [(''ecall'', fixed 0x00000073), (''ebreak'', fixed 0x00100073), (''mret'', fixed 0x30200073),
      (''csrrw'', csr_reg (\<lambda>rd rs1 n. encode_i 0x73 rd 1 rs1 n)), (''csrrs'', csr_reg (\<lambda>rd rs1 n. encode_i 0x73 rd 2 rs1 n)),
      (''csrrc'', csr_reg (\<lambda>rd rs1 n. encode_i 0x73 rd 3 rs1 n)), (''csrrwi'', csr_imm (\<lambda>rd rs1 n. encode_i 0x73 rd 5 rs1 n)),
      (''csrrsi'', csr_imm (\<lambda>rd rs1 n. encode_i 0x73 rd 6 rs1 n)), (''csrrci'', csr_imm (\<lambda>rd rs1 n. encode_i 0x73 rd 7 rs1 n))]"

text \<open>The compressed mnemonics, with the 32-bit instructions they abbreviate.\<close>

definition compressed_mnemonics :: "u32 \<Rightarrow> (string \<times> format) list" where
  "compressed_mnemonics addr =
     [(''c.addi4spn'', regs_imm addi), (''c.addi'', reg_imm (\<lambda>rd n. addi rd rd n)), (''c.nop'', fixed 0x00000013),
      (''c.li'', reg_imm (\<lambda>rd n. addi rd 0 n)), (''c.addi16sp'', reg_imm (\<lambda>rd n. addi rd rd n)),
      (''c.lui'', reg_imm (\<lambda>rd n. asm (LUI rd (push_bit 12 n)))),
      (''c.srli'', reg_shamt (\<lambda>r n. asm (Shift SRLI r r n))), (''c.srai'', reg_shamt (\<lambda>r n. asm (Shift SRAI r r n))),
      (''c.slli'', reg_shamt (\<lambda>r n. asm (Shift SLLI r r n))), (''c.andi'', reg_imm (\<lambda>r n. asm (OpImm ANDI r r n))),
      (''c.sub'', two_regs (\<lambda>r x. asm (Op SUB r r x))), (''c.xor'', two_regs (\<lambda>r x. asm (Op RXOR r r x))),
      (''c.or'', two_regs (\<lambda>r x. asm (Op ROR r r x))), (''c.and'', two_regs (\<lambda>r x. asm (Op RAND r r x))),
      (''c.mv'', two_regs (\<lambda>r x. asm (Op ADD r 0 x))), (''c.add'', two_regs (\<lambda>r x. asm (Op ADD r r x))),
      (''c.jal'', jump addr (\<lambda>off. asm (JAL 1 off))), (''c.j'', jump addr (\<lambda>off. asm (JAL 0 off))),
      (''c.beqz'', reg_jump addr (\<lambda>r off. asm (Branch BEQ r 0 off))), (''c.bnez'', reg_jump addr (\<lambda>r off. asm (Branch BNE r 0 off))),
      (''c.jr'', one_reg (\<lambda>r. asm (JALR 0 r 0))), (''c.jalr'', one_reg (\<lambda>r. asm (JALR 1 r 0))), (''c.ebreak'', fixed 0x00100073),
      (''c.lw'', reg_mem (\<lambda>r b n. asm (Load LW r b n))), (''c.lwsp'', reg_mem (\<lambda>r b n. asm (Load LW r b n))),
      (''c.sw'', reg_mem (\<lambda>r b n. asm (Store SW b r n))), (''c.swsp'', reg_mem (\<lambda>r b n. asm (Store SW b r n))),
      (''c.flw'', freg_mem (\<lambda>r b n. encode_i 0x07 r 2 b n)), (''c.flwsp'', freg_mem (\<lambda>r b n. encode_i 0x07 r 2 b n)),
      (''c.fld'', freg_mem (\<lambda>r b n. encode_i 0x07 r 3 b n)), (''c.fldsp'', freg_mem (\<lambda>r b n. encode_i 0x07 r 3 b n)),
      (''c.fsw'', freg_mem (\<lambda>r b n. encode_s 0x27 2 b r n)), (''c.fswsp'', freg_mem (\<lambda>r b n. encode_s 0x27 2 b r n)),
      (''c.fsd'', freg_mem (\<lambda>r b n. encode_s 0x27 3 b r n)), (''c.fsdsp'', freg_mem (\<lambda>r b n. encode_s 0x27 3 b r n))]"

definition mnemonics :: "u32 \<Rightarrow> (string \<times> format) list" where
  "mnemonics addr = upper_mnemonics addr @ branch_mnemonics addr @ mem_mnemonics @ imm_mnemonics @ op_mnemonics
     @ system_mnemonics @ compressed_mnemonics addr"

fun lookup :: "(string \<times> format) list \<Rightarrow> string \<Rightarrow> format option" where
  "lookup [] op = None"
| "lookup ((key, f) # xs) op = (if key = op then Some f else lookup xs op)"

definition assemble :: "u32 \<Rightarrow> string \<Rightarrow> u32 option" where
  "assemble addr s = (let (op, a, b, c) = scan s in do { f \<leftarrow> lookup (mnemonics addr) op; f a b c })"

section \<open>Printed operands are read back\<close>

lemma abi_names:
  "length reg_names = 32" "map reg_of reg_names = map Some [0..<32]"
  "length freg_names = 32" "map freg_of freg_names = map Some [0..<32]"
  by (simp_all add: reg_names_def freg_names_def reg_of_def freg_of_def abi_regs_def abi_fregs_def upt_rec [of _ "numeral _"])

lemma reg_of_nth: "r < 32 \<Longrightarrow> reg_of (reg_names ! r) = Some r"
  using arg_cong [OF abi_names(2), of "\<lambda>xs. xs ! r"] by (simp add: abi_names(1))

lemma freg_of_nth: "r < 32 \<Longrightarrow> freg_of (freg_names ! r) = Some r"
  using arg_cong [OF abi_names(4), of "\<lambda>xs. xs ! r"] by (simp add: abi_names(3))

lemma reg_index: "r < 32 \<Longrightarrow> unat (word_of_nat r AND 0x1F :: u32) = r"
  using take_bit_nat_eq_self [of r 5] unat_reg [of r]
  by (simp add: unsigned_and_eq take_bit_eq_mask mask_numeral)

text \<open>A register name is no number.\<close>

lemma shamt_of_name: "r < 32 \<Longrightarrow> shamt_of (reg_name (word_of_nat r)) = None"
proof -
  assume r: "r < 32"
  have "list_all (\<lambda>s. shamt_of s = None) reg_names"
    by (simp add: reg_names_def shamt_of_def from_str_radix_def digit_val_def)
  with r show ?thesis by (simp add: list_all_length abi_names(1) reg_name_def reg_index)
qed

lemma reg_of_name [simp]: "r < 32 \<Longrightarrow> reg_of (reg_name (word_of_nat r)) = Some r"
  by (simp add: reg_name_def reg_index reg_of_nth)

lemma freg_of_name [simp]: "r < 32 \<Longrightarrow> freg_of (freg_name (word_of_nat r)) = Some r"
  by (simp add: freg_name_def reg_index freg_of_nth)

lemma reg_of_zero [simp]: "reg_of (reg_name 0) = Some 0"
  using reg_of_name [of 0] by simp

lemma reg_of_sp [simp]: "reg_of ''sp'' = Some 2"
  using reg_of_nth [of 2] by (simp add: reg_names_def)

lemma fmt_dec_read: "n < bound \<Longrightarrow> from_str_radix bound 10 (fmt_dec n) = Some n"
  unfolding fmt_dec_def by (rule from_str_radix_fmt) simp_all

text \<open>Text without the characters that separate operands.\<close>

definition clean :: "string \<Rightarrow> bool" where
  "clean s = list_all (\<lambda>c. c \<noteq> CHR '' '' \<and> c \<noteq> CHR '','' \<and> c \<noteq> CHR ''('' \<and> c \<noteq> CHR '')'') s"

lemma clean_simps [simp]:
  "clean []" "clean (xs @ ys) \<longleftrightarrow> clean xs \<and> clean ys"
  "clean (c # s) \<longleftrightarrow> c \<noteq> CHR '' '' \<and> c \<noteq> CHR '','' \<and> c \<noteq> CHR ''('' \<and> c \<noteq> CHR '')'' \<and> clean s"
  by (auto simp: clean_def)

lemma clean_reg [simp]: "clean (reg_name r)" "clean (freg_name r)"
proof -
  have r: "unat (r AND 0x1F) < 32" by (simp add: unat_and_less)
  have "list_all clean reg_names" "list_all clean freg_names"
    by (simp_all add: reg_names_def freg_names_def)
  then show "clean (reg_name r)" "clean (freg_name r)"
    using r by (simp_all add: reg_name_def freg_name_def list_all_length reg_names_def freg_names_def)
qed

lemma clean_digit: "d < 36 \<Longrightarrow> clean [digit_char d]"
proof -
  assume "d < 36"
  then have "of_char (digit_char d) \<notin> {32, 40, 41, 44 :: nat}"
    by (simp add: digit_char_def)
  then show ?thesis by auto
qed

lemma clean_fmt [simp]: "clean (fmt_dec n)" "clean (fmt_hex n)" "clean (fmt_int i)" "clean (fmt_offset w)"
proof -
  have r: "clean (fmt_radix b n)" if "2 \<le> b" "b \<le> 36" for b n
    using radix_digits_less [OF that(1)] clean_digit that(2)
    by (fastforce simp: fmt_radix_def clean_def list_all_iff)
  then show d: "clean (fmt_dec n)" "clean (fmt_hex n)" for n
    by (simp_all add: fmt_dec_def fmt_hex_def)
  show "clean (fmt_int i)" "clean (fmt_offset w)"
    by (simp_all add: fmt_int_def fmt_offset_def d)
qed

lemma fmt_dec_Cons: obtains c cs where "fmt_dec n = c # cs" "c \<noteq> CHR ''-''"
proof -
  obtain d ds where ds: "radix_digits 10 n = d # ds" using radix_digits_nonempty by (meson list.exhaust)
  then have "d < 10" using radix_digits_less [of 10 d n] by simp
  then show thesis using that digit_char_not_sign [of d] ds by (auto simp: fmt_dec_def fmt_radix_def)
qed

lemma imm_of_dec: "n < 2 ^ 32 \<Longrightarrow> imm_of (fmt_dec n) = Some (word_of_nat n)"
proof -
  assume n: "n < 2 ^ 32"
  obtain c cs where "fmt_dec n = c # cs" "c \<noteq> CHR ''-''" by (rule fmt_dec_Cons)
  with fmt_dec_read [OF n] show ?thesis by (simp add: imm_of_def)
qed

lemma unat_below: "unat (w :: u32) < 2 ^ 32"
  by (rule order.strict_trans2 [OF unsigned_less]) simp

lemma imm_of_unat [simp]: "imm_of (fmt_dec (unat (w :: u32))) = Some w" "imm_of (fmt_offset w) = Some w"
  using imm_of_dec [of "unat w"] unat_below [of w] by (simp_all add: fmt_offset_def)

lemma imm_of_int:
  assumes "- (2 ^ 31) \<le> i" "i < 2 ^ 31"
  shows "imm_of (fmt_int i) = Some (word_of_int i)"
proof (cases "i < 0")
  case True
  then have "from_str_radix (2 ^ 32) 10 (fmt_dec (nat (- i))) = Some (nat (- i))"
    using assms by (intro fmt_dec_read) (simp add: nat_less_iff)
  with True show ?thesis by (simp add: imm_of_def fmt_int_def)
next
  case False
  then show ?thesis using assms imm_of_dec [of "nat i"] by (simp add: fmt_int_def nat_less_iff)
qed

lemma imm_of_sint [simp]: "imm_of (fmt_int (sint (w :: u32))) = Some w"
  using imm_of_int [of "sint w"] sint_ge [of w] sint_lt [of w] by simp

lemma scast_int: "(word_of_int (sint (w :: 16 word)) :: u32) = scast w"
  by (simp add: signed_of_int)

lemma imm_of_sint16 [simp]: "imm_of (fmt_int (sint (w :: 16 word))) = Some (scast w)"
  using imm_of_int [of "sint w"] sint_ge [of w] sint_lt [of w] by (simp add: scast_int)

lemma shamt_of_dec [simp]: "n < 32 \<Longrightarrow> shamt_of (fmt_dec n) = Some n"
  by (simp add: shamt_of_def fmt_dec_read)

lemma clean_sep:
  "clean a \<Longrightarrow> CHR '' '' \<notin> set a" "clean a \<Longrightarrow> CHR '','' \<notin> set a"
  "clean a \<Longrightarrow> CHR ''('' \<notin> set a" "clean a \<Longrightarrow> CHR '')'' \<notin> set a"
  by (auto simp: clean_def list_all_iff)

lemma takeWhile_all: "c \<notin> set a \<Longrightarrow> takeWhile (\<lambda>x. x \<noteq> c) a = a"
  by (auto simp: takeWhile_eq_all_conv)

lemma takeWhile_at: "c \<notin> set a \<Longrightarrow> takeWhile (\<lambda>x. x \<noteq> c) (a @ rest) = a @ takeWhile (\<lambda>x. x \<noteq> c) rest"
  by (rule takeWhile_append2) auto

lemma hex_read: "from_str_radix (2 ^ 32) 16 (fmt_hex (unat (w :: u32))) = Some (unat w)"
  unfolding fmt_hex_def using unat_below [of w] by (intro from_str_radix_fmt) simp_all

lemma target_of_hex:
  assumes "rest = [] \<or> hd rest = CHR '' ''"
  shows "target_of (''0x'' @ fmt_hex (unat (w :: u32)) @ rest) = Some w"
proof -
  have "takeWhile (\<lambda>c. c \<noteq> CHR '' '') (fmt_hex (unat w) @ rest) = fmt_hex (unat w)"
    using assms by (cases rest) (simp_all add: takeWhile_at takeWhile_all clean_sep)
  then show ?thesis using hex_read [of w] by (simp add: target_of_def)
qed

lemma target_of_plain [simp]: "target_of (CHR ''0'' # CHR ''x'' # fmt_hex (unat w)) = Some w"
  using target_of_hex [of "[]" w] by simp

text \<open>A symbol name may contain any characters, those that separate operands too.\<close>

lemma target_of_format [simp]:
  "target_of (format_target w names) = Some w"
  "target_of (takeWhile (\<lambda>c. c \<noteq> CHR '','') (format_target w names)) = Some w"
  using target_of_hex [of "[]" w] target_of_hex [of "CHR '' '' # rest" w for rest]
  by (auto simp: format_target_def takeWhile_at takeWhile_all clean_sep split: option.split)

section \<open>Scanning\<close>

lemma cut_at: "c \<notin> set a \<Longrightarrow> cut c (a @ c # r) = (a, r)"
  by (simp add: cut_def takeWhile_append dropWhile_append)

lemma cut_all: "c \<notin> set a \<Longrightarrow> cut c a = (a, [])"
proof -
  assume c: "c \<notin> set a"
  then have "dropWhile (\<lambda>x. x \<noteq> c) a = []" by (auto simp: dropWhile_eq_Nil_conv)
  with takeWhile_all [OF c] show ?thesis by (simp only: cut_def drop_Nil)
qed

lemmas scan_simps = scan_def cut_at cut_all clean_sep

lemma scan_0: "clean op \<Longrightarrow> scan op = (op, [], [], [])"
  by (simp add: scan_simps)

lemma scan_1: "clean op \<Longrightarrow> scan (op @ CHR '' '' # a) =
  (op, fst (cut (CHR '','') a), fst (cut (CHR '','') (drop 1 (snd (cut (CHR '','') a)))),
   drop 1 (snd (cut (CHR '','') (drop 1 (snd (cut (CHR '','') a))))))"
  by (simp add: scan_simps split: prod.split)

lemma scan_2: "clean op \<Longrightarrow> clean a \<Longrightarrow>
  scan (asm2 op a b) = (op, a, fst (cut (CHR '','') b), drop 1 (snd (cut (CHR '','') b)))"
  by (simp add: asm2_def scan_simps split: prod.split)

lemma scan_3: "clean op \<Longrightarrow> clean a \<Longrightarrow> clean b \<Longrightarrow> scan (asm3 op a b c) = (op, a, b, c)"
  by (simp add: asm3_def scan_simps)

text \<open>What is assembled from each shape of text, with \<open>x\<close> and \<open>y\<close> for operands that the format ignores.\<close>

lemma assemble_0: "clean op \<Longrightarrow> assemble addr op = do { f \<leftarrow> lookup (mnemonics addr) op; f [] [] [] }"
  by (simp add: assemble_def scan_0)

lemma assemble_1: "clean op \<Longrightarrow> lookup (mnemonics addr) op = Some f \<Longrightarrow>
  \<exists>x y. assemble addr (op @ CHR '' '' # a) = f (fst (cut (CHR '','') a)) x y"
  by (auto simp: assemble_def scan_1)

lemma assemble_2: "clean op \<Longrightarrow> clean a \<Longrightarrow> assemble addr (asm2 op a b) =
  do { f \<leftarrow> lookup (mnemonics addr) op; f a (fst (cut (CHR '','') b)) (drop 1 (snd (cut (CHR '','') b))) }"
  by (simp add: assemble_def scan_2)

lemma assemble_3: "clean op \<Longrightarrow> clean a \<Longrightarrow> clean b \<Longrightarrow>
  assemble addr (asm3 op a b c) = do { f \<leftarrow> lookup (mnemonics addr) op; f a b c }"
  by (simp add: assemble_def scan_3)

lemma cut_clean: "clean a \<Longrightarrow> cut (CHR '','') a = (a, [])"
  by (simp add: cut_all clean_sep)

lemma target_of_cut [simp]: "target_of (fst (cut (CHR '','') (format_target w names))) = Some w"
  by (simp add: cut_def)

lemma assemble_mem: "clean op \<Longrightarrow> clean a \<Longrightarrow> clean n \<Longrightarrow> clean b \<Longrightarrow> assemble addr (asm_mem op a n b) =
  do { f \<leftarrow> lookup (mnemonics addr) op; f a (n @ CHR ''('' # b @ [CHR '')'']) [] }"
proof -
  assume c: "clean op" "clean a" "clean n" "clean b"
  have "asm_mem op a n b = asm2 op a (n @ CHR ''('' # b @ [CHR '')''])" by (simp add: asm_mem_def asm2_def)
  with c show ?thesis by (simp add: assemble_2 cut_all clean_sep)
qed

lemma mem_of_printed:
  "clean n \<Longrightarrow> clean b \<Longrightarrow> mem_of (n @ CHR ''('' # b @ [CHR '')'']) = do { off \<leftarrow> imm_of n; r \<leftarrow> reg_of b; Some (off, r) }"
  by (simp add: mem_of_def cut_at clean_sep)

lemma mem_of_sp: "mem_of (fmt_offset off @ ''(sp)'') = Some (off, 2)"
  using mem_of_printed [of "fmt_offset off" "''sp''"] by simp

lemma asm_sp_mem: "asm_sp op a off = asm_mem op a (fmt_offset off) ''sp''"
  by (simp add: asm_sp_def asm_mem_def)

lemma lookup_append: "lookup (xs @ ys) op = (case lookup xs op of Some f \<Rightarrow> Some f | None \<Rightarrow> lookup ys op)"
  by (induction xs op rule: lookup.induct) simp_all

text \<open>The congruence rule keeps the simplifier out of the formats of the other mnemonics.\<close>

lemma lookup_cong [cong]: "op = op' \<Longrightarrow> lookup xs op = lookup xs op'"
  by simp

lemmas table_defs = lookup_append
  arg_cong [OF mnemonics_def, where f = "\<lambda>t. lookup t op" for op]
  arg_cong [OF upper_mnemonics_def, where f = "\<lambda>t. lookup t op" for op]
  arg_cong [OF branch_mnemonics_def, where f = "\<lambda>t. lookup t op" for op]
  arg_cong [OF mem_mnemonics_def, where f = "\<lambda>t. lookup t op" for op]
  arg_cong [OF imm_mnemonics_def, where f = "\<lambda>t. lookup t op" for op]
  arg_cong [OF op_mnemonics_def, where f = "\<lambda>t. lookup t op" for op]
  arg_cong [OF system_mnemonics_def, where f = "\<lambda>t. lookup t op" for op]
  arg_cong [OF compressed_mnemonics_def, where f = "\<lambda>t. lookup t op" for op]

lemma assemble_plain:
  "assemble addr ''nop'' = Some 0x00000013" "assemble addr ''ret'' = Some (asm (JALR 0 1 0))"
  "assemble addr ''ecall'' = Some 0x00000073" "assemble addr ''ebreak'' = Some 0x00100073"
  "assemble addr ''mret'' = Some 0x30200073" "assemble addr ''c.nop'' = Some 0x00000013"
  "assemble addr ''c.ebreak'' = Some 0x00100073"
  by (simp_all add: assemble_0 table_defs fixed_def)

lemma assemble_jump:
  "assemble addr (CHR ''j'' # CHR '' '' # format_target w names) = Some (asm (JAL 0 (w - addr)))"
  using assemble_1 [of "''j''" addr "jump addr (\<lambda>off. asm (JAL 0 off))" "format_target w names"]
  by (auto simp: table_defs jump_def)

lemma assemble_jr: "r < 32 \<Longrightarrow>
  assemble addr (CHR ''j'' # CHR ''r'' # CHR '' '' # reg_name (word_of_nat r)) = Some (asm (JALR 0 r 0))"
  using assemble_1 [of "''jr''" addr "one_reg (\<lambda>rs1. asm (JALR 0 rs1 0))" "reg_name (word_of_nat r)"]
  by (auto simp: table_defs one_reg_def cut_clean)

lemmas assemble_simps = assemble_plain assemble_jump assemble_jr assemble_2 assemble_3 assemble_mem asm_sp_mem
  cut_clean mem_of_printed mem_of_sp table_defs format_defs

section \<open>Words\<close>

lemma upper_imm: "push_bit 12 (signed_drop_bit 12 imm) = imm AND (0xFFFFF000 :: u32)"
  by (rule word32_eqI) (simp_all add: bit_simps)

lemma reg_eq_0: "r < 32 \<Longrightarrow> (word_of_nat r :: u32) = 0 \<longleftrightarrow> r = 0" "r < 32 \<Longrightarrow> (word_of_nat r :: u32) = 1 \<longleftrightarrow> r = 1"
  using unat_reg [of r] by (auto simp: word_unat_eq_iff)

lemmas disasm_simps = decode_rv32_def Let_def decode_encode

lemma assemble_upper:
  "wf_instr (LUI rd imm) \<Longrightarrow> assemble addr (decode_rv32 addr (asm (LUI rd imm)) names) = Some (asm (LUI rd imm))"
  "wf_instr (AUIPC rd imm) \<Longrightarrow> assemble addr (decode_rv32 addr (asm (AUIPC rd imm)) names) = Some (asm (AUIPC rd imm))"
  by (simp_all add: disasm_simps assemble_simps upper_imm)

lemma assemble_jal:
  "wf_instr (JAL rd off) \<Longrightarrow> assemble addr (decode_rv32 addr (asm (JAL rd off)) names) = Some (asm (JAL rd off))"
  by (simp add: disasm_simps assemble_simps reg_eq_0)

lemma assemble_jalr:
  "wf_instr (JALR rd rs1 imm) \<Longrightarrow> assemble addr (decode_rv32 addr (asm (JALR rd rs1 imm)) names) = Some (asm (JALR rd rs1 imm))"
  by (simp add: disasm_simps assemble_simps reg_eq_0)

lemma assemble_branch: "wf_instr (Branch op rs1 rs2 off) \<Longrightarrow>
  assemble addr (decode_rv32 addr (asm (Branch op rs1 rs2 off)) names) = Some (asm (Branch op rs1 rs2 off))"
  by (cases op; cases "rs2 = 0") (simp_all add: disasm_simps disasm_branch_def branch_name_def assemble_simps)

lemma assemble_load: "wf_instr (Load op rd rs1 imm) \<Longrightarrow>
  assemble addr (decode_rv32 addr (asm (Load op rd rs1 imm)) names) = Some (asm (Load op rd rs1 imm))"
  by (cases op) (simp_all add: disasm_simps load_name_def assemble_simps)

lemma assemble_store: "wf_instr (Store op rs1 rs2 imm) \<Longrightarrow>
  assemble addr (decode_rv32 addr (asm (Store op rs1 rs2 imm)) names) = Some (asm (Store op rs1 rs2 imm))"
  by (cases op) (simp_all add: disasm_simps store_name_def assemble_simps)

lemma assemble_op_imm: "wf_instr (OpImm op rd rs1 imm) \<Longrightarrow>
  assemble addr (decode_rv32 addr (asm (OpImm op rd rs1 imm)) names) = Some (asm (OpImm op rd rs1 imm))"
  by (cases op) (simp_all add: disasm_simps disasm_op_imm_def assemble_simps)

lemma assemble_shift: "wf_instr (Shift op rd rs1 n) \<Longrightarrow>
  assemble addr (decode_rv32 addr (asm (Shift op rd rs1 n)) names) = Some (asm (Shift op rd rs1 n))"
  by (cases op) (simp_all add: disasm_simps disasm_op_imm_def assemble_simps)

lemma assemble_op: "wf_instr (Op op rd rs1 rs2) \<Longrightarrow>
  assemble addr (decode_rv32 addr (asm (Op op rd rs1 rs2)) names) = Some (asm (Op op rd rs1 rs2))"
  by (cases op) (simp_all add: disasm_simps op_name_def assemble_simps)

lemma assemble_mul: "wf_instr (MulDiv op rd rs1 rs2) \<Longrightarrow>
  assemble addr (decode_rv32 addr (asm (MulDiv op rd rs1 rs2)) names) = Some (asm (MulDiv op rd rs1 rs2))"
  by (cases op) (simp_all add: disasm_simps op_name_def assemble_simps)

text \<open>
  The instructions whose text the disassembler gets right: those of RV32IM but \<open>fence\<close>, the accesses to control registers
  with a register operand, the single-precision loads and stores and the three system instructions.
\<close>

datatype listed =
    Plain instr
  | Csr u32 nat nat u32
  | FLW nat nat i32
  | FSW nat nat i32
  | ECALL
  | EBREAK
  | MRET

fun code_of :: "listed \<Rightarrow> u32" where
  "code_of (Plain i) = asm i"
| "code_of (Csr funct3 rd rs1 n) = encode_i 0x73 rd funct3 rs1 n"
| "code_of (FLW rd rs1 imm) = encode_i 0x07 rd 2 rs1 imm"
| "code_of (FSW rs1 rs2 imm) = encode_s 0x27 2 rs1 rs2 imm"
| "code_of ECALL = 0x00000073"
| "code_of EBREAK = 0x00100073"
| "code_of MRET = 0x30200073"

fun wf_listed :: "listed \<Rightarrow> bool" where
  "wf_listed (Plain (Amo a aqrl rd rs1 rs2)) = False"
| "wf_listed (Plain (Fence funct3 rd rs1 imm)) = False"
| "wf_listed (Plain i) = wf_instr i"
| "wf_listed (Csr funct3 rd rs1 n) = (funct3 \<in> {1, 2, 3} \<and> rd < 32 \<and> rs1 < 32 \<and> n < 4096)"
| "wf_listed (FLW rd rs1 imm) = (rd < 32 \<and> rs1 < 32 \<and> signed_take_bit 11 imm = imm)"
| "wf_listed (FSW rs1 rs2 imm) = (rs1 < 32 \<and> rs2 < 32 \<and> signed_take_bit 11 imm = imm)"
| "wf_listed ECALL = True"
| "wf_listed EBREAK = True"
| "wf_listed MRET = True"

lemma csr_text:
  assumes "f \<in> {1, 2, 3}" "rd < 32" "rs1 < 32"
  shows "assemble addr (asm3 (csr_name (ucast f)) (reg_name (word_of_nat rd)) (''0x'' @ fmt_hex (unat n))
    (reg_name (word_of_nat rs1))) = Some (encode_i 0x73 rd f rs1 n)"
  using assms(1)
  by (elim insertE emptyE) (simp_all add: csr_name_def assemble_3 table_defs csr_reg_def assms(2,3))

lemma assemble_csr: "wf_listed (Csr f rd rs1 n) \<Longrightarrow>
  assemble addr (decode_rv32 addr (code_of (Csr f rd rs1 n)) names) = Some (code_of (Csr f rd rs1 n))"
proof -
  assume wf: "wf_listed (Csr f rd rs1 n)"
  then have "f < 8" by auto
  with wf csr_text [of f rd rs1 addr n] show ?thesis
    by (simp add: disasm_simps disasm_system_def csr_field assemble_plain del: insert_iff)
qed

lemma assemble_fp:
  "wf_listed (FLW rd rs1 imm) \<Longrightarrow> assemble addr (decode_rv32 addr (code_of (FLW rd rs1 imm)) names) = Some (code_of (FLW rd rs1 imm))"
  "wf_listed (FSW rs1 rs2 imm) \<Longrightarrow> assemble addr (decode_rv32 addr (code_of (FSW rs1 rs2 imm)) names) = Some (code_of (FSW rs1 rs2 imm))"
  by (simp_all add: disasm_simps assemble_simps)

lemma assemble_system:
  "assemble addr (decode_rv32 addr 0x00000073 names) = Some 0x00000073"
  "assemble addr (decode_rv32 addr 0x00100073 names) = Some 0x00100073"
  "assemble addr (decode_rv32 addr 0x30200073 names) = Some 0x30200073"
  by (simp_all add: decode_rv32_def decode32_def disasm_system_def assemble_plain Let_def)

theorem assemble_decode_rv32:
  assumes "wf_listed i"
  shows "assemble addr (decode_rv32 addr (code_of i) names) = Some (code_of i)"
proof (cases i)
  case (Plain k)
  with assms show ?thesis
    by (cases k) (simp_all only: code_of.simps wf_listed.simps assemble_upper assemble_jal assemble_jalr assemble_branch
        assemble_load assemble_store assemble_op_imm assemble_shift assemble_op assemble_mul)
qed (use assms in \<open>simp_all only: code_of.simps(5-7) assemble_system assemble_csr assemble_fp\<close>)

text \<open>What the text does not say: the immediate of a CSR instruction, the width of a double-precision access, other opcodes.\<close>

lemma csr_imm_text:
  assumes "f \<in> {5, 6, 7 :: u32}" "rd < 32" "rs1 < 32"
  shows "assemble addr (asm3 (csr_name (ucast f)) (reg_name (word_of_nat rd)) (''0x'' @ fmt_hex (unat n))
    (reg_name (word_of_nat rs1))) = None"
  using assms(1)
  by (elim insertE emptyE) (simp_all add: csr_name_def assemble_3 table_defs csr_imm_def assms(2,3) shamt_of_name)

lemma assemble_csr_imm:
  assumes "f \<in> {5, 6, 7}" "rd < 32" "rs1 < 32" "n < 4096"
  shows "assemble addr (decode_rv32 addr (encode_i 0x73 rd f rs1 n) names) = None"
proof -
  have f: "f < 8" "(ucast f :: u8) \<noteq> 0" using assms(1) by auto
  let ?w = "encode_i 0x73 rd f rs1 n"
  have "d_funct3 (decode32 ?w) \<noteq> 0" using f assms by (simp add: decode_encode)
  moreover have "d_funct3 (decode32 0x73) = 0" "d_funct3 (decode32 0x00100073) = 0" "d_funct3 (decode32 0x30200073) = 0"
    by (simp_all add: decode32_def shift_then_mask_def)
  ultimately have "?w \<noteq> 0x73" "?w \<noteq> 0x00100073" "?w \<noteq> 0x30200073" by metis+
  then show ?thesis
    using f assms(2-4) csr_imm_text [OF assms(1-3), of addr n] by (simp add: disasm_simps disasm_system_def csr_field)
qed

lemma assemble_double:
  "rd < 32 \<Longrightarrow> rs1 < 32 \<Longrightarrow> signed_take_bit 11 imm = imm \<Longrightarrow>
    assemble addr (decode_rv32 addr (encode_i 0x07 rd 3 rs1 imm) names) = Some (encode_i 0x07 rd 2 rs1 imm)"
  "rs1 < 32 \<Longrightarrow> rs2 < 32 \<Longrightarrow> signed_take_bit 11 imm = imm \<Longrightarrow>
    assemble addr (decode_rv32 addr (encode_s 0x27 3 rs1 rs2 imm) names) = Some (encode_s 0x27 2 rs1 rs2 imm)"
  by (simp_all add: disasm_simps assemble_simps)

definition listed_opcodes :: "u8 set" where
  "listed_opcodes = {0x37, 0x17, 0x6F, 0x67, 0x63, 0x03, 0x23, 0x13, 0x33, 0x07, 0x27, 0x73}"

lemma assemble_unimpl:
  assumes "d_opcode (decode32 w) \<notin> listed_opcodes"
  shows "assemble addr (decode_rv32 addr w names) = None"
proof -
  have "decode_rv32 addr w names = ''unimpl'' @ CHR '' '' # ''0x'' @ fmt_hex0 8 (unat w)"
    using assms by (simp add: decode_rv32_def listed_opcodes_def Let_def)
  then show ?thesis by (simp only: assemble_def) (subst scan_1; simp add: table_defs)
qed

section \<open>Halfwords\<close>

lemma assemble_reserved [simp]: "assemble addr (c_reserved c) = None"
proof -
  have "c_reserved c = ''c.reserved'' @ CHR '' '' # ''0x'' @ fmt_hex0 4 (unat c)" by (simp add: c_reserved_def)
  then show ?thesis by (simp only: assemble_def) (subst scan_1; simp add: table_defs)
qed

lemma rvc_targets:
  "format_target_rvc addr c = format_target (addr + c_j_offset c) None"
  "format_branch_target_rvc addr c = format_target (addr + c_b_offset c) None"
  by (simp_all add: format_target_rvc_def format_branch_target_rvc_def format_target_def)

lemma assemble_c_jump:
  "assemble addr (''c.j '' @ format_target w names) = Some (asm (JAL 0 (w - addr)))"
  "assemble addr (''c.jal '' @ format_target w names) = Some (asm (JAL 1 (w - addr)))"
  "r < 32 \<Longrightarrow> assemble addr (''c.jr '' @ reg_name (word_of_nat r)) = Some (asm (JALR 0 r 0))"
  "r < 32 \<Longrightarrow> assemble addr (''c.jalr '' @ reg_name (word_of_nat r)) = Some (asm (JALR 1 r 0))"
  using assemble_1 [of "''c.j''" addr "jump addr (\<lambda>off. asm (JAL 0 off))" "format_target w names"]
    assemble_1 [of "''c.jal''" addr "jump addr (\<lambda>off. asm (JAL 1 off))" "format_target w names"]
    assemble_1 [of "''c.jr''" addr "one_reg (\<lambda>r. asm (JALR 0 r 0))" "reg_name (word_of_nat r)"]
    assemble_1 [of "''c.jalr''" addr "one_reg (\<lambda>r. asm (JALR 1 r 0))" "reg_name (word_of_nat r)"]
  by (auto simp: table_defs jump_def one_reg_def cut_clean)

lemma assemble_q0:
  assumes "unat f3 < 8"
  shows "assemble addr (rvc_q0 c f3) = expand_q0 c (ucast f3)"
  by (simp add: rvc_q0_def expand_q0_code Let_def small_cast assms assemble_simps)

lemma assemble_misc_alu: "assemble addr (rvc_misc_alu c) = expand_misc_alu c"
  by (simp add: rvc_misc_alu_def rvc_alu_name_def expand_misc_alu_code Let_def assemble_simps c_shamt_def [symmetric])

text \<open>The one family that the text does not tell apart: every \<open>c.addi\<close> to \<open>zero\<close> reads \<open>c.nop\<close>.\<close>

definition nop_hint :: "u16 \<Rightarrow> bool" where
  "nop_hint c \<longleftrightarrow> c AND 3 = 1 \<and> shift_then_mask c 13 7 = 0 \<and> c_rd c = 0"

lemma assemble_q1:
  assumes "unat f3 < 8"
  shows "assemble addr (rvc_q1 addr c f3) = (if f3 = 0 \<and> c_rd c = 0 then Some 0x00000013 else expand_q1 c (ucast f3))"
  by (simp add: rvc_q1_def expand_q1_code Let_def small_cast assms assemble_simps assemble_misc_alu assemble_c_jump [simplified]
      rvc_targets)

lemma assemble_q2_jump:
  "assemble addr (rvc_q2 c 4) = expand_q2 c 4"
  by (cases "c_bit12 c = 0"; cases "c_rs2 c = 0"; cases "c_rd c = 0")
    (simp_all add: rvc_q2_def expand_q2_code Let_def assemble_simps assemble_c_jump [simplified])

lemma assemble_q2_mem:
  "assemble addr (rvc_q2 c 1) = expand_q2 c 1" "assemble addr (rvc_q2 c 2) = expand_q2 c 2"
  "assemble addr (rvc_q2 c 3) = expand_q2 c 3" "assemble addr (rvc_q2 c 5) = expand_q2 c 5"
  "assemble addr (rvc_q2 c 6) = expand_q2 c 6" "assemble addr (rvc_q2 c 7) = expand_q2 c 7"
  by (simp_all add: rvc_q2_def expand_q2_code Let_def assemble_simps)

lemma assemble_q2_slli: "assemble addr (rvc_q2 c 0) = expand_q2 c 0"
  by (simp add: rvc_q2_def expand_q2_code Let_def assemble_simps c_shamt_def [symmetric])

lemma word_below_8:
  assumes "unat (x :: u16) < 8"
  shows "x \<in> {0, 1, 2, 3, 4, 5, 6, 7}"
proof -
  have "unat x \<in> {0, 1, 2, 3, 4, 5, 6, 7}" using assms by auto
  then show ?thesis by (auto simp: word_unat_eq_iff)
qed

lemma assemble_q2:
  assumes "unat f3 < 8"
  shows "assemble addr (rvc_q2 c f3) = expand_q2 c (ucast f3)"
  using word_below_8 [OF assms]
  by (elim insertE emptyE) (simp_all add: assemble_q2_jump assemble_q2_mem assemble_q2_slli)

theorem assemble_decode_rvc:
  "assemble addr (decode_rvc addr c) = (if nop_hint c then Some 0x00000013 else expand16 c)"
proof -
  have f: "unat (shift_then_mask c 13 7) < 8" by (simp add: width_simps)
  have h: "h_funct3 (decode16 c) = ucast (shift_then_mask c 13 7)" by (simp add: decode16_def)
  consider "c AND 3 = 0" | "c AND 3 = 1" | "c AND 3 = 2" | "c AND 3 \<notin> {0, 1, 2}" by blast
  then show ?thesis
    using assemble_q0 [OF f, of addr c] assemble_q1 [OF f, of addr c] assemble_q2 [OF f, of addr c]
    by cases (simp_all add: decode_rvc_def expand16_code nop_hint_def Let_def decode16_fields h)
qed

end
