(* ===== verification/Devices.thy ===== *)
theory Devices
  imports Isa_Refine
begin

text \<open>
  Accesses to the device page, the last 64 KiB of the address space. A load or store there is one call of the
  host with the address and the width of the access, an atomic instruction a read followed by a write; memory
  is not touched, and the host is asked even when the value is discarded.
\<close>

section \<open>What the host returns and receives\<close>

text \<open>The register value that a load makes of the word the host returns.\<close>

fun device_value :: "load_op \<Rightarrow> u32 \<Rightarrow> u32" where
  "device_value LB v = word_of_int (signed_take_bit 7 (uint v))"
| "device_value LH v = word_of_int (signed_take_bit 15 (uint v))"
| "device_value LW v = v"
| "device_value LBU v = word_of_int (uint v mod 2 ^ 8)"
| "device_value LHU v = word_of_int (uint v mod 2 ^ 16)"

text \<open>The word that a store hands to the host.\<close>

fun device_data :: "store_op \<Rightarrow> u32 \<Rightarrow> u32" where
  "device_data SB v = word_of_int (uint v mod 2 ^ 8)"
| "device_data SH v = word_of_int (uint v mod 2 ^ 16)"
| "device_data SW v = v"

lemma mod_bits: "(i :: int) mod 256 = take_bit 8 i" "(i :: int) mod 65536 = take_bit 16 i"
  by (simp_all add: take_bit_eq_mod)

lemma device_value_casts:
  "device_value LB v = scast (ucast (v AND 0xFF) :: u8)" "device_value LH v = scast (ucast (v AND 0xFFFF) :: u16)"
  "device_value LBU v = ucast (ucast (v AND 0xFF) :: u8)" "device_value LHU v = ucast (ucast (v AND 0xFFFF) :: u16)"
  by (rule word32_eqI; simp add: mod_bits bit_simps)+

lemma device_data_casts:
  "device_data SB v = ucast (ucast v :: u8)" "device_data SH v = ucast (ucast v :: u16)"
  by (rule word32_eqI; simp add: mod_bits bit_simps)+

section \<open>Memory accesses\<close>

lemma mem_reads_device:
  assumes "MMIO_BASE \<le> a"
  shows "mem_read_u8 E a s = (let (v, h) = js_read_mmio E a 1 (host s) in Some (ucast (v AND 0xFF), s\<lparr>host := h\<rparr>))"
    "mem_read_u16 E a s = (let (v, h) = js_read_mmio E a 2 (host s) in Some (ucast (v AND 0xFFFF), s\<lparr>host := h\<rparr>))"
    "mem_read_u32 E a s = (let (v, h) = js_read_mmio E a 4 (host s) in Some (v, s\<lparr>host := h\<rparr>))"
  using assms
  by (simp_all add: mem_read_u8_def mem_read_u16_def mem_read_u32_def read_u8_def read_u16_def read_u32_def
      split: prod.split)

lemma mem_writes_device:
  assumes "MMIO_BASE \<le> a"
  shows "mem_write_u8 E a b s = Some (s\<lparr>host := js_write_mmio E a 1 (ucast b) (host s)\<rparr>)"
    "mem_write_u16 E a h s = Some (s\<lparr>host := js_write_mmio E a 2 (ucast h) (host s)\<rparr>)"
    "mem_write_u32 E a w s = Some (s\<lparr>host := js_write_mmio E a 4 w (host s)\<rparr>)"
  using assms
  by (simp_all add: mem_write_u8_def mem_write_u16_def mem_write_u32_def write_u8_def write_u16_def write_u32_def)

section \<open>Instructions\<close>

lemmas step_simps = execute_inst32_def dispatch_simps and_then_def set_pc_def next_inst_def

lemma load_device:
  assumes "wf_instr (Load op rd rs1 imm)" "MMIO_BASE \<le> xreg s rs1 + imm"
    "js_read_mmio E (xreg s rs1 + imm) (word_of_nat (access_width op)) (host s) = (v, h)"
  shows "execute_inst32 E (asm (Load op rd rs1 imm)) s
    = Some (Inr (), next_inst (put_xreg (s\<lparr>host := h\<rparr>) rd (device_value op v)))"
  using assms
  by (cases op) (simp_all add: step_simps exec_load_def mem_reads_device device_value_casts del: device_value.simps(1,2,4,5))

lemma store_device:
  assumes "wf_instr (Store op rs1 rs2 imm)" "MMIO_BASE \<le> xreg s rs1 + imm"
  shows "execute_inst32 E (asm (Store op rs1 rs2 imm)) s = Some (Inr (), next_inst (s\<lparr>host :=
    js_write_mmio E (xreg s rs1 + imm) (word_of_nat (store_width op)) (device_data op (xreg s rs2)) (host s)\<rparr>))"
  using assms
  by (cases op) (simp_all add: step_simps exec_store_def mem_writes_device device_data_casts del: device_data.simps(1,2))

lemma amo_device:
  assumes "wf_instr (Amo op aqrl rd rs1 rs2)" "MMIO_BASE \<le> xreg s rs1"
    "js_read_mmio E (xreg s rs1) 4 (host s) = (old, h)"
  shows "execute_inst32 E (asm (Amo op aqrl rd rs1 rs2)) s = Some (Inr (), next_inst (put_xreg (s\<lparr>host :=
    (case amo_store op old (xreg s rs2) of Some v \<Rightarrow> js_write_mmio E (xreg s rs1) 4 v h | None \<Rightarrow> h)\<rparr>) rd (amo_result op old)))"
proof -
  have v: "amo_val (drop_bit 2 (ucast (amo_funct7 op OR aqrl) :: u8)) old (xreg s rs2)
      = Some (case amo_store op old (xreg s rs2) of Some v \<Rightarrow> v | None \<Rightarrow> old)"
    using assms(1) by (simp add: amo_ordering amo_value)
  show ?thesis
  proof (cases "amo_store op old (xreg s rs2)")
    case None
    then have "drop_bit 2 (ucast (amo_funct7 op) :: u8) = 2" "amo_result op old = old"
      by (simp_all add: amo_value amo_result_def)
    then have "drop_bit 2 (ucast (amo_funct7 op OR aqrl) :: u8) = 2" "amo_result op old = old"
      using assms(1) by (simp_all add: amo_ordering)
    with assms None v show ?thesis
      by (simp add: step_simps exec_rv32a_def keep_pc_def mem_reads_device)
  next
    case (Some x)
    then have "op \<noteq> LR" by auto
    with assms Some show ?thesis
      by (simp add: step_simps exec_rv32a_def keep_pc_def mem_reads_device mem_writes_device v amo_value amo_ordering
          amo_result_def)
  qed
qed

end
