(* ===== verification/Float_Round.thy ===== *)
theory Float_Round
  imports Complex_Main Float_Exact
begin

text \<open>
  Correct rounding. The arithmetic of the F and D instructions delivers, for finite operands, the representable
  number nearest to the exact real result, the one with an even pattern when two are equally near, and an
  infinity from the overflow threshold of the format on.
\<close>

section \<open>Magnitudes\<close>

lemma powi_shift: "a \<le> b \<Longrightarrow> (2::real) powi b = 2 powi a * 2 ^ nat (b - a)"
proof -
  assume "a \<le> b"
  then obtain n where "b = a + int n" using zle_iff_zadd by auto
  then show ?thesis by (simp add: power_int_add)
qed

text \<open>
  The magnitude of a pattern without sign, as a multiple of the smallest subnormal. The exponent is not bounded
  here, so the patterns from the infinity on continue the scale of the finite numbers.
\<close>

definition units :: "nat \<Rightarrow> nat \<Rightarrow> nat" where
  "units mb b = (if b < 2 ^ mb then b else (b mod 2 ^ mb + 2 ^ mb) * 2 ^ (b div 2 ^ mb - 1))"

definition in_binade :: "nat \<Rightarrow> nat \<Rightarrow> nat \<Rightarrow> bool" where
  "in_binade mb k d \<longleftrightarrow> d \<le> 2 ^ Suc mb \<and> (k = 0 \<or> 2 ^ mb \<le> d)"

lemma units_binade:
  assumes "in_binade mb k d"
  shows "units mb (k * 2 ^ mb + d) = d * 2 ^ k"
proof -
  consider "d < 2 ^ mb" "k = 0" | "2 ^ mb \<le> d" "d < 2 ^ Suc mb" | "d = 2 ^ Suc mb"
    using assms by (fastforce simp: in_binade_def)
  then show ?thesis
  proof cases
    case 2
    then obtain f where f: "d = f + 2 ^ mb" "f < 2 ^ mb" using le_Suc_ex [of "2 ^ mb" d] by auto
    then have "k * 2 ^ mb + d = Suc k * 2 ^ mb + f" by simp
    then have "(k * 2 ^ mb + d) mod 2 ^ mb = f" "(k * 2 ^ mb + d) div 2 ^ mb = Suc k" using f(2) by simp_all
    then show ?thesis using f by (simp add: units_def)
  next
    case 3
    then have "k * 2 ^ mb + d = (k + 2) * 2 ^ mb" by simp
    then have "(k * 2 ^ mb + d) mod 2 ^ mb = 0" "(k * 2 ^ mb + d) div 2 ^ mb = k + 2" by simp_all
    then show ?thesis using 3 by (simp add: units_def)
  qed (simp add: units_def)
qed

lemma binade_cases:
  obtains k d where "b = k * 2 ^ mb + d" "in_binade mb k d" "in_binade mb k (Suc d)"
proof -
  have b: "b div 2 ^ mb * 2 ^ mb + b mod 2 ^ mb = b" "b mod 2 ^ mb < 2 ^ mb"
    by (simp_all only: div_mult_mod_eq) simp
  show ?thesis
  proof (cases "b div 2 ^ mb")
    case 0
    with b show ?thesis by (intro that [of 0 b]) (auto simp: in_binade_def)
  next
    case (Suc k)
    with b show ?thesis by (intro that [of k "2 ^ mb + b mod 2 ^ mb"]) (auto simp: in_binade_def Suc_le_eq)
  qed
qed

lemma units_mono: "a < b \<Longrightarrow> units mb a < units mb b"
proof -
  have "units mb n < units mb (Suc n)" for n
  proof -
    obtain k d where n: "n = k * 2 ^ mb + d" "in_binade mb k d" "in_binade mb k (Suc d)" by (rule binade_cases)
    then have "Suc n = k * 2 ^ mb + Suc d" by simp
    then show ?thesis using n(1) units_binade [OF n(2)] units_binade [OF n(3)] by simp
  qed
  then show "a < b \<Longrightarrow> units mb a < units mb b" by (rule lift_Suc_mono_less)
qed

lemma units_le_iff: "units mb a \<le> units mb b \<longleftrightarrow> a \<le> b"
  using units_mono [of a b mb] units_mono [of b a mb] by (metis leD leI less_imp_le order_refl nat_neq_iff)

section \<open>The nearest magnitude\<close>

text \<open>\<open>r\<close> is the pattern nearest to \<open>x\<close>, and even when another one is as near.\<close>

definition nearest :: "nat \<Rightarrow> real \<Rightarrow> nat \<Rightarrow> bool" where
  "nearest mb x r \<longleftrightarrow> (\<forall>b. \<bar>real (units mb r) - x\<bar> \<le> \<bar>real (units mb b) - x\<bar>)
     \<and> (\<forall>b. b \<noteq> r \<longrightarrow> \<bar>real (units mb b) - x\<bar> = \<bar>real (units mb r) - x\<bar> \<longrightarrow> even r)"

text \<open>A number between two neighbours is rounded to the nearer one.\<close>

lemma nearest_neighbour:
  assumes "real (units mb n) \<le> x" "x < real (units mb (Suc n))"
    and r: "r = (if 2 * x < real (units mb n + units mb (Suc n))
        \<or> 2 * x = real (units mb n + units mb (Suc n)) \<and> even n then n else Suc n)"
  shows "nearest mb x r"
proof -
  have b: "units mb b \<le> units mb n \<or> units mb (Suc n) \<le> units mb b" for b
    by (cases "b \<le> n") (simp_all add: units_le_iff)
  have out: "\<bar>real (units mb b) - x\<bar> \<ge> min (x - units mb n) (units mb (Suc n) - x)" for b
    using b [of b] assms(1,2) by linarith
  have strict: "\<bar>real (units mb b) - x\<bar> > min (x - units mb n) (units mb (Suc n) - x)"
    if "b \<noteq> n" "b \<noteq> Suc n" for b
  proof -
    have "b < n \<or> Suc n < b" using that by linarith
    then have "units mb b < units mb n \<or> units mb (Suc n) < units mb b" using units_mono by blast
    with assms(1,2) show ?thesis by linarith
  qed
  have min: "\<bar>real (units mb r) - x\<bar> = min (x - units mb n) (units mb (Suc n) - x)"
    using assms by (auto simp: min_def)
  have "even r" if "b \<noteq> r" "\<bar>real (units mb b) - x\<bar> = \<bar>real (units mb r) - x\<bar>" for b
  proof -
    have "b = n \<or> b = Suc n" using strict [of b] that(2) min by linarith
    with that assms show ?thesis by (auto split: if_splits)
  qed
  with out min show ?thesis by (simp add: nearest_def)
qed

section \<open>Rounding an approximation\<close>

text \<open>
  \<open>m / 2^j\<close> stands for \<open>t\<close> when it is equal to it, or when \<open>m\<close> ends in a sticky bit: \<open>m\<close> is odd and \<open>t\<close> lies strictly
  between the neighbours of \<open>m\<close>.
\<close>

definition stands_for :: "nat \<Rightarrow> nat \<Rightarrow> real \<Rightarrow> bool" where
  "stands_for m j t \<longleftrightarrow> t = real m / 2 ^ j \<or> odd m \<and> 2 \<le> j \<and> (real m - 1) / 2 ^ j < t \<and> t < (real m + 1) / 2 ^ j"

lemma stands_for_exact: "stands_for m j (real m / 2 ^ j)"
  by (simp add: stands_for_def)

lemma rne_stands_for:
  assumes "stands_for m j t" "d = m div 2 ^ j"
  shows "real d \<le> t" "t < real d + 1"
    "rne m j = (if 2 * t < 2 * real d + 1 \<or> 2 * t = 2 * real d + 1 \<and> even d then d else Suc d)"
proof -
  define r where "r = m mod 2 ^ j"
  have m: "m = d * 2 ^ j + r" "r < 2 ^ j"
    unfolding r_def assms(2) by (simp_all only: div_mult_mod_eq) simp
  have rm: "real m = real d * 2 ^ j + real r" by (simp add: m(1))
  have rne: "rne m j = (if 2 ^ (j - 1) < r \<or> 2 ^ (j - 1) = r \<and> odd d then Suc d else d)" if "j \<noteq> 0"
    using that by (simp add: rne_def Let_def r_def assms(2))
  have "real (r + 1) \<le> real (2 ^ j)" unfolding of_nat_le_iff using m(2) by simp
  then have r1: "real r + 1 \<le> 2 ^ j" by simp
  have "real d \<le> t \<and> t < real d + 1
    \<and> rne m j = (if 2 * t < 2 * real d + 1 \<or> 2 * t = 2 * real d + 1 \<and> even d then d else Suc d)"
  proof (cases "t = real m / 2 ^ j")
    case True
    then have t: "t * 2 ^ j = real d * 2 ^ j + real r" by (simp add: rm)
    show ?thesis
    proof (cases j)
      case 0
      with m t show ?thesis by (simp add: rne_def)
    next
      case (Suc i)
      have p: "(2::real) ^ j = 2 * 2 ^ i" "(0::real) < 2 ^ i" by (simp_all add: Suc)
      have e: "2 * t = 2 * real d + real r / 2 ^ i" by (simp add: True rm p field_simps)
      have "2 * t < 2 * real d + 1 \<longleftrightarrow> r < 2 ^ i" "2 * t = 2 * real d + 1 \<longleftrightarrow> r = 2 ^ i"
        by (auto simp: e)
      moreover have "real d \<le> t" "t < real d + 1"
        using t r1 m(2) by (auto simp: True rm field_simps)
      ultimately show ?thesis
        using rne Suc by (auto simp del: power_Suc)
    qed
  next
    case False
    then have s: "odd m" "2 \<le> j" "real m - 1 < t * 2 ^ j" "t * 2 ^ j < real m + 1"
      using assms(1) by (auto simp: stands_for_def field_simps)
    define h where "h = (2::nat) ^ (j - 1)"
    have h: "2 ^ j = 2 * h" "even h" using s(2) by (auto simp: h_def simp flip: power_Suc)
    have odd: "odd r" using s(1,2) by (simp add: m(1))
    have "r \<noteq> h" using odd h(2) by auto
    have H: "(2::real) ^ j = 2 * real h" using h(1) by (metis of_nat_mult of_nat_numeral of_nat_power)
    have T: "real d * 2 ^ j + real r - 1 < t * 2 ^ j" "t * 2 ^ j < real d * 2 ^ j + real r + 1"
      using s(3,4) by (simp_all add: rm)
    have pos: "0 < h" by (simp add: h_def)
    have "1 \<le> real r" using odd by (cases r) auto
    then have "real d * 2 ^ j < t * 2 ^ j" "t * 2 ^ j < (real d + 1) * 2 ^ j"
      using T r1 unfolding distrib_right by linarith+
    then have dt: "real d < t" "t < real d + 1" by simp_all
    show ?thesis
    proof (cases "r < h")
      case True
      then have "real r + 1 \<le> real h" by linarith
      then have "t * (2 * real h) < (real d + 1 / 2) * (2 * real h)"
        using T(2) unfolding H by (simp add: distrib_right)
      then have "2 * t < 2 * real d + 1" using pos by (simp add: mult_less_cancel_right)
      moreover have "rne m j = d"
        using rne [folded h_def] True s(2) by simp
      ultimately show ?thesis using dt by simp
    next
      case False
      then have "real h + 1 \<le> real r" using \<open>r \<noteq> h\<close> by linarith
      then have "(real d + 1 / 2) * (2 * real h) < t * (2 * real h)"
        using T(1) unfolding H by (simp add: distrib_right)
      then have "2 * real d + 1 < 2 * t" using pos by (simp add: mult_less_cancel_right)
      moreover have "rne m j = Suc d"
        using rne [folded h_def] False \<open>r \<noteq> h\<close> s(2) by simp
      ultimately show ?thesis using dt by simp
    qed
  qed
  then show "real d \<le> t" "t < real d + 1"
    "rne m j = (if 2 * t < 2 * real d + 1 \<or> 2 * t = 2 * real d + 1 \<and> even d then d else Suc d)"
    by blast+
qed

text \<open>The significand \<open>d\<close> at exponent \<open>k\<close> and the fraction of \<open>t\<close> behind it decide the rounding of \<open>t * 2^k\<close>.\<close>

lemma nearest_binade:
  assumes "0 < mb" "in_binade mb k d" "in_binade mb k (Suc d)" "real d \<le> t" "t < real d + 1"
    and r: "r = (if 2 * t < 2 * real d + 1 \<or> 2 * t = 2 * real d + 1 \<and> even d then d else Suc d)"
  shows "nearest mb (t * 2 ^ k) (k * 2 ^ mb + r)"
proof -
  let ?n = "k * 2 ^ mb + d"
  have u: "real (units mb ?n) = real d * 2 ^ k" "real (units mb (Suc ?n)) = (real d + 1) * 2 ^ k"
    using units_binade [OF assms(2)] units_binade [OF assms(3)] by (simp_all add: algebra_simps)
  have p: "(0::real) < 2 ^ k" by simp
  have c: "2 * (t * 2 ^ k) < (2 * real d + 1) * 2 ^ k \<longleftrightarrow> 2 * t < 2 * real d + 1"
    "2 * (t * 2 ^ k) = (2 * real d + 1) * 2 ^ k \<longleftrightarrow> 2 * t = 2 * real d + 1"
    using p by (simp_all only: mult.assoc [symmetric] mult_less_cancel_right_pos mult_cancel_right) auto
  have e: "even ?n = even d" using assms(1) by auto
  have s: "real (units mb ?n + units mb (Suc ?n)) = (2 * real d + 1) * 2 ^ k"
    by (simp only: of_nat_add u) (simp add: algebra_simps)
  show ?thesis
  proof (rule nearest_neighbour [of mb ?n])
    show "real (units mb ?n) \<le> t * 2 ^ k" "t * 2 ^ k < real (units mb (Suc ?n))"
      unfolding u using assms(4,5) p by simp_all
    show "k * 2 ^ mb + r = (if 2 * (t * 2 ^ k) < real (units mb ?n + units mb (Suc ?n))
        \<or> 2 * (t * 2 ^ k) = real (units mb ?n + units mb (Suc ?n)) \<and> even ?n then ?n else Suc ?n)"
      unfolding s c e r by simp
  qed
qed

lemma bitlen_bounds: "0 < m \<Longrightarrow> 2 ^ (bitlen m - 1) \<le> m \<and> m < 2 ^ bitlen m \<and> 1 \<le> bitlen m"
  using bitlen_lower [of m] bitlen_upper [of m] by (simp add: bitlen_pos)

lemma round_mag_nearest:
  assumes "0 < m" "0 < mb" and q: "q = max (fp_emin mb eb) (e + int (bitlen m) - int mb - 1)"
    and k: "k = nat (q - fp_emin mb eb)"
    and t: "if q \<le> e then t = real (m * 2 ^ nat (e - q)) else stands_for m (nat (q - e)) t"
  shows "\<exists>r. nearest mb (t * 2 ^ k) r \<and> round_mag mb eb m e = min r (fp_inf mb eb)"
proof -
  note b = bitlen_bounds [OF assms(1)]
  define j where "j = nat (q - e)"
  define d where "d = (if q \<le> e then m * 2 ^ nat (e - q) else m div 2 ^ j)"
  define m' where "m' = (if q \<le> e then d else rne m j)"
  have "d < 2 ^ Suc mb"
  proof (cases "q \<le> e")
    case True
    have "bitlen m + nat (e - q) \<le> Suc mb" using True q by linarith
    then have "(2::nat) ^ bitlen m * 2 ^ nat (e - q) \<le> 2 ^ Suc mb"
      unfolding power_add [symmetric] by (rule power_increasing) simp
    moreover have "m * 2 ^ nat (e - q) < 2 ^ bitlen m * 2 ^ nat (e - q)" using b by simp
    ultimately have "m * 2 ^ nat (e - q) < 2 ^ Suc mb" by linarith
    then show ?thesis using True by (simp add: d_def)
  next
    case False
    have "bitlen m \<le> Suc mb + j" using False q by (simp add: j_def)
    then have "(2::nat) ^ bitlen m \<le> 2 ^ Suc mb * 2 ^ j"
      using power_increasing [of "bitlen m" "Suc mb + j" "2::nat"] by (simp add: power_add)
    with b have "m < 2 ^ Suc mb * 2 ^ j" by linarith
    then show ?thesis using False by (simp add: d_def less_mult_imp_div_less)
  qed
  moreover have "2 ^ mb \<le> d" if "k \<noteq> 0"
  proof (cases "q \<le> e")
    case True
    have "mb = bitlen m - 1 + nat (e - q)" using that k True q b by auto
    then have "(2::nat) ^ mb = 2 ^ (bitlen m - 1) * 2 ^ nat (e - q)" by (simp flip: power_add)
    then show ?thesis using True b by (simp add: d_def)
  next
    case False
    have "bitlen m - 1 = mb + j" using that k False q b by (auto simp: j_def)
    then have "(2::nat) ^ mb * 2 ^ j = 2 ^ (bitlen m - 1)" by (simp add: power_add)
    then show ?thesis using False b by (simp add: d_def less_eq_div_iff_mult_less_eq)
  qed
  ultimately have B: "in_binade mb k d" "in_binade mb k (Suc d)" by (cases "k = 0"; simp add: in_binade_def)+
  have "real d \<le> t \<and> t < real d + 1
      \<and> m' = (if 2 * t < 2 * real d + 1 \<or> 2 * t = 2 * real d + 1 \<and> even d then d else Suc d)"
  proof (cases "q \<le> e")
    case True
    with t show ?thesis by (simp add: d_def m'_def)
  next
    case False
    with t rne_stands_for [of m j t d] show ?thesis by (simp add: d_def m'_def j_def)
  qed
  then have "nearest mb (t * 2 ^ k) (k * 2 ^ mb + m')" using nearest_binade [OF assms(2) B] by blast
  moreover have "round_mag mb eb m e = min (k * 2 ^ mb + m') (fp_inf mb eb)"
    using assms(1) by (simp add: round_mag_def Let_def k m'_def d_def j_def flip: q)
  ultimately show ?thesis by blast
qed

section \<open>Patterns\<close>

fun fp_fin :: "fp \<Rightarrow> bool" where
  "fp_fin (Fin s m e) = True"
| "fp_fin x = False"

fun fp_real :: "fp \<Rightarrow> real" where
  "fp_real (Fin s m e) = (if s then - 1 else 1) * (real m * 2 powi e)"
| "fp_real x = 0"

text \<open>The number from which on a result is rounded to infinity: half a unit above the largest finite number.\<close>

definition fp_threshold :: "nat \<Rightarrow> nat \<Rightarrow> real" where
  "fp_threshold mb eb = (2 ^ Suc mb - 1 / 2) * 2 powi (fp_emin mb eb + 2 ^ eb - 3)"

text \<open>The pattern \<open>r\<close> is the correct rounding of \<open>x\<close>: to nearest, ties to even.\<close>

definition correct_rounding :: "nat \<Rightarrow> nat \<Rightarrow> real \<Rightarrow> nat \<Rightarrow> bool" where
  "correct_rounding mb eb x r \<longleftrightarrow>
     (if \<bar>x\<bar> < fp_threshold mb eb
      then fp_fin (unpack mb eb r) \<and> (\<forall>b < 2 ^ Suc (mb + eb). fp_fin (unpack mb eb b) \<longrightarrow>
          \<bar>fp_real (unpack mb eb r) - x\<bar> \<le> \<bar>fp_real (unpack mb eb b) - x\<bar>
          \<and> (\<bar>fp_real (unpack mb eb r) - x\<bar> = \<bar>fp_real (unpack mb eb b) - x\<bar>
             \<and> fp_real (unpack mb eb b) \<noteq> fp_real (unpack mb eb r) \<longrightarrow> even r))
      else unpack mb eb r = Inf (x < 0))"

lemma unpack_magnitude:
  assumes "c < fp_inf mb eb"
  shows "fp_fin (unpack mb eb (fp_sign mb eb s + c))"
    "fp_real (unpack mb eb (fp_sign mb eb s + c))
      = (if s then - 1 else 1) * (real (units mb c) * 2 powi fp_emin mb eb)"
proof -
  define x f where xf: "x = c div 2 ^ mb" "f = c mod 2 ^ mb"
  have c: "c = x * 2 ^ mb + f" "f < 2 ^ mb" unfolding xf by (simp_all only: div_mult_mod_eq) simp
  have x: "x < 2 ^ eb - 1" using assms by (simp add: xf fp_inf_def less_mult_imp_div_less)
  have p: "unpack mb eb (fp_sign mb eb s + c) = (if x = 0 then Fin s f (fp_emin mb eb)
      else Fin s (f + 2 ^ mb) (fp_emin mb eb + int x - 1))"
    unfolding c(1) using unpack_parts [OF c(2), of x eb s] x by simp
  then show "fp_fin (unpack mb eb (fp_sign mb eb s + c))" by simp
  show "fp_real (unpack mb eb (fp_sign mb eb s + c)) = (if s then - 1 else 1) * (real (units mb c) * 2 powi fp_emin mb eb)"
  proof (cases x)
    case 0
    with c p show ?thesis by (simp add: units_def)
  next
    case (Suc y)
    have "c \<ge> 2 ^ mb" using c(1) Suc by simp
    then have "units mb c = (f + 2 ^ mb) * 2 ^ y" using Suc by (simp add: units_def xf)
    moreover have "(2::real) powi (fp_emin mb eb + int y) = 2 powi fp_emin mb eb * 2 ^ y"
      by (simp add: power_int_add power_int_of_nat)
    ultimately show ?thesis using p Suc by simp
  qed
qed

lemma finite_pattern:
  assumes "b < 2 ^ Suc (mb + eb)" "fp_fin (unpack mb eb b)"
  obtains s c where "c < fp_inf mb eb" "b = fp_sign mb eb s + c"
proof -
  obtain s x f where b: "f < 2 ^ mb" "x < 2 ^ eb" "b = fp_sign mb eb s + (x * 2 ^ mb + f)"
    by (rule unpack_cases [OF assms(1)])
  have "x \<noteq> 2 ^ eb - 1"
    using assms(2) unpack_parts [OF b(1,2), of s, folded b(3)] by (auto split: if_splits)
  with b(2) have "Suc x \<le> 2 ^ eb - 1" by linarith
  then have "Suc x * 2 ^ mb \<le> fp_inf mb eb" unfolding fp_inf_def by (rule mult_right_mono) simp
  moreover have "x * 2 ^ mb + f < Suc x * 2 ^ mb" using b(1) by simp
  ultimately have "x * 2 ^ mb + f < fp_inf mb eb" by linarith
  with b(3) show ?thesis using that by blast
qed

lemma unpack_infinity: "unpack mb eb (fp_sign mb eb s + fp_inf mb eb) = Inf s"
  using unpack_parts [of 0 mb "2 ^ eb - 1" eb s] by (simp add: fp_inf_def)

section \<open>Overflow\<close>

lemma threshold_units:
  assumes "2 \<le> eb"
  shows "fp_threshold mb eb
    = (real (units mb (fp_inf mb eb - 1)) + real (units mb (fp_inf mb eb))) / 2 * 2 powi fp_emin mb eb"
proof -
  define k where "k = (2::nat) ^ eb - 3"
  have "(2::nat) ^ 2 \<le> 2 ^ eb" using assms by (intro power_increasing) auto
  then have k: "2 ^ eb = k + 3" by (simp add: k_def)
  have inf: "fp_inf mb eb = k * 2 ^ mb + 2 ^ Suc mb" by (simp add: fp_inf_def k algebra_simps)
  then have pred: "fp_inf mb eb - 1 = k * 2 ^ mb + (2 ^ Suc mb - 1)" by simp
  have "units mb (fp_inf mb eb) = 2 ^ Suc mb * 2 ^ k" unfolding inf by (rule units_binade) (simp add: in_binade_def)
  moreover have "units mb (fp_inf mb eb - 1) = (2 ^ Suc mb - 1) * 2 ^ k"
    unfolding pred by (rule units_binade) (use one_le_power [of "2::nat" mb] in \<open>auto simp: in_binade_def\<close>)
  moreover have "real (2 ^ Suc mb - 1) = 2 ^ Suc mb - 1" by (simp add: of_nat_diff)
  moreover have "(2::real) powi (fp_emin mb eb + 2 ^ eb - 3) = 2 powi fp_emin mb eb * 2 ^ k"
  proof -
    have "(2::int) ^ eb = int k + 3" using k by (metis of_nat_add of_nat_numeral of_nat_power)
    then show ?thesis by (simp add: power_int_add power_int_of_nat)
  qed
  ultimately show ?thesis by (simp add: fp_threshold_def field_simps)
qed

lemma past_midpoint:
  fixes a b c x :: real
  assumes "(a + b) / 2 \<le> x" "a < b" "c \<le> a" "\<bar>c - x\<bar> \<le> \<bar>b - x\<bar>"
  shows "c = a" "\<bar>b - x\<bar> = \<bar>c - x\<bar>"
  using assms by (auto simp: abs_if field_simps split: if_splits)

lemma before_midpoint:
  fixes a b c x :: real
  shows "x < (a + b) / 2 \<Longrightarrow> a < b \<Longrightarrow> b \<le> c \<Longrightarrow> \<bar>a - x\<bar> < \<bar>c - x\<bar>"
  by (auto simp: abs_if field_simps split: if_splits)

lemma nearest_overflow:
  assumes "nearest mb x r" "0 < n" "even n"
  shows "r < n \<longleftrightarrow> x < (real (units mb (n - 1)) + real (units mb n)) / 2"
proof
  have m: "real (units mb (n - 1)) < real (units mb n)" using units_mono assms(2) by simp
  have le: "\<bar>real (units mb r) - x\<bar> \<le> \<bar>real (units mb n) - x\<bar>" "\<bar>real (units mb r) - x\<bar> \<le> \<bar>real (units mb (n - 1)) - x\<bar>"
    using assms(1) by (auto simp: nearest_def)
  show "x < (real (units mb (n - 1)) + real (units mb n)) / 2" if "r < n"
  proof (rule ccontr)
    assume "\<not> ?thesis"
    then have x: "(real (units mb (n - 1)) + real (units mb n)) / 2 \<le> x" by simp
    have r: "real (units mb r) \<le> real (units mb (n - 1))" using that by (simp add: units_le_iff)
    have "real (units mb r) = real (units mb (n - 1))" by (rule past_midpoint(1) [OF x m r le(1)])
    then have "r = n - 1" using units_le_iff [of mb r "n - 1"] units_le_iff [of mb "n - 1" r] by simp
    moreover have "n \<noteq> r \<longrightarrow> \<bar>real (units mb n) - x\<bar> = \<bar>real (units mb r) - x\<bar> \<longrightarrow> even r"
      using assms(1) unfolding nearest_def by blast
    then have "even r" using past_midpoint(2) [OF x m r le(1)] that by simp
    ultimately show False using assms(2,3) by simp
  qed
  show "r < n" if x: "x < (real (units mb (n - 1)) + real (units mb n)) / 2"
  proof (rule ccontr)
    assume "\<not> r < n"
    then have "real (units mb n) \<le> real (units mb r)" by (simp add: units_le_iff)
    from before_midpoint [OF x m this] le(2) show False by simp
  qed
qed

section \<open>Packing rounds correctly\<close>

text \<open>
  \<open>x\<close> is the exact result and \<open>Fin s m e\<close> what is packed: \<open>x\<close> itself, or a significand with enough bits whose last
  one is sticky.
\<close>

fun represents :: "nat \<Rightarrow> fp \<Rightarrow> real \<Rightarrow> bool" where
  "represents mb (Fin s m e) x \<longleftrightarrow> (s \<longrightarrow> x \<le> 0) \<and> (\<not> s \<longrightarrow> 0 \<le> x) \<and>
     (\<bar>x\<bar> = real m * 2 powi e
      \<or> odd m \<and> mb + 3 \<le> bitlen m \<and> (real m - 1) * 2 powi e < \<bar>x\<bar> \<and> \<bar>x\<bar> < (real m + 1) * 2 powi e)"
| "represents mb y x = False"

lemma represents_self: "represents mb (Fin s m e) (fp_real (Fin s m e))"
  by (simp add: abs_mult)

lemma powi_diff: "(2::real) powi e / 2 powi q = (if q \<le> e then 2 ^ nat (e - q) else 1 / 2 ^ nat (q - e))"
  using powi_shift [of q e] powi_shift [of e q] by simp

lemma round_mag_represents:
  assumes "represents mb (Fin s m e) x" "0 < mb" "m \<noteq> 0"
  shows "\<exists>r. nearest mb (\<bar>x\<bar> / 2 powi fp_emin mb eb) r \<and> round_mag mb eb m e = min r (fp_inf mb eb)"
proof -
  define q where "q = max (fp_emin mb eb) (e + int (bitlen m) - int mb - 1)"
  define k where "k = nat (q - fp_emin mb eb)"
  define t where "t = \<bar>x\<bar> / 2 powi q"
  have "(2::real) powi q = 2 powi fp_emin mb eb * 2 ^ k"
    unfolding k_def by (rule powi_shift) (simp add: q_def)
  then have tk: "\<bar>x\<bar> / 2 powi fp_emin mb eb = t * 2 ^ k" by (simp add: t_def)
  have "if q \<le> e then t = real (m * 2 ^ nat (e - q)) else stands_for m (nat (q - e)) t"
  proof (cases "\<bar>x\<bar> = real m * 2 powi e")
    case True
    then have "t = real m * (2 powi e / 2 powi q)" by (simp add: t_def)
    then show ?thesis by (simp add: powi_diff stands_for_def)
  next
    case False
    with assms(1) have s: "odd m" "mb + 3 \<le> bitlen m" "(real m - 1) * 2 powi e < \<bar>x\<bar>" "\<bar>x\<bar> < (real m + 1) * 2 powi e"
      by simp_all
    then have q: "e + 2 \<le> q" by (simp add: q_def)
    then have "2 \<le> nat (q - e)" by linarith
    note q = q this
    have "(real m - 1) * (2 powi e / 2 powi q) < t" "t < (real m + 1) * (2 powi e / 2 powi q)"
      using s(3,4) by (simp_all add: t_def divide_strict_right_mono)
    with s(1) q show ?thesis by (simp add: powi_diff stands_for_def)
  qed
  from round_mag_nearest [OF _ assms(2) q_def k_def this] assms(3) show ?thesis by (simp add: tk)
qed

text \<open>Two signed magnitudes on the scale of the format, seen from \<open>x\<close>.\<close>

lemma signed_distance:
  assumes "s \<longrightarrow> x \<le> 0" "\<not> s \<longrightarrow> 0 \<le> x" "0 < (u::real)" "0 \<le> c"
  shows "\<bar>(if s' then - 1 else 1) * (c * u) - x\<bar> = (if s' = s then \<bar>c - \<bar>x\<bar> / u\<bar> else c + \<bar>x\<bar> / u) * u"
proof -
  have "\<bar>c - \<bar>x\<bar> / u\<bar> * u = \<bar>(c - \<bar>x\<bar> / u) * u\<bar>" using assms(3) by (simp only: abs_mult abs_of_pos)
  also have "(c - \<bar>x\<bar> / u) * u = c * u - \<bar>x\<bar>" using assms(3) by (simp add: left_diff_distrib)
  finally have "\<bar>c - \<bar>x\<bar> / u\<bar> * u = \<bar>c * u - \<bar>x\<bar>\<bar>" .
  moreover have "(c + \<bar>x\<bar> / u) * u = c * u + \<bar>x\<bar>" using assms(3) by (simp add: distrib_right)
  moreover have "0 \<le> c * u" using assms(3,4) by simp
  then have "\<bar>(if s' then - 1 else 1) * (c * u) - x\<bar> = (if s' = s then \<bar>c * u - \<bar>x\<bar>\<bar> else c * u + \<bar>x\<bar>)"
    using assms(1,2) by (cases s; cases s') simp_all
  ultimately show ?thesis by simp
qed

lemma units_0 [simp]: "units mb 0 = 0"
  by (simp add: units_def)

lemma nearest_signed:
  assumes "nearest mb (\<bar>x\<bar> / u) r" "s \<longrightarrow> x \<le> 0" "\<not> s \<longrightarrow> 0 \<le> x" "0 < (u::real)"
    and v: "\<And>s' c. v s' c = (if s' then - 1 else 1) * (real (units mb c) * u)"
  shows "\<bar>v s r - x\<bar> \<le> \<bar>v s' c - x\<bar>"
    "\<bar>v s r - x\<bar> = \<bar>v s' c - x\<bar> \<Longrightarrow> v s' c \<noteq> v s r \<Longrightarrow> even r"
proof -
  let ?X = "\<bar>x\<bar> / u"
  have d: "\<bar>v s' c - x\<bar> = (if s' = s then \<bar>real (units mb c) - ?X\<bar> else real (units mb c) + ?X) * u" for s' c
    unfolding v by (rule signed_distance [OF assms(2-4)]) simp
  have le: "\<bar>real (units mb r) - ?X\<bar> \<le> \<bar>real (units mb c) - ?X\<bar>" for c
    using assms(1) unfolding nearest_def by blast
  have tie: "c \<noteq> r \<Longrightarrow> \<bar>real (units mb c) - ?X\<bar> = \<bar>real (units mb r) - ?X\<bar> \<Longrightarrow> even r" for c
    using assms(1) unfolding nearest_def by blast
  have X: "0 \<le> ?X" using assms(4) by simp
  have zero: "\<bar>real (units mb r) - ?X\<bar> \<le> ?X" using le [of 0] X unfolding units_0 of_nat_0 diff_0 abs_minus_cancel by linarith
  show "\<bar>v s r - x\<bar> \<le> \<bar>v s' c - x\<bar>"
    using le [of c] zero assms(4) by (auto simp: d)
  show "even r" if e: "\<bar>v s r - x\<bar> = \<bar>v s' c - x\<bar>" and ne: "v s' c \<noteq> v s r"
  proof (cases "s' = s")
    case True
    with e assms(4) have "\<bar>real (units mb c) - ?X\<bar> = \<bar>real (units mb r) - ?X\<bar>" by (simp add: d)
    with tie [of c] ne True show ?thesis by blast
  next
    case False
    with e assms(4) have "\<bar>real (units mb r) - ?X\<bar> = real (units mb c) + ?X" by (simp add: d)
    with zero have c: "units mb c = 0" "\<bar>real (units mb 0) - ?X\<bar> = \<bar>real (units mb r) - ?X\<bar>"
      using X assms(4) by auto
    then have "units mb r \<noteq> units mb 0" using ne by (auto simp: v)
    then have "0 \<noteq> r" by blast
    with tie [of 0] c(2) show ?thesis by blast
  qed
qed

lemma round_pack_correct:
  assumes "represents mb (Fin s m e) x" "0 < mb" "2 \<le> eb"
  shows "correct_rounding mb eb x (round_pack mb eb (Fin s m e))"
proof -
  let ?u = "2 powi fp_emin mb eb :: real"
  have "\<exists>r. nearest mb (\<bar>x\<bar> / ?u) r \<and> round_mag mb eb m e = min r (fp_inf mb eb)"
  proof (cases "m = 0")
    case True
    with assms(1) show ?thesis by (auto simp: nearest_def round_mag_def Let_def units_def intro!: exI [of _ 0])
  qed (rule round_mag_represents [OF assms(1,2)])
  then obtain r where r: "nearest mb (\<bar>x\<bar> / ?u) r" "round_mag mb eb m e = min r (fp_inf mb eb)" by blast
  have "(2::nat) ^ 2 \<le> 2 ^ eb" using assms(3) by (intro power_increasing) auto
  then have inf: "0 < fp_inf mb eb" "even (fp_inf mb eb)" using assms(2) by (simp_all add: fp_inf_def)
  have u: "0 < ?u" by simp
  have t: "r < fp_inf mb eb \<longleftrightarrow> \<bar>x\<bar> < fp_threshold mb eb"
    unfolding nearest_overflow [OF r(1) inf] threshold_units [OF assms(3)] using u by (simp add: pos_divide_less_eq)
  have sx: "s \<longrightarrow> x \<le> 0" "\<not> s \<longrightarrow> 0 \<le> x" using assms(1) by auto
  show ?thesis
  proof (cases "\<bar>x\<bar> < fp_threshold mb eb")
    case True
    with t r(2) have p: "round_pack mb eb (Fin s m e) = fp_sign mb eb s + r" "r < fp_inf mb eb" by simp_all
    define v where "v s c = (if s then - 1 else 1) * (real (units mb c) * ?u)" for s c
    note n = nearest_signed [OF r(1) sx u v_def]
    have "even (fp_sign mb eb s + r) = even r" using assms(2) by (simp add: fp_sign_def)
    then have "\<bar>v s r - x\<bar> \<le> \<bar>fp_real (unpack mb eb b) - x\<bar> \<and> (\<bar>v s r - x\<bar> = \<bar>fp_real (unpack mb eb b) - x\<bar>
        \<and> fp_real (unpack mb eb b) \<noteq> v s r \<longrightarrow> even (fp_sign mb eb s + r))"
      if "b < 2 ^ Suc (mb + eb)" "fp_fin (unpack mb eb b)" for b
      using finite_pattern [OF that] n unpack_magnitude(2) by (metis v_def)
    then show ?thesis
      using True unpack_magnitude [OF p(2), of s] unfolding correct_rounding_def p(1) v_def by simp
  next
    case False
    have "(1::real) \<le> 2 ^ mb" by simp
    then have "0 < (2::real) ^ Suc mb - 1 / 2" unfolding power_Suc by linarith
    then have "0 < fp_threshold mb eb" unfolding fp_threshold_def by (rule mult_pos_pos) simp
    with False sx have "s = (x < 0)" by auto
    with False t r(2) show ?thesis
      by (simp add: correct_rounding_def unpack_infinity min_def)
  qed
qed

section \<open>The exact operations\<close>

lemma represents_fp_real: "fp_fin x \<Longrightarrow> represents mb x (fp_real x)"
  by (cases x) (auto simp: abs_mult)

lemma signed_mag_real: "real_of_int (signed_mag s m) = (if s then - 1 else 1) * real m"
  by (simp add: signed_mag_def)

lemma fp_add_exact:
  assumes "fp_fin x" "fp_fin y"
  shows "fp_fin (fp_add x y)" "fp_real (fp_add x y) = fp_real x + fp_real y"
proof -
  obtain s m e t n f where xy: "x = Fin s m e" "y = Fin t n f" using assms by (cases x; cases y) auto
  define g where "g = min e f"
  define v where "v = signed_mag s (m * 2 ^ nat (e - g)) + signed_mag t (n * 2 ^ nat (f - g))"
  have sum: "fp_add x y = (if v = 0 then Fin (s \<and> t) 0 g else Fin (v < 0) (nat \<bar>v\<bar>) g)"
    by (simp add: xy v_def g_def Let_def)
  then show "fp_fin (fp_add x y)" by simp
  have "(2::real) powi e = 2 powi g * 2 ^ nat (e - g)" "(2::real) powi f = 2 powi g * 2 ^ nat (f - g)"
    by (rule powi_shift; simp add: g_def)+
  then have "real_of_int v * 2 powi g = fp_real x + fp_real y"
    by (simp add: xy v_def signed_mag_real distrib_right mult.assoc mult.commute [of "2 powi g"])
  then show "fp_real (fp_add x y) = fp_real x + fp_real y" by (auto simp: sum)
qed

lemma fp_neg_exact: "fp_fin (fp_neg x) = fp_fin x" "fp_real (fp_neg x) = - fp_real x"
  by (cases x; simp)+

lemma fp_mul_exact:
  assumes "fp_fin x" "fp_fin y"
  shows "fp_fin (fp_mul x y)" "fp_real (fp_mul x y) = fp_real x * fp_real y"
proof -
  obtain s m e t n f where "x = Fin s m e" "y = Fin t n f" using assms by (cases x; cases y) auto
  then show "fp_fin (fp_mul x y)" "fp_real (fp_mul x y) = fp_real x * fp_real y"
    by (auto simp: power_int_add)
qed

text \<open>Quotients and roots keep the integer part \<open>q\<close> of a scaled result and a sticky bit for the rest.\<close>

lemma bitlen_ge: "2 ^ k \<le> n \<Longrightarrow> k < bitlen n"
  by (drule le_less_trans [OF _ bitlen_upper]) simp

lemma sticky_represents:
  assumes "s \<longrightarrow> x \<le> 0" "\<not> s \<longrightarrow> 0 \<le> x" "\<bar>x\<bar> = t * 2 powi g" "real q \<le> t" "t < real q + 1"
    and c: "c = (if t = real q then 0 else 1)" and q: "t \<noteq> real q \<Longrightarrow> 2 ^ (mb + 2) \<le> q"
  shows "represents mb (Fin s (2 * q + c) (g - 1)) x"
proof -
  have "(2::real) powi g = 2 powi (g - 1) * 2 ^ nat (g - (g - 1))" by (rule powi_shift) simp
  then have x: "\<bar>x\<bar> = 2 * t * 2 powi (g - 1)" by (simp add: assms(3))
  show ?thesis
  proof (cases "t = real q")
    case True
    with x show ?thesis using assms(1,2) by (simp add: c)
  next
    case False
    then have "2 ^ (mb + 3) \<le> 2 * q + 1" using q by (simp add: numeral_3_eq_3)
    then have "mb + 3 \<le> bitlen (2 * q + 1)" by (rule bitlen_ge [THEN less_imp_le])
    moreover have "(real (2 * q + 1) - 1) * 2 powi (g - 1) < \<bar>x\<bar>" "\<bar>x\<bar> < (real (2 * q + 1) + 1) * 2 powi (g - 1)"
      unfolding x using False assms(4,5) by (intro mult_strict_right_mono; simp)+
    ultimately show ?thesis using False assms(1,2) by (simp add: c)
  qed
qed

lemma fp_div_represents:
  assumes "fp_fin x" "fp_fin y" "fp_real y \<noteq> 0"
  shows "represents mb (fp_div mb x y) (fp_real x / fp_real y)"
proof -
  obtain s m e t n f where xy: "x = Fin s m e" "y = Fin t n f" using assms by (cases x; cases y) auto
  have n: "0 < n" using assms(3) xy by auto
  define k where "k = mb + 3 + bitlen n"
  define M where "M = m * 2 ^ k"
  have div: "fp_div mb x y = Fin (s \<noteq> t) (2 * (M div n) + (if M mod n = 0 then 0 else 1)) (e - f - int k - 1)"
    using n by (simp add: xy k_def M_def Let_def)
  have "real M = real n * real (M div n) + real (M mod n)" by (simp flip: of_nat_mult of_nat_add)
  then have M: "real M / real n = real (M div n) + real (M mod n) / real n" using n by (simp add: field_simps)
  have r: "real (M mod n) / real n < 1" using n by simp
  have "(2::real) powi (e - f) = 2 powi (e - f - int k) * 2 ^ nat (e - f - (e - f - int k))" by (rule powi_shift) simp
  then have "\<bar>fp_real x / fp_real y\<bar> = real M / real n * 2 powi (e - f - int k)"
    by (simp add: xy M_def abs_mult power_int_diff)
  moreover have "2 ^ (mb + 2) \<le> M div n" if "M mod n \<noteq> 0"
  proof -
    have "0 < m" using that by (cases m) (auto simp: M_def)
    have "2 ^ (mb + 2) * n \<le> 2 ^ (mb + 3) * 2 ^ bitlen n"
      using bitlen_upper [of n] by (intro mult_mono power_increasing) auto
    also have "\<dots> \<le> M" using \<open>0 < m\<close> by (simp add: M_def k_def power_add)
    finally show ?thesis using n by (simp add: less_eq_div_iff_mult_less_eq)
  qed
  ultimately show ?thesis
    unfolding div using n M r
    by (intro sticky_represents [where t = "real M / real n"]) (auto simp: xy divide_nonpos_nonneg zero_le_divide_iff divide_le_0_iff)
qed

lemma isqrt_square: "isqrt n * isqrt n \<le> n \<and> n < Suc (isqrt n) * Suc (isqrt n)"
proof (induction n rule: isqrt.induct)
  case (1 n)
  show ?case
  proof (cases "n = 0")
    case False
    define r where "r = isqrt (n div 4)"
    have "r * r \<le> n div 4" "n div 4 < Suc r * Suc r" using 1 False by (simp_all add: r_def)
    then have "4 * (r * r) \<le> n" "n < 4 * (Suc r * Suc r)" by linarith+
    moreover have "isqrt n = isqrt_step n r" using False by (simp add: isqrt.simps [of n] r_def)
    ultimately show ?thesis by (auto simp: isqrt_step_def algebra_simps)
  qed (simp add: isqrt.simps)
qed

lemma isqrt_real: "real (isqrt n) \<le> sqrt (real n)" "sqrt (real n) < real (isqrt n) + 1"
  "isqrt n * isqrt n = n \<longleftrightarrow> sqrt (real n) = real (isqrt n)"
proof -
  show "real (isqrt n) \<le> sqrt (real n)"
    using isqrt_square [of n] by (intro real_le_rsqrt) (simp add: power2_eq_square flip: of_nat_mult)
  have "real n < real (Suc (isqrt n) * Suc (isqrt n))" using isqrt_square [of n] by (simp only: of_nat_less_iff)
  then show "sqrt (real n) < real (isqrt n) + 1"
    by (intro real_less_lsqrt) (simp_all add: power2_eq_square algebra_simps)
  show "isqrt n * isqrt n = n \<longleftrightarrow> sqrt (real n) = real (isqrt n)"
    by (metis of_nat_0_le_iff of_nat_eq_iff of_nat_mult real_sqrt_mult_self abs_of_nat real_sqrt_abs2)
qed

lemma sqrt_powi: "even g \<Longrightarrow> sqrt (2 powi g) = 2 powi (g div 2)"
proof -
  assume "even g"
  then have "(2::real) powi g = 2 powi (g div 2) * 2 powi (g div 2)" by (simp flip: power_int_add)
  then show ?thesis by simp
qed

lemma fp_sqrt_represents:
  assumes "fp_fin x" "0 \<le> fp_real x"
  shows "represents mb (fp_sqrt mb x) (sqrt (fp_real x))"
proof -
  obtain s m e where x: "x = Fin s m e" using assms by (cases x) auto
  show ?thesis
  proof (cases "m = 0")
    case True
    then show ?thesis by (simp add: x)
  next
    case False
    have "0 < real m * 2 powi e" using False by simp
    with assms(2) x have s: "\<not> s" by auto
    define k where "k = 2 * (mb + 4) + (if even e then 0 else 1)"
    define n where "n = m * 2 ^ k"
    have root: "fp_sqrt mb x = sqrt_sticky n (isqrt n) (e - int k)"
      using False s by (simp add: x k_def n_def Let_def)
    have "(2::real) powi e = 2 powi (e - int k) * 2 ^ nat (e - (e - int k))" by (rule powi_shift) simp
    then have "fp_real x = real n * 2 powi (e - int k)" using s by (simp add: x n_def)
    moreover have "even (e - int k)" by (simp add: k_def)
    ultimately have v: "sqrt (fp_real x) = sqrt (real n) * 2 powi ((e - int k) div 2)"
      by (simp add: real_sqrt_mult sqrt_powi)
    have "2 ^ (mb + 2) \<le> isqrt n"
    proof (rule ccontr)
      assume "\<not> 2 ^ (mb + 2) \<le> isqrt n"
      then have "Suc (isqrt n) * Suc (isqrt n) \<le> 2 ^ (mb + 2) * 2 ^ (mb + 2)" by (intro mult_mono) auto
      also have "\<dots> = 2 ^ (2 * (mb + 2))" by (simp flip: power_add)
      also have "\<dots> \<le> 2 ^ k" by (intro power_increasing) (auto simp: k_def)
      also have "\<dots> \<le> n" using False by (simp add: n_def)
      finally show False using isqrt_square [of n] by simp
    qed
    then show ?thesis
      unfolding root sqrt_sticky_def using isqrt_real [of n]
      by (intro sticky_represents [OF _ _ _ isqrt_real(1,2)]) (auto simp: v)
  qed
qed

section \<open>The arithmetic instructions\<close>

text \<open>The number an operation of \<open>exec_op_fp\<close> computes, where it is a number.\<close>

definition exact_op :: "u32 \<Rightarrow> real \<Rightarrow> real \<Rightarrow> real option" where
  "exact_op funct5 x y =
     (if funct5 = 0 then Some (x + y)
      else if funct5 = 1 then Some (x - y)
      else if funct5 = 2 then Some (x * y)
      else if funct5 = 3 then (if y = 0 then None else Some (x / y))
      else if funct5 = 0x0B then (if x < 0 then None else Some (sqrt x))
      else None)"

definition fp_op :: "nat \<Rightarrow> u32 \<Rightarrow> fp \<Rightarrow> fp \<Rightarrow> fp" where
  "fp_op mb funct5 x y =
     (if funct5 = 0 then fp_add x y else if funct5 = 1 then fp_sub x y else if funct5 = 2 then fp_mul x y
      else if funct5 = 3 then fp_div mb x y else fp_sqrt mb x)"

lemma fp_op_represents:
  assumes "fp_fin x" "funct5 \<noteq> 0x0B \<longrightarrow> fp_fin y" "exact_op funct5 (fp_real x) (fp_real y) = Some v"
  shows "represents mb (fp_op mb funct5 x y) v"
  using assms fp_add_exact [of x y] fp_add_exact [of x "fp_neg y"] fp_mul_exact [of x y]
    represents_fp_real [of "fp_add x y" mb] represents_fp_real [of "fp_sub x y" mb]
    represents_fp_real [of "fp_mul x y" mb] fp_div_represents [of x y mb] fp_sqrt_represents [of x mb]
  by (simp add: exact_op_def fp_op_def fp_sub_def fp_neg_exact split: if_splits)

lemma fp_op_correct:
  assumes "fp_fin x" "funct5 \<noteq> 0x0B \<longrightarrow> fp_fin y" "exact_op funct5 (fp_real x) (fp_real y) = Some v" "0 < mb" "2 \<le> eb"
  shows "correct_rounding mb eb v (round_pack mb eb (fp_op mb funct5 x y))"
proof -
  note r = fp_op_represents [OF assms(1-3), of mb]
  then obtain s m e where z: "fp_op mb funct5 x y = Fin s m e" by (cases "fp_op mb funct5 x y") auto
  show ?thesis using round_pack_correct [OF r [unfolded z] assms(4,5)] z by simp
qed

lemma correct_rounding_not_nan: "correct_rounding mb eb x r \<Longrightarrow> unpack mb eb r \<noteq> NaN"
  by (auto simp: correct_rounding_def split: if_splits)

text \<open>The operation code of an instruction is \<open>funct7 = funct5 * 4 + fmt\<close>.\<close>

definition arith_codes :: "u32 set" where
  "arith_codes = {0, 1, 2, 3, 0x0B}"

lemmas run_arith_simps = fcvt_simps arith_s_def arith_d_def fp_op_def f64_add_def f64_sub_def f64_mul_def f64_div_def
  f64_sqrt_def f32_add_def f32_sub_def f32_mul_def f32_div_def f32_sqrt_def

lemma run_arith:
  assumes "rd < 32" "r1 < 32" "r2 < 32" "rm < 8" "f5 \<in> arith_codes"
  shows "execute_inst32 E (encode_r 0x53 rd rm r1 r2 (f5 * 4 + 1)) s = Some (Inr (), put_freg (next_inst s) rd
      (canon64 (f64_of (fp_op 52 f5 (f64_val (fregs (cpu s) r1)) (f64_val (fregs (cpu s) r2))))))"
    "execute_inst32 E (encode_r 0x53 rd rm r1 r2 (f5 * 4)) s = Some (Inr (), put_freg (next_inst s) rd
      (box (f32_of (fp_op 23 f5 (f32_val (unbox (fregs (cpu s) r1))) (f32_val (unbox (fregs (cpu s) r2)))))))"
proof -
  consider "f5 = 0" | "f5 = 1" | "f5 = 2" | "f5 = 3" | "f5 = 0x0B" using assms(5) by (auto simp: arith_codes_def)
  then show "execute_inst32 E (encode_r 0x53 rd rm r1 r2 (f5 * 4 + 1)) s = Some (Inr (), put_freg (next_inst s) rd
      (canon64 (f64_of (fp_op 52 f5 (f64_val (fregs (cpu s) r1)) (f64_val (fregs (cpu s) r2))))))"
    by cases (use assms(1-4) in \<open>simp_all add: run_arith_simps\<close>)
  consider "f5 = 0" | "f5 = 1" | "f5 = 2" | "f5 = 3" | "f5 = 0x0B" using assms(5) by (auto simp: arith_codes_def)
  then show "execute_inst32 E (encode_r 0x53 rd rm r1 r2 (f5 * 4)) s = Some (Inr (), put_freg (next_inst s) rd
      (box (f32_of (fp_op 23 f5 (f32_val (unbox (fregs (cpu s) r1))) (f32_val (unbox (fregs (cpu s) r2)))))))"
    by cases (use assms(1-4) in \<open>simp_all add: run_arith_simps\<close>)
qed

lemma f32_val_of: "f32_val (f32_of x) = unpack 23 8 (round_pack 23 8 x)"
  using round_pack_bound [of 23 8 x] by (simp add: f32_val_def f32_of_def unat_of_nat)

lemma unat_of: "unat (f64_of x) = round_pack 52 11 x" "unat (f32_of x) = round_pack 23 8 x"
  using round_pack_bound [of 52 11 x] round_pack_bound [of 23 8 x] by (simp_all add: f64_of_def f32_of_def unat_of_nat)

text \<open>The operations that IEEE 754 calls invalid, and those with a NaN operand.\<close>

fun fp_zero :: "fp \<Rightarrow> bool" where
  "fp_zero (Fin s m e) = (m = 0)"
| "fp_zero x = False"

definition invalid_op :: "u32 \<Rightarrow> fp \<Rightarrow> fp \<Rightarrow> bool" where
  "invalid_op f5 x y \<longleftrightarrow> x = NaN \<or> (f5 \<noteq> 0x0B \<and> y = NaN)
     \<or> f5 = 0 \<and> (\<exists>s. x = Inf s \<and> y = Inf (\<not> s))
     \<or> f5 = 1 \<and> (\<exists>s. x = Inf s \<and> y = Inf s)
     \<or> f5 = 2 \<and> (fp_zero x \<and> (\<exists>s. y = Inf s) \<or> fp_zero y \<and> (\<exists>s. x = Inf s))
     \<or> f5 = 3 \<and> (fp_zero x \<and> fp_zero y \<or> (\<exists>s t. x = Inf s \<and> y = Inf t))
     \<or> f5 = 0x0B \<and> (x = Inf True \<or> \<not> fp_zero x \<and> (\<exists>m e. x = Fin True m e))"

lemma fp_op_nan: "f5 \<in> arith_codes \<Longrightarrow> fp_op mb f5 x y = NaN \<longleftrightarrow> invalid_op f5 x y"
  unfolding arith_codes_def
  by (cases x; cases y) (auto simp: fp_op_def invalid_op_def fp_sub_def Let_def sqrt_sticky_def)

lemma round_pack_nan:
  assumes "0 < mb" "2 \<le> eb"
  shows "unpack mb eb (round_pack mb eb z) = NaN \<longleftrightarrow> z = NaN"
proof (cases z)
  case NaN
  have h: "(2::nat) ^ (mb - 1) < 2 ^ mb" using assms(1) by (intro power_strict_increasing) auto
  have "unpack mb eb (fp_sign mb eb False + ((2 ^ eb - 1) * 2 ^ mb + 2 ^ (mb - 1))) = NaN"
    by (subst unpack_parts [OF h]) simp_all
  then show ?thesis using NaN by (simp add: fp_sign_def fp_inf_def)
next
  case (Inf s)
  then show ?thesis using unpack_infinity [of mb eb s] by simp
next
  case (Fin s m e)
  have "correct_rounding mb eb (fp_real z) (round_pack mb eb z)"
    unfolding Fin by (rule round_pack_correct [OF represents_self assms])
  then show ?thesis using Fin by (simp only: correct_rounding_not_nan) simp
qed

text \<open>
  What IEEE 754 asks of the result \<open>r\<close> of an operation: the canonical NaN of an invalid operation and of no other,
  the correctly rounded result of an operation on numbers, an infinity from a division by zero.
\<close>

fun fp_negative :: "fp \<Rightarrow> bool" where
  "fp_negative (Fin s m e) = s"
| "fp_negative (Inf s) = s"
| "fp_negative NaN = False"

definition ieee_result :: "nat \<Rightarrow> nat \<Rightarrow> u32 \<Rightarrow> fp \<Rightarrow> fp \<Rightarrow> nat \<Rightarrow> bool" where
  "ieee_result mb eb f5 x y r \<longleftrightarrow>
     (invalid_op f5 x y \<longrightarrow> r = fp_inf mb eb + 2 ^ (mb - 1))
     \<and> (\<not> invalid_op f5 x y \<longrightarrow> unpack mb eb r \<noteq> NaN)
     \<and> (\<forall>v. fp_fin x \<longrightarrow> (f5 \<noteq> 0x0B \<longrightarrow> fp_fin y) \<longrightarrow> exact_op f5 (fp_real x) (fp_real y) = Some v
         \<longrightarrow> correct_rounding mb eb v r)
     \<and> (f5 = 3 \<longrightarrow> fp_fin x \<longrightarrow> \<not> fp_zero x \<longrightarrow> fp_zero y \<longrightarrow> unpack mb eb r = Inf (fp_negative x \<noteq> fp_negative y))"

lemma fp_op_ieee:
  assumes "f5 \<in> arith_codes" "0 < mb" "2 \<le> eb"
  shows "ieee_result mb eb f5 x y (round_pack mb eb (fp_op mb f5 x y))"
proof -
  have "fp_op mb 3 x y = Inf (fp_negative x \<noteq> fp_negative y)" if "fp_fin x" "\<not> fp_zero x" "fp_zero y"
    using that by (cases x; cases y) (auto simp: fp_op_def)
  then show ?thesis
    using round_pack_nan [OF assms(2,3), of "fp_op mb f5 x y"] fp_op_nan [OF assms(1), of mb x y]
      fp_op_correct [OF _ _ _ assms(2,3)] unpack_infinity [of mb eb]
    by (auto simp: ieee_result_def)
qed

lemma stored_unchanged: "canon64 (f64_of z) = f64_of z" "box (f32_of z) = nan_box (f32_of z)"
proof -
  have "f64_is_nan (f64_of z) \<longleftrightarrow> z = NaN" "f32_is_nan (f32_of z) \<longleftrightarrow> z = NaN"
    using round_pack_nan [of 52 11 z] round_pack_nan [of 23 8 z] by (simp_all add: is_nan_unpack f64_val_of f32_val_of)
  then show "canon64 (f64_of z) = f64_of z" "box (f32_of z) = nan_box (f32_of z)"
    by (simp_all add: canon64_def box_def f64_of_def f32_of_def fp_inf_def NAN_F64_def nan_box_def)
qed

lemma arith_ieee:
  assumes "rd < 32" "r1 < 32" "r2 < 32" "rm < 8" "f5 \<in> arith_codes"
  shows "\<exists>r. execute_inst32 E (encode_r 0x53 rd rm r1 r2 (f5 * 4 + 1)) s = Some (Inr (), put_freg (next_inst s) rd r)
      \<and> ieee_result 52 11 f5 (f64_val (fregs (cpu s) r1)) (f64_val (fregs (cpu s) r2)) (unat r)"
    "\<exists>r. execute_inst32 E (encode_r 0x53 rd rm r1 r2 (f5 * 4)) s = Some (Inr (), put_freg (next_inst s) rd (nan_box r))
      \<and> ieee_result 23 8 f5 (f32_val (unbox (fregs (cpu s) r1))) (f32_val (unbox (fregs (cpu s) r2))) (unat r)"
proof -
  have r: "ieee_result 52 11 f5 x y (unat (f64_of (fp_op 52 f5 x y)))"
    "ieee_result 23 8 f5 x y (unat (f32_of (fp_op 23 f5 x y)))" for x y
    unfolding unat_of by (rule fp_op_ieee [OF assms(5)]; simp)+
  show "\<exists>r. execute_inst32 E (encode_r 0x53 rd rm r1 r2 (f5 * 4 + 1)) s = Some (Inr (), put_freg (next_inst s) rd r)
      \<and> ieee_result 52 11 f5 (f64_val (fregs (cpu s) r1)) (f64_val (fregs (cpu s) r2)) (unat r)"
    using r(1) unfolding run_arith(1) [OF assms] stored_unchanged by blast
  show "\<exists>r. execute_inst32 E (encode_r 0x53 rd rm r1 r2 (f5 * 4)) s = Some (Inr (), put_freg (next_inst s) rd (nan_box r))
      \<and> ieee_result 23 8 f5 (f32_val (unbox (fregs (cpu s) r1))) (f32_val (unbox (fregs (cpu s) r2))) (unat r)"
    using r(2) unfolding run_arith(2) [OF assms] stored_unchanged by blast
qed

end
