(* ===== verification/Float_Convert.thy ===== *)
theory Float_Convert
  imports Float_Round
begin

text \<open>
  Comparisons and conversions on the numbers that patterns stand for: \<open>flt\<close>, \<open>fle\<close> and \<open>feq\<close> compare real numbers
  and infinities, conversions to integers truncate towards zero and saturate, conversions from integers and from
  doubles to singles are correctly rounded.
\<close>

section \<open>Comparison\<close>

lemma signed_mag_scaled:
  assumes "g \<le> e"
  shows "real_of_int (signed_mag s (m * 2 ^ nat (e - g))) * 2 powi g = fp_real (Fin s m e)"
  using powi_shift [OF assms] by (simp add: signed_mag_real)

lemma fp_compare_real:
  assumes "fp_fin x" "fp_fin y"
  shows "fp_less x y \<longleftrightarrow> fp_real x < fp_real y" "fp_eq x y \<longleftrightarrow> fp_real x = fp_real y"
proof -
  obtain s m e t n f where xy: "x = Fin s m e" "y = Fin t n f" using assms by (cases x; cases y) auto
  define g where "g = min e f"
  define a b where ab: "a = signed_mag s (m * 2 ^ nat (e - g))" "b = signed_mag t (n * 2 ^ nat (f - g))"
  have r: "fp_real x = real_of_int a * 2 powi g" "fp_real y = real_of_int b * 2 powi g"
    unfolding xy ab by (simp_all only: g_def signed_mag_scaled min.cobounded1 min.cobounded2)
  have c: "fp_less x y \<longleftrightarrow> a < b" "fp_eq x y \<longleftrightarrow> a = b" by (simp_all add: xy ab g_def Let_def)
  show "fp_less x y \<longleftrightarrow> fp_real x < fp_real y" "fp_eq x y \<longleftrightarrow> fp_real x = fp_real y" unfolding c r by simp_all
qed

text \<open>The order of numbers and infinities, to which NaN does not belong.\<close>

definition number_less :: "fp \<Rightarrow> fp \<Rightarrow> bool" where
  "number_less x y \<longleftrightarrow> x \<noteq> NaN \<and> y \<noteq> NaN \<and>
     (x = Inf True \<and> y \<noteq> Inf True \<or> y = Inf False \<and> x \<noteq> Inf False \<or> fp_fin x \<and> fp_fin y \<and> fp_real x < fp_real y)"

definition number_eq :: "fp \<Rightarrow> fp \<Rightarrow> bool" where
  "number_eq x y \<longleftrightarrow> x \<noteq> NaN \<and> y \<noteq> NaN \<and> (fp_fin x \<and> fp_fin y \<and> fp_real x = fp_real y \<or> \<not> fp_fin x \<and> x = y)"

lemma fp_less_number: "fp_less x y = number_less x y"
  using fp_compare_real(1) [of x y] by (cases x; cases y) (auto simp: number_less_def)

lemma fp_eq_number: "fp_eq x y = number_eq x y"
  using fp_compare_real(2) [of x y] by (cases x; cases y) (auto simp: number_eq_def)

definition compare_result :: "u32 \<Rightarrow> fp \<Rightarrow> fp \<Rightarrow> bool" where
  "compare_result funct3 x y \<longleftrightarrow>
     (if funct3 = 0 then number_less x y \<or> number_eq x y else if funct3 = 1 then number_less x y else number_eq x y)"

lemma run_compare:
  assumes "rd < 32" "r1 < 32" "r2 < 32" "funct3 \<in> {0, 1, 2}"
  shows "execute_inst32 E (encode_r 0x53 rd funct3 r1 r2 0x51) s = Some (Inr (), put_xreg (next_inst s) rd
      (bool_word (compare_result funct3 (f64_val (fregs (cpu s) r1)) (f64_val (fregs (cpu s) r2)))))"
    "execute_inst32 E (encode_r 0x53 rd funct3 r1 r2 0x50) s = Some (Inr (), put_xreg (next_inst s) rd
      (bool_word (compare_result funct3 (f32_val (unbox (fregs (cpu s) r1))) (f32_val (unbox (fregs (cpu s) r2))))))"
proof -
  consider "funct3 = 0" | "funct3 = 1" | "funct3 = 2" using assms(4) by blast
  then show "execute_inst32 E (encode_r 0x53 rd funct3 r1 r2 0x51) s = Some (Inr (), put_xreg (next_inst s) rd
      (bool_word (compare_result funct3 (f64_val (fregs (cpu s) r1)) (f64_val (fregs (cpu s) r2)))))"
    by cases (use assms(1-3) in \<open>simp_all add: fcvt_simps cmp_d_def fp_le_def compare_result_def fp_less_number fp_eq_number\<close>)
  consider "funct3 = 0" | "funct3 = 1" | "funct3 = 2" using assms(4) by blast
  then show "execute_inst32 E (encode_r 0x53 rd funct3 r1 r2 0x50) s = Some (Inr (), put_xreg (next_inst s) rd
      (bool_word (compare_result funct3 (f32_val (unbox (fregs (cpu s) r1))) (f32_val (unbox (fregs (cpu s) r2))))))"
    by cases (use assms(1-3) in \<open>simp_all add: fcvt_simps cmp_s_def fp_le_def compare_result_def fp_less_number fp_eq_number\<close>)
qed

section \<open>Conversions\<close>

definition truncate :: "real \<Rightarrow> int" where
  "truncate x = (if x < 0 then \<lceil>x\<rceil> else \<lfloor>x\<rfloor>)"

text \<open>The number as an integer of the range \<open>lo..hi\<close>, where NaN becomes 0.\<close>

definition to_integer :: "int \<Rightarrow> int \<Rightarrow> fp \<Rightarrow> int" where
  "to_integer lo hi x =
     (case x of NaN \<Rightarrow> 0 | Inf s \<Rightarrow> if s then lo else hi | Fin s m e \<Rightarrow> max lo (min hi (truncate (fp_real x))))"

lemma trunc_mag_floor: "int (trunc_mag m e) = \<lfloor>real m * 2 powi e\<rfloor>"
proof (cases "0 \<le> e")
  case True
  then have "(2::real) powi e = 2 ^ nat e" by (simp add: power_int_def)
  then have "real m * 2 powi e = real_of_int (int (m * 2 ^ nat e))" by simp
  with True show ?thesis by (simp only: trunc_mag_def floor_of_int if_True)
next
  case False
  then have "real m * 2 powi e = real m / real (2 ^ nat (- e))" by (simp add: power_int_def field_simps power_inverse)
  then have "\<lfloor>real m * 2 powi e\<rfloor> = int (m div 2 ^ nat (- e))" by (simp only: floor_divide_of_nat_eq)
  with False show ?thesis by (simp add: trunc_mag_def)
qed

lemma truncate_signed: "0 \<le> x \<Longrightarrow> truncate x = \<lfloor>x\<rfloor>" "0 \<le> x \<Longrightarrow> truncate (- x) = - \<lfloor>x\<rfloor>"
  by (auto simp: truncate_def ceiling_minus dest: antisym)

lemma signed_trunc: "signed_mag s (trunc_mag m e) = truncate (fp_real (Fin s m e))"
proof -
  have "0 \<le> real m * 2 powi e" by simp
  from truncate_signed [OF this] show ?thesis by (simp add: signed_mag_def trunc_mag_floor)
qed

lemma fp_to_int_real: "fp_to_int lo hi x = to_integer lo hi x"
  by (cases x) (simp_all add: to_integer_def signed_trunc del: fp_real.simps)

lemma run_fcvt_single:
  assumes "rd < 32" "r1 < 32" "rm < 8"
  shows "execute_inst32 E (encode_r 0x53 rd rm r1 0 0x60) s
      = Some (Inr (), put_xreg (next_inst s) rd (f32_to_i32 (unbox (fregs (cpu s) r1))))"
    "execute_inst32 E (encode_r 0x53 rd rm r1 1 0x60) s
      = Some (Inr (), put_xreg (next_inst s) rd (f32_to_u32 (unbox (fregs (cpu s) r1))))"
    "execute_inst32 E (encode_r 0x53 rd rm r1 0 0x68) s
      = Some (Inr (), put_freg (next_inst s) rd (box (i32_to_f32 (xreg s r1))))"
    "execute_inst32 E (encode_r 0x53 rd rm r1 1 0x68) s
      = Some (Inr (), put_freg (next_inst s) rd (box (u32_to_f32 (xreg s r1))))"
  using assms by (simp_all add: fcvt_simps)

lemma fp_of_int_correct:
  assumes "0 < mb" "2 \<le> eb"
  shows "correct_rounding mb eb (real_of_int i) (round_pack mb eb (fp_of_int i))"
proof -
  have "fp_real (fp_of_int i) = real_of_int i" by (simp add: fp_of_int_def)
  with round_pack_correct [OF represents_self assms, of "i < 0" "nat \<bar>i\<bar>" 0] show ?thesis
    by (simp only: fp_of_int_def)
qed

lemma fp_narrow_correct:
  assumes "fp_fin x" "0 < mb" "2 \<le> eb"
  shows "correct_rounding mb eb (fp_real x) (round_pack mb eb x)"
proof -
  obtain s m e where x: "x = Fin s m e" using assms(1) by (cases x) auto
  show ?thesis unfolding x by (rule round_pack_correct [OF represents_self assms(2,3)])
qed

lemma fcvt_to_integer:
  assumes "rd < 32" "r1 < 32" "rm < 8"
    and i: "i = to_integer (- (2 ^ 31)) (2 ^ 31 - 1)" and u: "u = to_integer 0 (2 ^ 32 - 1)"
  shows "execute_inst32 E (encode_r 0x53 rd rm r1 0 0x61) s
      = Some (Inr (), put_xreg (next_inst s) rd (word_of_int (i (f64_val (fregs (cpu s) r1)))))"
    "execute_inst32 E (encode_r 0x53 rd rm r1 1 0x61) s
      = Some (Inr (), put_xreg (next_inst s) rd (word_of_int (u (f64_val (fregs (cpu s) r1)))))"
    "execute_inst32 E (encode_r 0x53 rd rm r1 0 0x60) s
      = Some (Inr (), put_xreg (next_inst s) rd (word_of_int (i (f32_val (unbox (fregs (cpu s) r1))))))"
    "execute_inst32 E (encode_r 0x53 rd rm r1 1 0x60) s
      = Some (Inr (), put_xreg (next_inst s) rd (word_of_int (u (f32_val (unbox (fregs (cpu s) r1))))))"
  unfolding run_fcvt [OF assms(1-3)] run_fcvt_single [OF assms(1-3)] i u
  by (simp_all only: f64_to_i32_def f64_to_u32_def f32_to_i32_def f32_to_u32_def fp_to_int_real)

lemma fcvt_to_float:
  assumes "rd < 32" "r1 < 32" "rm < 8"
  shows "\<exists>r. execute_inst32 E (encode_r 0x53 rd rm r1 0 0x69) s = Some (Inr (), put_freg (next_inst s) rd r)
      \<and> correct_rounding 52 11 (real_of_int (sint (xreg s r1))) (unat r)"
    "\<exists>r. execute_inst32 E (encode_r 0x53 rd rm r1 1 0x69) s = Some (Inr (), put_freg (next_inst s) rd r)
      \<and> correct_rounding 52 11 (real_of_int (uint (xreg s r1))) (unat r)"
    "\<exists>r. execute_inst32 E (encode_r 0x53 rd rm r1 0 0x68) s = Some (Inr (), put_freg (next_inst s) rd (nan_box r))
      \<and> correct_rounding 23 8 (real_of_int (sint (xreg s r1))) (unat r)"
    "\<exists>r. execute_inst32 E (encode_r 0x53 rd rm r1 1 0x68) s = Some (Inr (), put_freg (next_inst s) rd (nan_box r))
      \<and> correct_rounding 23 8 (real_of_int (uint (xreg s r1))) (unat r)"
    "fp_fin (f64_val (fregs (cpu s) r1)) \<Longrightarrow>
      \<exists>r. execute_inst32 E (encode_r 0x53 rd rm r1 1 0x20) s = Some (Inr (), put_freg (next_inst s) rd (nan_box r))
      \<and> correct_rounding 23 8 (fp_real (f64_val (fregs (cpu s) r1))) (unat r)"
  unfolding run_fcvt [OF assms] run_fcvt_single [OF assms] i32_to_f64_def u32_to_f64_def i32_to_f32_def u32_to_f32_def
    f64_to_f32_def stored_unchanged
  by (rule exI, rule conjI, rule refl, simp only: unat_of, rule fp_of_int_correct fp_narrow_correct; simp)+

end
