(* ===== verification/Float_Madd.thy ===== *)
theory Float_Madd
  imports Float_Round
begin

text \<open>
  The multiply-add instructions of both formats. Each is two IEEE operations, a product and a sum or difference
  of that rounded product, and for the negated forms a change of sign at the end.
\<close>

definition madd_ops :: "u32 set" where
  "madd_ops = {0x43, 0x47, 0x4B, 0x4F}"

text \<open>The second operation, by its code in \<^const>\<open>fp_op\<close>, and whether the result is negated.\<close>

definition madd_code :: "u32 \<Rightarrow> u32" where
  "madd_code opcode = (if opcode = 0x43 \<or> opcode = 0x4F then 0 else 1)"

definition madd_negates :: "u32 \<Rightarrow> bool" where
  "madd_negates opcode \<longleftrightarrow> opcode = 0x4B \<or> opcode = 0x4F"

lemmas run_madd_simps = execute_inst32_def dispatch32_def exec_rv32fd_def keep_pc_def and_then_def decode_encode_r4 field_encode_r4(6)
  exec_madd_def madd_s_def madd_d_def exec_simps Let_def ok_def set_pc_def next_inst_def put_freg_def madd_code_def
  madd_negates_def fp_op_def f32_add_def f32_sub_def f32_mul_def f64_add_def f64_sub_def f64_mul_def

lemma run_madd:
  assumes "rd < 32" "r1 < 32" "r2 < 32" "r3 < 32" "rm < 8" "opcode \<in> madd_ops"
    "p = f64_of (fp_op 52 2 (f64_val (fregs (cpu s) r1)) (f64_val (fregs (cpu s) r2)))"
    "q = f64_of (fp_op 52 (madd_code opcode) (f64_val p) (f64_val (fregs (cpu s) r3)))"
    "p' = f32_of (fp_op 23 2 (f32_val (unbox (fregs (cpu s) r1))) (f32_val (unbox (fregs (cpu s) r2))))"
    "q' = f32_of (fp_op 23 (madd_code opcode) (f32_val p') (f32_val (unbox (fregs (cpu s) r3))))"
  shows "execute_inst32 E (encode_r4 opcode rd rm r1 r2 r3 1) s = Some (Inr (), put_freg (next_inst s) rd
      (canon64 (if madd_negates opcode then f64_neg q else q)))"
    "execute_inst32 E (encode_r4 opcode rd rm r1 r2 r3 0) s = Some (Inr (), put_freg (next_inst s) rd
      (box (if madd_negates opcode then f32_neg q' else q')))"
proof -
  consider "opcode = 0x43" | "opcode = 0x47" | "opcode = 0x4B" | "opcode = 0x4F"
    using assms(6) by (auto simp: madd_ops_def)
  then show "execute_inst32 E (encode_r4 opcode rd rm r1 r2 r3 1) s = Some (Inr (), put_freg (next_inst s) rd
      (canon64 (if madd_negates opcode then f64_neg q else q)))"
    by cases (use assms(1-5) in \<open>simp_all add: assms(7,8) run_madd_simps\<close>)
  consider "opcode = 0x43" | "opcode = 0x47" | "opcode = 0x4B" | "opcode = 0x4F"
    using assms(6) by (auto simp: madd_ops_def)
  then show "execute_inst32 E (encode_r4 opcode rd rm r1 r2 r3 0) s = Some (Inr (), put_freg (next_inst s) rd
      (box (if madd_negates opcode then f32_neg q' else q')))"
    by cases (use assms(1-5) in \<open>simp_all add: assms(9,10) run_madd_simps\<close>)
qed

lemma madd_ieee:
  assumes "rd < 32" "r1 < 32" "r2 < 32" "r3 < 32" "rm < 8" "opcode \<in> madd_ops"
  shows "\<exists>p q. execute_inst32 E (encode_r4 opcode rd rm r1 r2 r3 1) s = Some (Inr (), put_freg (next_inst s) rd
        (canon64 (if madd_negates opcode then f64_neg q else q)))
      \<and> ieee_result 52 11 2 (f64_val (fregs (cpu s) r1)) (f64_val (fregs (cpu s) r2)) (unat p)
      \<and> ieee_result 52 11 (madd_code opcode) (f64_val p) (f64_val (fregs (cpu s) r3)) (unat q)"
    "\<exists>p q. execute_inst32 E (encode_r4 opcode rd rm r1 r2 r3 0) s = Some (Inr (), put_freg (next_inst s) rd
        (box (if madd_negates opcode then f32_neg q else q)))
      \<and> ieee_result 23 8 2 (f32_val (unbox (fregs (cpu s) r1))) (f32_val (unbox (fregs (cpu s) r2))) (unat p)
      \<and> ieee_result 23 8 (madd_code opcode) (f32_val p) (f32_val (unbox (fregs (cpu s) r3))) (unat q)"
proof -
  have c: "2 \<in> arith_codes" "madd_code opcode \<in> arith_codes" by (simp_all add: arith_codes_def madd_code_def)
  have r: "ieee_result 52 11 f x y (unat (f64_of (fp_op 52 f x y)))"
    "ieee_result 23 8 f x y (unat (f32_of (fp_op 23 f x y)))" if "f \<in> arith_codes" for f x y
    unfolding unat_of by (rule fp_op_ieee [OF that]; simp)+
  note run = run_madd [OF assms refl refl refl refl]
  show "\<exists>p q. execute_inst32 E (encode_r4 opcode rd rm r1 r2 r3 1) s = Some (Inr (), put_freg (next_inst s) rd
        (canon64 (if madd_negates opcode then f64_neg q else q)))
      \<and> ieee_result 52 11 2 (f64_val (fregs (cpu s) r1)) (f64_val (fregs (cpu s) r2)) (unat p)
      \<and> ieee_result 52 11 (madd_code opcode) (f64_val p) (f64_val (fregs (cpu s) r3)) (unat q)"
    using run(1) r(1) [OF c(1)] r(1) [OF c(2)] by blast
  show "\<exists>p q. execute_inst32 E (encode_r4 opcode rd rm r1 r2 r3 0) s = Some (Inr (), put_freg (next_inst s) rd
        (box (if madd_negates opcode then f32_neg q else q)))
      \<and> ieee_result 23 8 2 (f32_val (unbox (fregs (cpu s) r1))) (f32_val (unbox (fregs (cpu s) r2))) (unat p)
      \<and> ieee_result 23 8 (madd_code opcode) (f32_val p) (f32_val (unbox (fregs (cpu s) r3))) (unat q)"
    using run(2) r(2) [OF c(1)] r(2) [OF c(2)] by blast
qed

end
