(* ===== verification/Spec2Isabelle.thy ===== *)
theory Spec2Isabelle
  imports Samples Assemble Devices Float_Convert Float_Madd
begin

text \<open>
  A verified model of riscv-rs, an emulator for RV32IMAFDC programs that runs in the browser (as WebAssembly)
  and natively.

  \<^bold>\<open>The program.\<close> A \<open>Simulator\<close> (\<open>src/lib.rs\<close>) holds a processor (\<open>src/cpu.rs\<close>), a guest memory
  (\<open>src/memory.rs\<close>) and a symbol table. It loads an ELF file or a raw image, with options from the command line
  (\<open>src/cli.rs\<close>), runs it in slices, and offers debugger commands and a listing (\<open>src/disasm.rs\<close>). The processor
  fetches through the memory, decodes (\<open>src/inst.rs\<close>, \<open>src/utils.rs\<close>), executes, and hands \<open>ecall\<close> to the system
  calls (\<open>src/syscall.rs\<close>). Input, output, devices, interrupts and the custom system-call handler belong to the
  host (\<open>src/host_imports.rs\<close>).

  \<^bold>\<open>How the code is modelled.\<close> Every Rust function is a HOL function on explicit state. The state is the record
  \<open>machine\<close>: the processor \<open>cpu\<close> (\<open>Cpu\<close>), the memory \<open>mem\<close> (\<open>Memory\<close>) and the host state \<open>host\<close>;
  \<open>simulator\<close> adds the symbols. Integers are words of their Rust width and \<open>usize\<close> is a natural number or, where
  it is cast or may overflow, a 64-bit word, as in the native build. Floating-point values are their bit
  patterns. A panic is \<open>None\<close>; a Rust \<open>Result\<close> is a sum inside the option; so "does not panic" is always a
  theorem about the definitions. The host is a parameter \<open>E\<close> of type \<open>env\<close>, a record of state transformers, which
  also says whether overflow checks are on (debug builds) or off (release builds, which wrap).

  \<^bold>\<open>The theories.\<close>

  \<^item> \<open>Prelude\<close>: word types, little-endian bytes, checked indexing and slicing, the shared simplification sets.
  \<^item> \<open>Inst\<close>, \<open>Encode\<close>: \<open>shift_then_mask\<close>, the opcodes, \<open>decode32\<close>, \<open>decode16\<close> and the immediates; the encoders of
    \<open>tests/instruction_tests.rs\<close> and their round trips with the decoder.
  \<^item> \<open>Host\<close>: the record \<open>env\<close>, the native mocks \<open>native_env\<close>, and the contracts as locales: \<open>stdin_host\<close> (a read
    returns no more than was asked for) and \<open>quiet_host\<close> (no interrupts), interpreted on the native mocks.
  \<^item> \<open>Byte_Memory\<close>, \<open>Memory\<close>, \<open>Memory_Bytes\<close>, \<open>Memory_Total\<close>: the default methods of the trait \<open>MemoryOps\<close> over the
    locale \<open>byte_memory\<close>; the paged \<open>Memory\<close>, its fast paths and block copies, shown equal to the default methods;
    the locale \<open>total_memory\<close> and the absence of panics at every address. Both locales are interpreted on \<open>Memory\<close>.
  \<^item> \<open>Fmt\<close>, \<open>Float\<close>: what the code uses of Rust's number formatting and parsing, and of \<open>f32\<close> and \<open>f64\<close> (IEEE 754,
    nearest even).
  \<^item> \<open>Cpu_State\<close>: \<open>Cpu\<close>, \<open>CsrFile\<close>, \<open>CpuError\<close>, register access, NaN boxing, interrupt entry, snapshots.
  \<^item> \<open>Exec_Int\<close>, \<open>Exec_Float\<close>, \<open>Exec32\<close>, \<open>Exec16\<close>, \<open>Syscall\<close>: \<open>exec_rv32i\<close>, \<open>exec_rv32m\<close>, \<open>exec_rv32a\<close>,
    \<open>exec_rv32fd\<close>, \<open>exec_csr\<close>, \<open>execute_inst32\<close>, \<open>execute_inst16\<close> and \<open>handle_ecall\<close>, arm by arm.
  \<^item> \<open>Run\<close>: \<open>step_instruction\<close>, \<open>run_slice\<close>, \<open>run\<close>.
  \<^item> \<open>Safe_Exec\<close>, \<open>Safe_Run\<close>: the machine invariant \<open>machine_ok\<close>; every instruction, step and slice keeps it and
    does not panic.
  \<^item> \<open>Slices\<close>: the reference semantics \<open>exec_n\<close> of a run without slices; slices implement it (locale \<open>calm_host\<close>,
    which joins the two host contracts).
  \<^item> \<open>Interleave\<close>: the reference machine \<open>guest\<close>, which executes instructions, is polled and takes interrupts; slices
    implement it on every host.
  \<^item> \<open>Isa\<close>, \<open>Isa_Refine\<close>, \<open>Program\<close>: RV32IMA as the manual defines it, on mathematical integers and a flat byte memory,
    with compressed instructions through their expansion; the executors refine it instruction by instruction, and a
    slice and a single step refine its step relation \<open>isa_step\<close>. \<open>stops_here\<close>, \<open>resumed\<close> and \<open>trapped_from\<close> say where
    a step stops, the machine it starts from and the machine a fault leaves.
  \<^item> \<open>Expand\<close>: the C extension as a table of abbreviations, whose fields are given by bit positions and share nothing
    with the emulator; its extractors are shown to compute them, and the executor of halfwords to implement the table.
  \<^item> \<open>Devices\<close>: loads, stores and atomic instructions in the device page, as host calls.
  \<^item> \<open>Disasm\<close>, \<open>Disasm_Exec\<close>: the disassembler, and its agreement with the executor.
  \<^item> \<open>Assemble\<close>: an assembler for the disassembler's text, with register names and operand formats of its own, and
    which words the disassembler prints text for that assembles to them.
  \<^item> \<open>Cli\<close>, \<open>Simulator\<close>, \<open>Safe_Sim\<close>: argument parsing, the loader, the debugger and the listing, and their contracts.
  \<^item> \<open>Sections\<close>: the layout of relocatable objects, computed on natural numbers, which the loader's word arithmetic
    implements, and the memory image it leaves; the symbol at an address and the start address, of both kinds of file.
  \<^item> \<open>Calls\<close>: the instructions that are calls, by their encodings, and those that the debugger takes for calls.
  \<^item> \<open>Session\<close>: the calls of the simulator as a step relation \<open>session\<close>, the invariant of its reachable states and
    the files whose loading panics.
  \<^item> \<open>Effects\<close>, \<open>Float_Exact\<close>: what interrupts, CSR accesses (the six instructions \<open>csr_op\<close>), system calls and
    floating-point transfers do, as equations; conversions that lose nothing.
  \<^item> \<open>Float_Round\<close>, \<open>Float_Convert\<close>: the meaning of bit patterns as real numbers and the correctness of \<open>round_pack\<close>;
    the arithmetic instructions and the conversions of both formats are correctly rounded, and comparisons compare
    the numbers.
  \<^item> \<open>Float_Madd\<close>: the multiply-add instructions as two rounded operations.
  \<^item> \<open>Samples\<close>: concrete machines, on which the properties are instantiated.

  \<^bold>\<open>What is shown\<close>, in the order of this theory: programs run as the instruction set says (C1 to C3); instructions are
  total and precise (C4); slices, steps and runs keep their contracts, compose, end, and interleave instructions with
  interrupts as the reference machine allows (C5 to C10); the optimised memory is the plain one (C11 to C13) and device
  accesses are host calls (C14); decoding is invertible (C15); interrupts, CSRs and system calls (C16 to C23); the
  listing agrees with the executor, means what it says and covers its range (C24 to C26); floating point (C27 to C31);
  loading (C32 to C35); the debugger (C36 to C38); whole sessions (C39); the command line (C40).

  \<^bold>\<open>Loops.\<close> No fuel is used. The inner and outer loops of \<open>run_slice\<close>, the block copies, the listing and the argument
  loop are total functions with measures: the rest of the chunk, of the budget, of the buffer, of the address space.
  \<open>run\<close> and \<open>run_until_breakpoint\<close> may run forever; they are partial functions into \<open>option\<close>, whose outer \<open>None\<close>
  means not returning and whose inner \<open>None\<close> means a panic. \<open>run_returns\<close> and \<open>run_until_breakpoint_returns\<close> show that
  they do return when the guest stops. The theorems that need it state that overflow checks are off: \<open>fld\<close>, \<open>fsd\<close>,
  the step counter and the loader use the checked operators, which panic in debug builds.

  \<^bold>\<open>Not modelled.\<close> The JavaScript side of the host, which is the parameter \<open>E\<close>; the ELF parser of the crate goblin,
  which is the parameter \<open>elf_parse\<close> of the loader; \<open>JsValue::as_string\<close>, which is its parameter
  \<open>as_string\<close>; the \<open>wasm_bindgen\<close>, \<open>serde\<close> and \<open>tsify\<close> glue; tests and benchmarks. The payload of
  the NaN that an arithmetic operation produces, which Rust leaves open, is not observable: \<open>write_f32\<close> and
  \<open>write_f64\<close> canonicalise it. A 32-bit \<open>usize\<close>, as on wasm32, would affect the range checks of the loader.
\<close>

section \<open>Programs\<close>

text \<open>C1: a slice executes the program in memory as the instruction set says: when the architectural state
  reaches \<open>b\<close> in \<open>budget\<close> instructions of RV32IMAC, full and compressed ones mixed, the slice reports \<open>Running\<close> after
  exactly that many steps and leaves a machine whose architectural state is \<open>b\<close>, with everything else unchanged.\<close>

theorem run_slice_implements_isa:
  assumes "quiet_host E" "\<not> overflow_checks E" "machine_ok s" "\<not> is_halted (cpu s)"
    "\<not> (debug_enabled (cpu s) \<and> breakpoints (cpu s) \<noteq> {})" "resume_past_breakpoint (cpu s) = None"
    "isa_steps (unat budget) (arch_of s) b"
  shows "\<exists>s'. run_slice E budget s = Some (\<lparr>so_status = Running, so_steps = ucast budget, so_pc = a_pc b,
      so_exit_code = exit_code (cpu s')\<rparr>, s') \<and> quiet_run s (unat budget) s' b"
  by (rule quiet_host.run_slice_isa [OF assms])

theorem run_slice_implements_isa_witness:
  "\<exists>s'. run_slice (native_env False) 2 demo
     = Some (\<lparr>so_status = Running, so_steps = 2, so_pc = 6, so_exit_code = exit_code (cpu s')\<rparr>, s') \<and> xreg s' 5 = 14"
proof -
  let ?b = "isa 2 (Op ADD 5 5 5) (isa 4 (OpImm ADDI 5 0 7) (arch_of demo))"
  have b: "a_pc ?b = 6" "a_x ?b 5 = 14"
    by (simp_all add: advance_def arch_set_def cpu_new_def xreg_def)
  have "isa_steps (unat (2 :: u32)) (arch_of demo) ?b" using demo_steps by simp
  with run_slice_implements_isa [of "native_env False" demo 2 ?b, OF native_quiet.quiet_host_axioms]
  obtain s' where "run_slice (native_env False) 2 demo = Some (\<lparr>so_status = Running, so_steps = 2, so_pc = 6,
      so_exit_code = exit_code (cpu s')\<rparr>, s')" "quiet_run demo 2 s' ?b"
    by (auto simp: native_release demo_ok cpu_new_def b(1) simp del: isa.simps)
  moreover from this(2) have "xreg s' 5 = 14"
    using b(2) by (simp only: quiet_run_def flip: arch_of_simps)
  ultimately show ?thesis by blast
qed

text \<open>C2: every RV32IMA instruction, assembled and executed, has the effect the instruction set gives it on the
  program counter, the integer registers and memory, and changes nothing else of the machine. The bytes it
  accesses have to lie below the device page.\<close>

theorem execute_inst32_refines_isa:
  assumes "machine_ok s" "wf_instr i" "mem_ok i s"
  shows "\<exists>s'. execute_inst32 E (asm i) s = Some (Inr (), s') \<and> implements s s' (isa 4 i (arch_of s))"
  by (rule execute_inst32_refines [OF assms])

theorem execute_inst32_refines_isa_witness:
  "\<exists>s'. execute_inst32 (native_env True) (asm (Amo AMOADD 3 7 0 2)) demo = Some (Inr (), s')
     \<and> xreg s' 7 = 0x00700293 \<and> load32 (ram (mem s')) 0 = 0x0870028F"
proof -
  let ?b = "isa 4 (Amo AMOADD 3 7 0 2) (arch_of demo)"
  have m: "load32 (ram (mem demo)) 0 = 0x00700293" by (simp add: load32_def ram_demo from_le_bytes4_def)
  have b: "a_x ?b 7 = 0x00700293" "load32 (a_mem ?b) 0 = 0x0870028F"
    by (simp_all add: advance_def arch_set_def amo_result_def xreg_def m cpu_new_def Let_def
        amo_store.simps)
  have "mem_ok (Amo AMOADD 3 7 0 2) demo" by (simp add: in_ram_low xreg_def)
  from execute_inst32_refines_isa [OF demo_ok _ this, of "native_env True"] show ?thesis
    using b by (auto simp: implements_def simp del: isa.simps simp flip: arch_of_simps)
qed

text \<open>C3: a compressed instruction behaves as the 32-bit instruction it abbreviates: the executor of halfwords
  and the executor of words agree through the expansion of the C extension, and the halfwords without an
  expansion are exactly those that are rejected as illegal.\<close>

theorem compressed_expands:
  assumes "\<not> overflow_checks E"
  shows "dispatch16 E c next_pc s = (case expand16 c of
      Some w \<Rightarrow> dispatch32 E (decode32 w) next_pc s
    | None \<Rightarrow> Some (Inl (IllegalInstruction (pc (cpu s)) (ucast c)), s))"
  using dispatch16_expand [OF assms, of c next_pc s] by (simp add: illegal16_def err_def split: option.split)

theorem compressed_expands_witness:
  "expand16 0x952E = Some (encode_r 0x33 10 0 10 11 0)
   \<and> dispatch16 (native_env False) 0x952E 2 boot = dispatch32 (native_env False) (decode32 (encode_r 0x33 10 0 10 11 0)) 2 boot"
proof -
  have "expand16 0x952E = Some (encode_r 0x33 10 0 10 11 0)"
    by (simp add: expand16_code decode16_def shift_then_mask_def expand_q2_code Let_def c_bit12_def c_rd_def c_rs2_def)
  then show ?thesis
    using compressed_expands [of "native_env False" "0x952E" 2 boot] by (simp add: native_release)
qed

section \<open>Safety of instructions\<close>

text \<open>C4: no instruction makes the emulator panic, and instructions are precise: executing any 32-bit word, in a
  release build, and any halfword, in every build, keeps the machine invariant and the control fields, and an instruction
  that reports an error has changed neither the processor nor the memory.\<close>

theorem instructions_total:
  assumes "machine_ok s"
  shows "(stdin_host E \<and> \<not> overflow_checks E \<longrightarrow> returns (execute_inst32 E raw s) (inst_post s))
    \<and> returns (execute_inst16 E' inst s) (inst_post s)"
  using stdin_host.execute_inst32_safe [of E s raw] execute_inst16_safe assms by blast

theorem instructions_total_witness:
  "returns (execute_inst32 (native_env False) 0x00000073 boot) (inst_post boot)
   \<and> returns (execute_inst16 (native_env True) 0x4501 boot) (inst_post boot)"
  using instructions_total [OF boot_ok, of "native_env False" _ "native_env True"] native_stdin.stdin_host_axioms
  by (auto simp: native_release)

section \<open>The execution loops\<close>

text \<open>C5: a slice never panics; it executes at most \<open>budget\<close> instructions and the step counter grows by the number
  it reports; the status, program counter and exit code it reports are those of the machine it leaves; it
  reports \<open>Running\<close> only when the budget is used up.\<close>

theorem run_slice_contract:
  "stdin_host E \<Longrightarrow> machine_ok s \<Longrightarrow> \<not> overflow_checks E \<Longrightarrow>
     returns (run_slice E budget s) (\<lambda>(out, s'). machine_ok s'
       \<and> so_steps out \<le> ucast budget \<and> step_counter (cpu s') = step_counter (cpu s) + so_steps out
       \<and> status_ok (so_status out) s' \<and> (so_status out = Running \<longrightarrow> so_steps out = ucast budget)
       \<and> so_pc out = pc (cpu s') \<and> so_exit_code out = exit_code (cpu s') \<and> conf_of (cpu s') = conf_of (cpu s))"
  by (rule returns_mono [OF stdin_host.run_slice_safe]) (auto simp: slice_post_def after_steps_def)

theorem run_slice_contract_witness:
  "\<exists>out s'. run_slice (native_env False) 7 demo = Some (out, s') \<and> so_steps out \<le> 7"
  using run_slice_contract [OF native_stdin.stdin_host_axioms demo_ok, of False 7]
  by (auto simp: native_release elim!: returnsE)

text \<open>C6: slicing is invisible to the guest: on a host without interrupts, a slice that runs out its budget followed
  by a second slice is one slice with both budgets, in its final machine and in what it reports.\<close>

theorem slices_compose:
  assumes "calm_host E" "machine_ok s" "\<not> overflow_checks E"
    "run_slice E a s = Some (out1, s1)" "so_status out1 = Running" "a \<noteq> 0"
    "run_slice E b s1 = Some (out2, s2)" "unat a + unat b < 2 ^ 32"
  shows "run_slice E (a + b) s = Some (out2\<lparr>so_steps := so_steps out1 + so_steps out2\<rparr>, s2)"
  by (rule calm_host.run_slice_add [OF assms])

theorem slices_compose_witness:
  "\<exists>out1 s1 out2 s2. run_slice (native_env False) 1 demo = Some (out1, s1) \<and> so_status out1 = Running
     \<and> run_slice (native_env False) 1 s1 = Some (out2, s2)
     \<and> run_slice (native_env False) 2 demo = Some (out2\<lparr>so_steps := so_steps out1 + so_steps out2\<rparr>, s2)"
proof -
  obtain out1 s1 where 1: "run_slice (native_env False) 1 demo = Some (out1, s1)" "so_status out1 = Running"
      "machine_ok s1"
    using demo_first_slice by blast
  obtain out2 s2 where 2: "run_slice (native_env False) 1 s1 = Some (out2, s2)"
    using native_stdin.run_slice_safe [OF 1(3), of False 1] by (auto simp: native_release elim!: returnsE)
  show ?thesis
    using 1 2 slices_compose [OF native_calm.calm_host_axioms demo_ok _ 1(1,2) _ 2] by (auto simp: native_release)
qed

text \<open>C7: a guest that stops is run to its end, and never into a panic: if some number of instructions brings the
  machine to a stop, \<open>run\<close> returns, with the exit code and the machine of that stop, however many slices it takes;
  and whenever \<open>run\<close> returns, on any host, it is with the exit code of a halted machine that satisfies the
  invariant.\<close>

theorem run_returns:
  assumes "stdin_host E" "\<not> overflow_checks E" "machine_ok s"
  shows "(quiet_host E \<and> \<not> debug_enabled (cpu s) \<and> resume_past_breakpoint (cpu s) = None
      \<and> exec_n E False n None s = Some (k, Some status, skip, s') \<longrightarrow> run E s = Some (Some (exit_code (cpu s'), s')))
    \<and> (\<forall>r. run E s = Some r \<longrightarrow> (\<exists>code s'. r = Some (code, s') \<and> machine_ok s' \<and> is_halted (cpu s')
        \<and> code = exit_code (cpu s') \<and> conf_of (cpu s') = conf_of (cpu s)))"
  using calm_host.run_stops [OF calm_host.intro [OF assms(1)] assms(2,3)] stdin_host.run_safe [OF assms(1,2)] assms(3)
  by blast

theorem run_returns_witness:
  "\<exists>s'. run (native_env False) stopper = Some (Some (exit_code (cpu s'), s')) \<and> is_halted (cpu s') \<and> pc (cpu s') = 4"
  using run_returns [OF native_stdin.stdin_host_axioms _ stopper_ok, where n = 2, of False] stopper_stops
  by (auto simp: native_release native_quiet.quiet_host_axioms stopper_simps cpu_new_def)

text \<open>C8: with interrupts, on any host: every slice is a run of the machine that executes instructions, is polled by
  the host and takes interrupts. Polls are kept apart by instructions, interrupts are taken only while they are
  enabled, the reported steps are the instructions executed, the slice ends as its status says, and an interrupt that
  is pending when the slice begins is taken before its first instruction.\<close>

theorem run_slice_interleaving:
  assumes "run_slice E budget s = Some (out, s')"
  shows "\<exists>events s1. guest E (s\<lparr>cpu := (cpu s)\<lparr>resume_past_breakpoint := None\<rparr>\<rparr>) events s1
    \<and> so_steps out = word_of_nat (count_list events Instruction)
    \<and> successively (\<lambda>a b. a = Instruction \<or> b = Instruction) events \<and> slice_end E s1 (so_status out) s'
    \<and> (\<forall>irq. pending E s irq \<longrightarrow> \<not> is_halted (cpu s) \<longrightarrow> budget \<noteq> 0 \<longrightarrow> (\<exists>rest. events = Interrupted irq # rest))"
  by (rule run_slice_guest [OF assms])

theorem run_slice_interleaving_witness:
  "\<exists>out s' rest s1. run_slice ringing 1 ringing_guest = Some (out, s') \<and> guest ringing ringing_guest (Interrupted 11 # rest) s1
     \<and> slice_end ringing s1 (so_status out) s'"
proof -
  obtain out s' where r: "run_slice ringing 1 ringing_guest = Some (out, s')" using ringing_slice by blast
  have "ringing_guest\<lparr>cpu := (cpu ringing_guest)\<lparr>resume_past_breakpoint := None\<rparr>\<rparr> = ringing_guest"
    "\<not> is_halted (cpu ringing_guest)" by (simp_all add: ringing_guest_def cpu_new_def)
  with run_slice_interleaving [OF r] ringing_pending r show ?thesis by fastforce
qed

text \<open>C9: a single step never panics, and it does exactly one of these. At an enabled breakpoint that was not the
  last one reported it stops there and executes nothing. Otherwise it forgets the breakpoint to skip; on a halted
  machine it does nothing more and gives the exit code. Otherwise it executes the instruction at the
  program counter, once, as the instruction set says, and counts it: the result is \<open>StepOk\<close>, or the exit code when that
  instruction halted the machine, or, when the instruction faulted, a trap at its address with the registers and the
  memory unchanged.\<close>

theorem step_instruction_contract:
  assumes "stdin_host E" "machine_ok s" "\<not> overflow_checks E"
  shows "returns (step_instruction E s) (\<lambda>(res, s'). step_ok res s s')
    \<and> (stops_here (cpu s) \<longrightarrow> step_instruction E s =
         Some (BreakpointHit (pc (cpu s)), s\<lparr>cpu := (cpu s)\<lparr>resume_past_breakpoint := Some (pc (cpu s))\<rparr>\<rparr>))
    \<and> (\<not> stops_here (cpu s) \<and> is_halted (cpu s) \<longrightarrow>
         step_instruction E s = Some (StepHalted (exit_code (cpu s)), resumed s))
    \<and> (\<not> stops_here (cpu s) \<and> \<not> is_halted (cpu s) \<longrightarrow>
         (\<forall>b. isa_step (arch_of s) b \<longrightarrow>
            (\<exists>s'. step_instruction E s = Some (StepOk, s') \<and> quiet_run (resumed s) 1 s' b))
       \<and> (\<forall>c s1. fetch_execute E (resumed s) = Some ((c, Inr ()), s1) \<longrightarrow>
            step_instruction E s = Some (if is_halted (cpu s1) then StepHalted (exit_code (cpu s1)) else StepOk,
              s1\<lparr>cpu := (cpu s1)\<lparr>step_counter := step_counter (cpu s1) + 1\<rparr>\<rparr>))
       \<and> (\<forall>c e s1. fetch_execute E (resumed s) = Some ((c, Inl e), s1) \<longrightarrow>
            (\<exists>h. step_instruction E s = Some (Trap (pc (cpu s)), trapped_from s h 1))))"
  using stdin_host.step_instruction_safe [OF assms] step_instruction_stops [of s E] step_instruction_isa [OF assms(2,3)]
    step_instruction_runs [OF assms(3)] stdin_host.step_instruction_traps [OF assms]
  by blast

theorem step_instruction_contract_witness:
  "(\<exists>s'. step_instruction (native_env False) demo = Some (StepOk, s') \<and> xreg s' 5 = 7 \<and> pc (cpu s') = 4)
   \<and> (\<exists>h. step_instruction (native_env False) boot = Some (Trap 0, trapped_from boot h 1))
   \<and> fst (the (step_instruction (native_env False) (demo\<lparr>cpu := cpu_new\<lparr>debug_enabled := True, breakpoints := {0}\<rparr>\<rparr>)))
       = BreakpointHit 0"
proof -
  note c = step_instruction_contract [OF native_stdin.stdin_host_axioms, of _ False, unfolded native_release not_False_eq_True, OF _ TrueI]
  let ?b = "isa 4 (OpImm ADDI 5 0 7) (arch_of demo)"
  have b: "a_pc ?b = 4" "a_x ?b 5 = 7"
    by (simp_all add: advance_def arch_set_def cpu_new_def xreg_def)
  have "\<not> stops_here (cpu demo) \<and> \<not> is_halted (cpu demo)" by (simp add: stops_here_def cpu_new_def)
  with c [OF demo_ok] demo_step obtain s' where s': "step_instruction (native_env False) demo = Some (StepOk, s')"
      "quiet_run (resumed demo) 1 s' ?b"
    by blast
  have "xreg s' 5 = 7" "pc (cpu s') = 4"
    using s'(2) b by (simp_all only: quiet_run_def flip: arch_of_simps)
  moreover have "fetch_execute (native_env False) (resumed boot) = Some ((True, Inl (IllegalInstruction 0 0)), boot)"
    using boot_fetch by (simp add: resumed_def boot_def cpu_new_def)
  moreover have "\<not> stops_here (cpu boot) \<and> \<not> is_halted (cpu boot)" "pc (cpu boot) = 0"
    by (simp_all add: stops_here_def boot_def cpu_new_def)
  ultimately have x: "xreg s' 5 = 7" "pc (cpu s') = 4" "\<exists>h. step_instruction (native_env False) boot = Some (Trap 0, trapped_from boot h 1)"
    using c [OF boot_ok] by metis+
  have "machine_ok (demo\<lparr>cpu := cpu_new\<lparr>debug_enabled := True, breakpoints := {0}\<rparr>\<rparr>)"
    using demo_ok by (simp add: machine_ok_def)
  from c [OF this] have "fst (the (step_instruction (native_env False)
      (demo\<lparr>cpu := cpu_new\<lparr>debug_enabled := True, breakpoints := {0}\<rparr>\<rparr>))) = BreakpointHit 0"
    by (simp add: stops_here_def cpu_new_def)
  then show ?thesis using s'(1) x by blast
qed

text \<open>C10: the single-lookup fetch is a plain fetch: the instruction executed is the halfword at the program counter
  when its low bits say it is compressed, and otherwise the word there, whatever page boundary it straddles
  and whether or not its page has been touched.\<close>

theorem fetch_is_plain_load:
  assumes "wf_memory (mem s)" "in_ram (pc (cpu s)) 4"
  shows "fetch_execute E s =
    (let w = load32 (ram (mem s)) (pc (cpu s)) in
     if (ucast w :: u16) AND 3 \<noteq> 3
     then map_option (\<lambda>(res, s). ((True, res), s)) (execute_inst16 E (ucast w) s)
     else map_option (\<lambda>(res, s). ((False, res), s)) (execute_inst32 E w s))"
proof -
  have "in_ram (pc (cpu s)) 2" using assms(2) by (simp add: in_ram_def)
  then show ?thesis using fetch_execute_ram [OF assms(1) refl, of E] assms(2) by (simp add: load32_low Let_def)
qed

theorem fetch_is_plain_load_witness:
  "fetch_execute (native_env False) stopper
     = map_option (\<lambda>(res, s). ((False, res), s)) (execute_inst32 (native_env False) 0x00100073 stopper)"
  using fetch_is_plain_load [of stopper "native_env False"] stopper_ok
  by (simp add: machine_ok_wf stopper_simps stopper_word cpu_new_def in_ram_low)

section \<open>Memory\<close>

text \<open>C11: below the device page the fast paths for halfwords and words, aligned, inside a page, on a page that does
  not exist yet or across a page boundary, all compute what the default methods of the trait compute byte by
  byte, wrap-around of the address included.\<close>

theorem wide_accesses_default:
  assumes "wf_memory m" "a < MMIO_BASE"
  shows "read_u16 E a m h = default_read_u16 (read_u8 E) a m h
    \<and> read_u32 E a m h = default_read_u32 (read_u8 E) a m h
    \<and> write_u16 E a v m h = default_write_u16 (write_u8 E) a v m h
    \<and> write_u32 E a w m h = default_write_u32 (write_u8 E) a w m h"
  using assms by (simp add: read_u16_default read_u32_default write_u16_default write_u32_default)

theorem wide_accesses_default_witness:
  "read_u32 (native_env False) 0xFFFF memory_new fresh_host
     = default_read_u32 (read_u8 (native_env False)) 0xFFFF memory_new fresh_host"
  using wide_accesses_default [OF memory_new_wf(1), of "0xFFFF" "native_env False" fresh_host]
  by (simp add: MMIO_BASE_def)

text \<open>C12: the page-wise block copies compute what the default byte loops compute, for every address and length, over
  page boundaries, into the device page and around the end of the address space.\<close>

theorem block_accesses_default:
  assumes "wf_memory m"
  shows "read_bytes E addr len m h = default_read_bytes (read_u8 E) addr len m h
    \<and> write_bytes E addr bytes m h = default_write_bytes (write_u8 E) addr bytes m h"
  using assms by (simp add: read_bytes_default write_bytes_default)

theorem block_accesses_default_witness:
  "write_bytes (native_env False) 0xFFFFFFFF [1, 2] memory_new fresh_host
     = default_write_bytes (write_u8 (native_env False)) 0xFFFFFFFF [1, 2] memory_new fresh_host"
  using block_accesses_default [OF memory_new_wf(1), of "native_env False" "0xFFFFFFFF" 0 fresh_host "[1, 2]"] by blast

text \<open>C13: what is written to memory is what is read back, whatever was there before and however many pages it
  spans, and no other byte of memory changes.\<close>

theorem write_read_bytes:
  assumes "wf_memory m" "in_ram a (length bs)" "length bs \<le> 2 ^ 32"
  shows "\<exists>m'. write_bytes E a bs m h = Some (m', h) \<and> wf_memory m'
    \<and> read_bytes E a (length bs) m' h' = Some (bs, h') \<and> ram m' = store_bytes (ram m) a bs"
proof -
  have r: "k < length bs \<Longrightarrow> a + word_of_nat k < MMIO_BASE" for k using assms(2) by (simp add: in_ram_def)
  obtain m' where m': "write_bytes E a bs m h = Some (m', h)" "wf_memory m'" "ram m' = store_bytes (ram m) a bs"
    using ram_memory.write_bytes_view [OF assms(1) r, where E = E and h = h and bs = bs] assms(1)
    by (auto simp: write_bytes_default)
  moreover have "read_bytes E a (length bs) m' h' = Some (bs, h')"
    using ram_memory.write_then_read_bytes [OF assms(1,3) r, where E = E and h = h and ?h2.0 = h'] m' assms(1)
    by (auto simp: write_bytes_default read_bytes_default)
  ultimately show ?thesis by blast
qed

theorem write_read_bytes_witness:
  "\<exists>m'. write_bytes (native_env False) 0xFFFE [1, 2, 3, 4] memory_new fresh_host = Some (m', fresh_host)
     \<and> read_bytes (native_env False) 0xFFFE (length [1, 2, 3, 4 :: u8]) m' fresh_host = Some ([1, 2, 3, 4], fresh_host)"
  using write_read_bytes [OF memory_new_wf(1), of "0xFFFE" "[1, 2, 3, 4]" "native_env False" fresh_host fresh_host]
  by (auto simp: in_ram_low)

section \<open>Decoding\<close>

text \<open>C14: a device access is a host call: a load or store in the device page asks the host once, with the address and
  the width of the access, even when the destination is \<open>zero\<close>; an atomic instruction there is a read and then a write.
  Loads extend the low bits of the host's word by sign or by zero, stores hand over the low bits, and memory is
  not touched.\<close>

theorem device_accesses:
  "(wf_instr (Load ld rd rs1 imm) \<and> MMIO_BASE \<le> xreg s rs1 + imm
      \<and> js_read_mmio E (xreg s rs1 + imm) (word_of_nat (access_width ld)) (host s) = (v, h) \<longrightarrow>
     execute_inst32 E (asm (Load ld rd rs1 imm)) s
       = Some (Inr (), next_inst (put_xreg (s\<lparr>host := h\<rparr>) rd (device_value ld v))))
   \<and> (wf_instr (Store st rs1 rs2 imm) \<and> MMIO_BASE \<le> xreg s rs1 + imm \<longrightarrow>
     execute_inst32 E (asm (Store st rs1 rs2 imm)) s = Some (Inr (), next_inst (s\<lparr>host :=
       js_write_mmio E (xreg s rs1 + imm) (word_of_nat (store_width st)) (device_data st (xreg s rs2)) (host s)\<rparr>)))
   \<and> (wf_instr (Amo op aqrl rd rs1 rs2) \<and> MMIO_BASE \<le> xreg s rs1
      \<and> js_read_mmio E (xreg s rs1) 4 (host s) = (v, h) \<longrightarrow>
     execute_inst32 E (asm (Amo op aqrl rd rs1 rs2)) s = Some (Inr (), next_inst (put_xreg (s\<lparr>host :=
       (case amo_store op v (xreg s rs2) of Some w \<Rightarrow> js_write_mmio E (xreg s rs1) 4 w h | None \<Rightarrow> h)\<rparr>)
         rd (amo_result op v))))"
  using load_device [of ld rd rs1 imm s E v h] store_device [of st rs1 rs2 imm s E]
    amo_device [of op aqrl rd rs1 rs2 s E v h] by blast

theorem device_accesses_witness:
  "\<exists>s'. execute_inst32 (native_env True) (asm (Load LB 5 0 (- 4)))
      (boot\<lparr>host := set_mock_mmio_read (\<lambda>a w u. (a - w - 0x7C, u)) fresh_host\<rparr>) = Some (Inr (), s')
     \<and> xreg s' 5 = 0x7F"
proof -
  let ?h = "set_mock_mmio_read (\<lambda>a w u. (a - w - 0x7C, u)) fresh_host"
  let ?s = "boot\<lparr>host := ?h\<rparr>"
  have "js_read_mmio (native_env True) (xreg ?s 0 + - 4) (word_of_nat (access_width LB)) (host ?s) = (0xFFFFFF7F, ?h)"
    by (simp add: native_env_def native_read_mmio_def set_mock_mmio_read_def fresh_host_def)
  moreover have "MMIO_BASE \<le> xreg ?s 0 + - 4" by (simp add: MMIO_BASE_def)
  ultimately show ?thesis
    using device_accesses [of LB 5 0 "- 4" ?s "native_env True" "0xFFFFFF7F" ?h, THEN conjunct1]
    by (simp add: xreg_def put_xreg_def next_inst_def)
qed

text \<open>C15: encoding and decoding are inverse: the decoder reads every immediate back as the encoder of its format put
  it in, sign-extended from the width of its field, and the fields and the immediate that the decoder of any format
  extracts from a word reassemble to that word. In the two formats without an immediate the decoder reads back every
  field of an encoded instruction, and the fields of any word, opcode and function codes included, reassemble to it.\<close>

theorem decode_encode_inverse:
  assumes "opcode < 128" "funct3 < 8" "rd < 32" "rs1 < 32" "rs2 < 32"
  shows "i_imm (decode32 (encode_i opcode rd funct3 rs1 imm)) = signed_take_bit 11 imm
    \<and> s_imm (decode32 (encode_s opcode funct3 rs1 rs2 imm)) = signed_take_bit 11 imm
    \<and> b_imm (decode32 (encode_b opcode funct3 rs1 rs2 imm)) = signed_take_bit 12 (imm AND NOT 1)
    \<and> u_imm (decode32 (encode_u opcode rd imm)) = imm AND 0xFFFFF000
    \<and> j_imm (decode32 (encode_j opcode rd imm)) = signed_take_bit 20 (imm AND NOT 1)
    \<and> encode_i (w AND 0x7F) (d_rd (decode32 w)) (shift_then_mask w 12 7) (d_rs1 (decode32 w)) (i_imm (decode32 w)) = w
    \<and> encode_s (w AND 0x7F) (shift_then_mask w 12 7) (d_rs1 (decode32 w)) (d_rs2 (decode32 w)) (s_imm (decode32 w)) = w
    \<and> encode_b (w AND 0x7F) (shift_then_mask w 12 7) (d_rs1 (decode32 w)) (d_rs2 (decode32 w)) (b_imm (decode32 w)) = w
    \<and> encode_u (w AND 0x7F) (d_rd (decode32 w)) (u_imm (decode32 w)) = w
    \<and> encode_j (w AND 0x7F) (d_rd (decode32 w)) (j_imm (decode32 w)) = w
    \<and> encode_r (ucast (d_opcode (decode32 w))) (d_rd (decode32 w)) (ucast (d_funct3 (decode32 w))) (d_rs1 (decode32 w))
        (d_rs2 (decode32 w)) (ucast (d_funct7 (decode32 w))) = w
    \<and> encode_r4 (ucast (d_opcode (decode32 w))) (d_rd (decode32 w)) (ucast (d_funct3 (decode32 w))) (d_rs1 (decode32 w))
        (d_rs2 (decode32 w)) (d_rs3 (decode32 w)) (shift_then_mask w 25 3) = w
    \<and> (\<forall>funct7 < 128. let d = decode32 (encode_r opcode rd funct3 rs1 rs2 funct7) in
        (d_opcode d, d_rd d, d_funct3 d, d_rs1 d, d_rs2 d, d_funct7 d) = (ucast opcode, rd, ucast funct3, rs1, rs2, ucast funct7))
    \<and> (\<forall>rs3 < 32. \<forall>fmt < 4. let d = decode32 (encode_r4 opcode rd funct3 rs1 rs2 rs3 fmt) in
        (d_opcode d, d_rd d, d_rs1 d, d_rs2 d, d_rs3 d) = (ucast opcode, rd, rs1, rs2, rs3))"
  using assms by (simp only: decode_encode decode_encode_r4 encode_decode encode_decode_r Let_def simp_thms cong: imp_cong)

theorem decode_encode_inverse_witness:
  "b_imm (decode32 (encode_b 0x63 0 1 2 (- 4096))) = - 4096"
proof -
  have "signed_take_bit 12 (- 4096 AND NOT 1 :: u32) = - 4096" by simp
  then show ?thesis using decode_encode_inverse [of "0x63" 0 1 1 2 "- 4096" 0] by simp
qed

section \<open>Interrupts and control registers\<close>

text \<open>C16: an interrupt is transparent: taking one disables further interrupts and enters the handler of \<open>mtvec\<close>, and
  the \<open>mret\<close> that ends the handler resumes at the interrupted instruction with interrupts enabled again and
  every register as it was, leaving only the trap registers changed. The interrupted instruction is not at address 0,
  which \<open>mret\<close> takes for an unset \<open>mepc\<close>.\<close>

theorem interrupt_mret_roundtrip:
  assumes "interrupts_enabled (cpu s) = Some True" "pc (cpu s) \<noteq> 0" "handle_interrupt (cpu s) irq = Some c"
  shows "interrupts_enabled c = Some False
    \<and> pc c = (if csrs (cpu s) 0x305 \<noteq> 0 then csrs (cpu s) 0x305 else pc (cpu s))
    \<and> execute_inst32 E 0x30200073 (s\<lparr>cpu := c\<rparr>) = Some (Inr (), s\<lparr>cpu := (cpu s)\<lparr>csrs := (csrs (cpu s))
       (0x341 := pc (cpu s), 0x342 := 0x80000000 OR irq, 0x300 := csrs (cpu s) 0x300 OR MSTATUS_MPIE)\<rparr>\<rparr>)"
  using interrupt_returns [OF assms] by blast

theorem interrupt_mret_roundtrip_witness:
  "\<exists>c. handle_interrupt (cpu_new\<lparr>pc := 0x100, csrs := (\<lambda>_. 0)(0x300 := 8, 0x305 := 0x80)\<rparr>) 11 = Some c
     \<and> interrupts_enabled c = Some False \<and> pc c = 0x80"
proof -
  let ?c = "cpu_new\<lparr>pc := 0x100, csrs := (\<lambda>_. 0)(0x300 := 8, 0x305 := 0x80)\<rparr>"
  obtain c where c: "handle_interrupt ?c 11 = Some c" by (simp add: handle_interrupt_eq)
  have "interrupts_enabled ?c = Some True" by (simp add: interrupts_enabled_bit)
  with c interrupt_mret_roundtrip [of "boot\<lparr>cpu := ?c\<rparr>" 11 c] show ?thesis by simp
qed

text \<open>C17: a CSR instruction, in each of the three register and three immediate forms, puts the old value of the CSR
  into \<open>rd\<close> and writes the CSR: \<open>csrrw\<close> the operand, \<open>csrrs\<close> the old value with the bits of the operand set, \<open>csrrc\<close>
  the old value with those bits cleared, the operand being \<open>rs1\<close> before the instruction or, in the immediate forms, the
  zero-extended number in the field of \<open>rs1\<close>. Every other CSR and all other state but the program counter are kept.\<close>

theorem csr_instruction:
  assumes "n < 4096" "rd < 32" "rs1 < 32"
  shows "\<exists>v. execute_inst32 E (encode_i 0x73 rd (csr_funct3 op) rs1 (word_of_nat n)) s = Some (Inr (), put_xreg (s\<lparr>cpu := (cpu s)\<lparr>
       csrs := (csrs (cpu s))(n := v), pc := pc (cpu s) + 4\<rparr>\<rparr>) rd (csrs (cpu s) n))
     \<and> (\<forall>k<32. bit v k \<longleftrightarrow> csr_bit op (bit (csrs (cpu s) n) k) (bit (csr_source op rs1 (xreg s rs1)) k))"
  by (rule run_csr_op [OF assms])

theorem csr_instruction_witness:
  "\<exists>v. execute_inst32 (native_env False) 0x30511573 boot = Some (Inr (), put_xreg (boot\<lparr>cpu := cpu_new\<lparr>
     csrs := (\<lambda>_. 0)(0x305 := v), pc := 4\<rparr>\<rparr>) 10 0) \<and> (\<forall>k<32. bit v k = bit (0x7FFFFFC :: u32) k)"
proof -
  have "encode_i 0x73 10 (csr_funct3 CSRRW) 2 (word_of_nat 0x305) = 0x30511573" by (simp add: encode_i_def)
  with csr_instruction [of "0x305" 10 2 "native_env False" CSRRW boot] show ?thesis
    by (simp add: boot_def xreg_def cpu_new_def csr_new_def)
qed

section \<open>System calls\<close>

text \<open>C18: the calls that need nothing from the host: \<open>exit\<close> halts the guest with its argument as the exit code;
  \<open>close\<close>, \<open>lseek\<close> and \<open>fstat\<close> do nothing and return 0; a call the emulator does not know is an error that carries its
  number and arguments and leaves the machine as it was.\<close>

theorem syscall_dispatch:
  assumes "\<not> has_custom_syscalls (cpu s)"
  shows "(xreg s 17 \<in> {93, 10, 1} \<longrightarrow> execute_inst32 E 0x00000073 s = Some (Inr (),
        s\<lparr>cpu := (cpu s)\<lparr>is_halted := True, exit_code := xreg s 10, pc := pc (cpu s) + 4\<rparr>\<rparr>))
    \<and> (xreg s 17 \<in> {57, 62, 80} \<longrightarrow> execute_inst32 E 0x00000073 s = Some (Inr (), put_xreg (next_inst s) 10 0))
    \<and> (xreg s 17 \<notin> {93, 10, 1, 64, 4, 63, 3, 214, 45, 57, 62, 80} \<longrightarrow> execute_inst32 E 0x00000073 s =
        Some (Inl (UnknownSyscallError \<lparr>sys_num = xreg s 17, sys_a0 = xreg s 10, sys_a1 = xreg s 11,
          sys_a2 = xreg s 12, sys_a3 = xreg s 13\<rparr>), s))"
  using assms
  by (auto simp: run_ecall handle_ecall_builtin builtin_syscall_def sys_exit_def sys_ok_def exec_simps put_xreg_def next_inst_def)

theorem syscall_dispatch_witness:
  "execute_inst32 (native_env False) 0x00000073 (put_xreg (put_xreg boot 17 93) 10 7) = Some (Inr (),
    (put_xreg (put_xreg boot 17 93) 10 7)\<lparr>cpu := (cpu (put_xreg (put_xreg boot 17 93) 10 7))
      \<lparr>is_halted := True, exit_code := 7, pc := 4\<rparr>\<rparr>)
   \<and> execute_inst32 (native_env False) 0x00000073 boot = Some (Inl (UnknownSyscallError \<lparr>sys_num = 0, sys_a0 = 0,
    sys_a1 = 0, sys_a2 = 0, sys_a3 = 0\<rparr>), boot)"
proof
  show "execute_inst32 (native_env False) 0x00000073 (put_xreg (put_xreg boot 17 93) 10 7) = Some (Inr (),
    (put_xreg (put_xreg boot 17 93) 10 7)\<lparr>cpu := (cpu (put_xreg (put_xreg boot 17 93) 10 7))
      \<lparr>is_halted := True, exit_code := 7, pc := 4\<rparr>\<rparr>)"
    using syscall_dispatch [of "put_xreg (put_xreg boot 17 93) 10 7" "native_env False"]
    by (simp add: ram_write_put_xreg) (simp add: boot_def cpu_new_def put_xreg_def)
  show "execute_inst32 (native_env False) 0x00000073 boot = Some (Inl (UnknownSyscallError \<lparr>sys_num = 0, sys_a0 = 0,
    sys_a1 = 0, sys_a2 = 0, sys_a3 = 0\<rparr>), boot)"
    using syscall_dispatch [of boot "native_env False"] by (simp add: boot_def cpu_new_def xreg_def)
qed

text \<open>C19: \<open>write\<close> to the standard output hands the host exactly the bytes of the buffer, NULs and non-text
  included, up to 16 MiB, and returns the length that was asked for, which is larger than the number of bytes
  delivered when the buffer is longer than that.\<close>

theorem write_delivers:
  assumes "wf_memory (mem s)" "\<not> has_custom_syscalls (cpu s)" "xreg s 17 \<in> {64, 4}" "xreg s 10 = 1"
    "count = min (unat (xreg s 12)) SYS_BUF_MAX" "in_ram (xreg s 11) count"
  shows "execute_inst32 E 0x00000073 s = Some (Inr (), put_xreg (next_inst (s\<lparr>host :=
      js_write_stdout E (map (\<lambda>k. ram (mem s) (xreg s 11 + word_of_nat k)) [0..<count]) (host s)\<rparr>)) 10 (xreg s 12))"
  using assms
  by (auto simp: run_ecall handle_ecall_builtin builtin_syscall_def sys_write_ram Let_def next_inst_def put_xreg_def)

theorem write_delivers_witness:
  "\<exists>s'. execute_inst32 (native_env False) 0x00000073 writer = Some (Inr (), s')
     \<and> host s' = native_write_stdout [0x93, 0x02] fresh_host \<and> xreg s' 10 = 2"
proof -
  have "execute_inst32 (native_env False) 0x00000073 writer = Some (Inr (), put_xreg (next_inst (writer\<lparr>host :=
      js_write_stdout (native_env False) (map (\<lambda>k. ram (mem demo) (word_of_nat k)) [0..<2]) fresh_host\<rparr>)) 10 2)"
    using write_delivers [OF writer_call, of "native_env False"] by (simp only: writer_facts add_0)
  moreover have "map (\<lambda>k. ram (mem demo) (word_of_nat k)) [0..<2] = [0x93, 0x02]"
    unfolding numeral_2_eq_2 by (simp add: ram_demo)
  ultimately show ?thesis
    by (simp add: native_env_def next_inst_def ram_write_put_xreg)
qed

text \<open>C20: \<open>read\<close> on the native host stores the next bytes of the queued input at the buffer, as many as there are and
  as were asked for, returns their number and consumes them.\<close>

theorem read_consumes_input:
  assumes "wf_memory (mem s)" "\<not> has_custom_syscalls (cpu s)" "xreg s 17 \<in> {63, 3}"
    "unat (xreg s 12) \<le> SYS_BUF_MAX" "length (mock_stdin (host s)) < 2 ^ 32"
    "n = min (length (mock_stdin (host s))) (unat (xreg s 12))" "in_ram (xreg s 11) n"
  shows "\<exists>s'. execute_inst32 (native_env c) 0x00000073 s = Some (Inr (), s') \<and> xreg s' 10 = word_of_nat n
    \<and> ram (mem s') = store_bytes (ram (mem s)) (xreg s 11) (take n (mock_stdin (host s)))
    \<and> host s' = (host s)\<lparr>mock_stdin := drop n (mock_stdin (host s))\<rparr> \<and> pc (cpu s') = pc (cpu s) + 4"
proof -
  have "handle_ecall (native_env c) s = sys_read (native_env c) (xreg s 11) (xreg s 12) s"
    using assms(2,3) by (auto simp: handle_ecall_builtin builtin_syscall_def)
  moreover obtain s1 where "sys_read (native_env c) (xreg s 11) (xreg s 12) s = Some (Inr (), put_xreg s1 10 (word_of_nat n))"
      "ram_write (s\<lparr>host := (host s)\<lparr>mock_stdin := drop n (mock_stdin (host s))\<rparr>\<rparr>)
        (store_bytes (ram (mem s)) (xreg s 11) (take n (mock_stdin (host s)))) s1"
    using native_sys_read [OF assms(1,4-7), of c] by blast
  ultimately show ?thesis
    using ram_write_facts by (fastforce simp: run_ecall xreg_def put_xreg_def)
qed

theorem read_consumes_input_witness:
  "\<exists>s'. execute_inst32 (native_env False) 0x00000073 reader = Some (Inr (), s') \<and> xreg s' 10 = 2 \<and> ram (mem s') 1 = 0x69"
  using read_consumes_input [OF reader_call, of False] by (auto simp: reader_facts)

text \<open>C21: \<open>brk\<close> moves the break exactly to the address asked for when that is at or above the initial break and below
  the device page, otherwise leaves it; it returns the break, and the break never leaves that range.\<close>

theorem brk_contract:
  assumes "machine_ok s" "\<not> has_custom_syscalls (cpu s)" "xreg s 17 \<in> {214, 45}"
  shows "\<exists>s'. execute_inst32 E 0x00000073 s = Some (Inr (), s') \<and> brk_ok (mem s') \<and> ram (mem s') = ram (mem s)
    \<and> initial_brk (mem s') = initial_brk (mem s) \<and> xreg s' 10 = brk_ptr (mem s')
    \<and> brk_ptr (mem s') = (if initial_brk (mem s) \<le> xreg s 10 \<and> xreg s 10 < MMIO_BASE \<and> xreg s 10 \<noteq> 0
        then xreg s 10 else brk_ptr (mem s))"
proof -
  have "ram (m\<lparr>brk_ptr := b\<rparr>) = ram m" for m b by (simp add: ram_def page_at_def fun_eq_iff)
  then show ?thesis
    using assms by (auto simp: run_ecall handle_ecall_builtin builtin_syscall_def sys_brk_eq put_xreg_def xreg_def
        machine_ok_def brk_ok_def set_brk_def)
qed

theorem brk_contract_witness:
  "\<exists>s'. execute_inst32 (native_env False) 0x00000073 (put_xreg (put_xreg boot 17 214) 10 0x2000000) = Some (Inr (), s')
     \<and> brk_ptr (mem s') = 0x2000000"
proof -
  let ?s = "put_xreg (put_xreg boot 17 214) 10 0x2000000"
  have x: "xreg ?s 17 = 214" "xreg ?s 10 = 0x2000000" "mem ?s = memory_new" "\<not> has_custom_syscalls (cpu ?s)"
      "machine_ok ?s"
    using boot_ok by (simp_all add: ram_write_put_xreg machine_ok_def)
      (simp_all add: boot_def put_xreg_def cpu_new_def)
  then show ?thesis
    using brk_contract [of ?s "native_env False"] by (auto simp: memory_new_def MMIO_BASE_def)
qed

text \<open>C22: with a handler of the host enabled, \<open>ecall\<close> asks it first, with the arguments and the number of the call. A
  nonzero answer is final: whatever the number, that of \<open>exit\<close> included, the call does nothing but store the answer in
  \<open>a0\<close> and go to the next instruction. A zero answer declines: the call then does what it does on the same machine
  without a handler, started in the host state that the handler left.\<close>

theorem custom_handler_first:
  assumes "has_custom_syscalls (cpu s)"
    "custom_syscall E (xreg s 10) (xreg s 11) (xreg s 12) (xreg s 13) (xreg s 17) (host s) = (res, h)"
  shows "(res \<noteq> 0 \<longrightarrow> execute_inst32 E 0x00000073 s = Some (Inr (), put_xreg (next_inst (s\<lparr>host := h\<rparr>)) 10 res))
    \<and> (res = 0 \<longrightarrow> execute_inst32 E 0x00000073 s = map_option (\<lambda>(r, s'). (r, set_handler True s'))
        (execute_inst32 E 0x00000073 (set_handler False (s\<lparr>host := h\<rparr>))))"
  using ecall_custom [OF assms] by blast

theorem custom_handler_first_witness:
  "execute_inst32 (native_env False) 0x00000073 (handled 93 42) = Some (Inr (), put_xreg (next_inst (handled 93 42)) 10 42)
   \<and> execute_inst32 (native_env False) 0x00000073 (handled 93 0) = map_option (\<lambda>(r, s'). (r, set_handler True s'))
       (execute_inst32 (native_env False) 0x00000073 (set_handler False (handled 93 0)))"
  using custom_handler_first [OF handled_call, of 42 93] custom_handler_first [OF handled_call, of 0 93] by simp

text \<open>C23: an error stops the guest. On a machine that is running and not stopped at a breakpoint, and a host that
  delivers no interrupts, when fetching and executing the instruction at the program counter gives an error, both the
  single step and the slice leave the machine trapped and halted with exit code 134 and, whatever the instruction,
  with the registers, the memory, the CSRs and the program counter it had; the breakpoint to skip is forgotten. The
  slice reports \<open>Trapped\<close> at that address after no steps. The step counts the faulting instruction; the slice does not.\<close>

theorem errors_trap:
  assumes "stdin_host E" "quiet_host E" "machine_ok s" "\<not> overflow_checks E" "\<not> stops_here (cpu s)" "\<not> is_halted (cpu s)"
    "fetch_execute E (resumed s) = Some ((compressed, Inl e), s1)" "budget \<noteq> 0"
  shows "\<exists>h h'. step_instruction E s = Some (Trap (pc (cpu s)), s\<lparr>host := h, cpu := (cpu s)\<lparr>resume_past_breakpoint := None,
        trapped := True, exit_code := 134, is_halted := True, step_counter := step_counter (cpu s) + 1\<rparr>\<rparr>)
    \<and> run_slice E budget s = Some (\<lparr>so_status = Trapped, so_steps = 0, so_pc = pc (cpu s), so_exit_code = 134\<rparr>,
        s\<lparr>host := h', cpu := (cpu s)\<lparr>resume_past_breakpoint := None, trapped := True, exit_code := 134,
          is_halted := True\<rparr>\<rparr>)"
  using stdin_host.step_instruction_traps [OF assms(1,3-7)]
    calm_host.run_slice_traps [OF calm_host.intro [OF assms(1,2)] assms(3-8)]
  by (simp add: trapped_from_def)

theorem errors_trap_witness:
  "\<exists>h. run_slice (native_env False) 5 boot = Some (\<lparr>so_status = Trapped, so_steps = 0, so_pc = 0, so_exit_code = 134\<rparr>,
      boot\<lparr>host := h, cpu := cpu_new\<lparr>trapped := True, exit_code := 134, is_halted := True\<rparr>\<rparr>)"
proof -
  have r: "resumed boot = boot" by (simp add: resumed_def boot_def cpu_new_def)
  have "fetch_execute (native_env False) (resumed boot) = Some ((True, Inl (IllegalInstruction 0 0)), boot)"
    unfolding r by (rule boot_fetch)
  from errors_trap [OF native_stdin.stdin_host_axioms native_quiet.quiet_host_axioms boot_ok _ _ _ this, of 5] show ?thesis
    by (auto simp: native_release stops_here_def boot_def cpu_new_def)
qed

section \<open>The disassembler\<close>

text \<open>C24: the disassembler and the executor agree: a halfword is shown as reserved exactly when executing it is an
  illegal-instruction error, in every state; and the instruction that a step executes is treated as compressed
  exactly when the listing shows it as compressed.\<close>

theorem disasm_agrees_with_executor:
  assumes "machine_ok s" "in_ram (pc (cpu s)) 4" "fetch_execute E s = Some ((compressed, res), s')"
  shows "(reads_reserved (decode_rvc a c) \<longleftrightarrow>
      execute_inst16 E c s = Some (Inl (IllegalInstruction (pc (cpu s)) (ucast c)), s))
    \<and> compressed = di_is_compressed (decode_instruction_with_symbols (pc (cpu s))
        (load32 (ram (mem s)) (pc (cpu s))) names)"
  using reserved_iff_rejected [OF assms(1)] listed_length [OF machine_ok_wf [OF assms(1)] assms(2,3)] by blast

theorem disasm_agrees_with_executor_witness:
  "(reads_reserved (decode_rvc 0 0) \<longleftrightarrow> execute_inst16 (native_env False) 0 boot = Some (Inl (IllegalInstruction 0 0), boot))
   \<and> di_is_compressed (decode_instruction_with_symbols 0 0 None)"
proof -
  have "in_ram (pc (cpu boot)) 4" by (simp add: boot_def cpu_new_def in_ram_low)
  from disasm_agrees_with_executor [OF boot_ok this boot_fetch, where a = 0 and c = 0 and names = None] show ?thesis
    by (simp add: boot_def cpu_new_def load32_def from_le_bytes4_def)
qed

text \<open>C25: what the listing says. The text of an instruction of RV32IM other than \<open>fence\<close>, of \<open>csrrw\<close>, \<open>csrrs\<close>, \<open>csrrc\<close>,
  \<open>ecall\<close>, \<open>ebreak\<close>, \<open>mret\<close>, \<open>flw\<close> or \<open>fsw\<close>, pseudo-instructions and symbol names included, assembles back to the word it was
  printed for. The text of a halfword assembles to the instruction that the halfword abbreviates and to nothing when it
  is reserved; only the hints of \<open>c.addi\<close> to \<open>zero\<close> all read \<open>c.nop\<close>. The remaining words are not listed faithfully: \<open>csrrwi\<close>,
  \<open>csrrsi\<close> and \<open>csrrci\<close> show a register where their immediate belongs and so do not assemble, \<open>fld\<close> and \<open>fsd\<close> read as
  \<open>flw\<close> and \<open>fsw\<close>, and the other opcodes (\<open>fence\<close>, the atomics, floating-point arithmetic) have no text that assembles.\<close>

theorem listing_reassembles:
  shows "(wf_listed i \<longrightarrow> assemble addr (decode_rv32 addr (code_of i) names) = Some (code_of i))
    \<and> assemble addr (decode_rvc addr c) = (if nop_hint c then Some 0x00000013 else expand16 c)
    \<and> (f \<in> {5, 6, 7} \<and> rd < 32 \<and> rs1 < 32 \<and> n < 4096 \<longrightarrow> assemble addr (decode_rv32 addr (encode_i 0x73 rd f rs1 n) names) = None)
    \<and> (rd < 32 \<and> rs1 < 32 \<and> signed_take_bit 11 imm = imm \<longrightarrow>
        assemble addr (decode_rv32 addr (encode_i 0x07 rd 3 rs1 imm) names) = Some (encode_i 0x07 rd 2 rs1 imm))
    \<and> (rs1 < 32 \<and> rs2 < 32 \<and> signed_take_bit 11 imm = imm \<longrightarrow>
        assemble addr (decode_rv32 addr (encode_s 0x27 3 rs1 rs2 imm) names) = Some (encode_s 0x27 2 rs1 rs2 imm))
    \<and> (d_opcode (decode32 w) \<notin> listed_opcodes \<longrightarrow> assemble addr (decode_rv32 addr w names) = None)"
  by (intro conjI impI; (elim conjE)?;
      rule assemble_decode_rv32 assemble_decode_rvc assemble_csr_imm assemble_double assemble_unimpl; assumption)

theorem listing_reassembles_witness:
  "assemble 0x100 (decode_rv32 0x100 (asm (Branch BNE 10 0 (- 8))) (Some [0xF8 \<mapsto> ''loop, (1)''])) = Some 0xFE051CE3
   \<and> assemble 0x100 (decode_rvc 0x100 0x952E) = Some (encode_r 0x33 10 0 10 11 0)
   \<and> assemble 0x100 (decode_rv32 0x100 (encode_i 0x73 10 5 3 0x300) None) = None
   \<and> assemble 0x100 (decode_rv32 0x100 (encode_i 0x07 10 3 2 8) None) = Some (encode_i 0x07 10 2 2 8)
   \<and> assemble 0x100 (decode_rv32 0x100 0x0000000F None) = None"
proof -
  have "expand16 0x952E = Some (encode_r 0x33 10 0 10 11 0)"
    by (simp add: expand16_code decode16_def shift_then_mask_def expand_q2_code Let_def c_bit12_def c_rd_def c_rs2_def)
  moreover have "d_opcode (decode32 0x0000000F) \<notin> listed_opcodes" by (simp add: decode32_def listed_opcodes_def)
  ultimately show ?thesis
    using listing_reassembles [where i = "Plain (Branch BNE 10 0 (- 8))" and addr = "0x100" and names = "Some [0xF8 \<mapsto> ''loop, (1)'']"
        and c = "0x952E"]
      listing_reassembles [where addr = "0x100" and names = None and f = 5 and rd = 10 and ?rs1.0 = 3 and n = "0x300" and w = "0x0000000F"]
      listing_reassembles [where addr = "0x100" and names = None and rd = 10 and ?rs1.0 = 2 and imm = 8]
    by (simp add: nop_hint_def encode_b_def)
qed

text \<open>C26: a listing ends and covers the range it was asked for: each item starts where the one before it ended, in
  RAM it is the disassembly of the instruction at its address, the listing stops only behind the end of the
  range, and the machine is left as it was but for the state of devices that were read.\<close>

theorem disassemble_range_contiguous:
  "machine_ok (machine m) \<Longrightarrow> returns (disassemble_range E start len m)
     (\<lambda>(items, m'). listing m start (saturating_add start len) items
        \<and> (\<exists>h. m' = m\<lparr>machine := (machine m)\<lparr>host := h\<rparr>\<rparr>))"
  unfolding disassemble_range_def by (rule disassemble_loop_listing)

theorem disassemble_range_contiguous_witness:
  "returns (disassemble_range (native_env False) 0 6 (simulator_new fresh_host))
     (\<lambda>(items, m'). listing (simulator_new fresh_host) 0 6 items \<and> items \<noteq> [])"
proof -
  have "machine_ok (machine (simulator_new fresh_host))" using boot_ok by (simp add: simulator_new_def boot_def)
  from disassemble_range_contiguous [OF this, of "native_env False" 0 6] show ?thesis
    by (auto elim!: returnsE simp: saturating_add_def)
qed

section \<open>Floating point\<close>

text \<open>C27: floating-point arithmetic is IEEE arithmetic: \<open>fadd\<close>, \<open>fsub\<close>, \<open>fmul\<close>, \<open>fdiv\<close> and \<open>fsqrt\<close>, in both
  formats, deliver the representable number nearest to the exact real result of their operands, ties to even,
  whatever rounding mode the instruction names, with overflow to infinity; the canonical NaN for the operations that IEEE 754 calls invalid and only for those; and a
  signed infinity from a division by zero. Singles are stored NaN-boxed, and nothing else changes.\<close>

theorem float_arithmetic_ieee:
  assumes "rd < 32" "r1 < 32" "r2 < 32" "rm < 8" "f5 \<in> arith_codes"
  shows "(\<exists>r. execute_inst32 E (encode_r 0x53 rd rm r1 r2 (f5 * 4 + 1)) s = Some (Inr (), put_freg (next_inst s) rd r)
      \<and> ieee_result 52 11 f5 (f64_val (fregs (cpu s) r1)) (f64_val (fregs (cpu s) r2)) (unat r))
    \<and> (\<exists>r. execute_inst32 E (encode_r 0x53 rd rm r1 r2 (f5 * 4)) s = Some (Inr (), put_freg (next_inst s) rd (nan_box r))
      \<and> ieee_result 23 8 f5 (f32_val (unbox (fregs (cpu s) r1))) (f32_val (unbox (fregs (cpu s) r2))) (unat r))"
  using arith_ieee [OF assms] by blast

theorem float_arithmetic_ieee_witness:
  "\<exists>r. execute_inst32 (native_env False) (encode_r 0x53 3 0 1 2 13)
        (put_freg (put_freg boot 1 0x3FF0000000000000) 2 0x4008000000000000)
      = Some (Inr (), put_freg (next_inst (put_freg (put_freg boot 1 0x3FF0000000000000) 2 0x4008000000000000)) 3 r)
     \<and> correct_rounding 52 11 (1 / 3) (unat r)"
proof -
  let ?s = "put_freg (put_freg boot 1 0x3FF0000000000000) 2 0x4008000000000000"
  have v: "f64_val (fregs (cpu ?s) 1) = Fin False (2 ^ 52) (- 52)" "f64_val (fregs (cpu ?s) 2) = Fin False (3 * 2 ^ 51) (- 51)"
    by (simp_all add: put_freg_def f64_val_def unpack_def Let_def fp_emin_def fp_bias_def)
  have x: "fp_real (Fin False (2 ^ 52) (- 52)) = 1" "fp_real (Fin False (3 * 2 ^ 51) (- 51)) = 3"
    by (simp_all add: power_int_minus)
  have "3 \<in> arith_codes" by (simp add: arith_codes_def)
  from float_arithmetic_ieee [OF _ _ _ _ this, of 3 1 2 0 "native_env False" ?s]
  show ?thesis unfolding v ieee_result_def exact_op_def x by auto
qed

text \<open>C28: comparisons compare numbers: \<open>feq\<close>, \<open>flt\<close> and \<open>fle\<close>, in both formats, write 1 or 0 according to the order of
  the real numbers, with the infinities at its ends and the two zeros equal, and write 0 when an operand is a NaN.\<close>

theorem float_comparisons:
  assumes "rd < 32" "r1 < 32" "r2 < 32" "funct3 \<in> {0, 1, 2}"
  shows "execute_inst32 E (encode_r 0x53 rd funct3 r1 r2 0x51) s = Some (Inr (), put_xreg (next_inst s) rd
      (if compare_result funct3 (f64_val (fregs (cpu s) r1)) (f64_val (fregs (cpu s) r2)) then 1 else 0))
    \<and> execute_inst32 E (encode_r 0x53 rd funct3 r1 r2 0x50) s = Some (Inr (), put_xreg (next_inst s) rd
      (if compare_result funct3 (f32_val (unbox (fregs (cpu s) r1))) (f32_val (unbox (fregs (cpu s) r2))) then 1 else 0))"
  unfolding run_compare [OF assms] bool_word_def by (rule conjI refl)+

theorem float_comparisons_witness:
  "execute_inst32 (native_env False) (encode_r 0x53 5 2 1 2 0x51) (put_freg boot 1 0x8000000000000000)
     = Some (Inr (), put_xreg (next_inst (put_freg boot 1 0x8000000000000000)) 5 1)"
proof -
  let ?s = "put_freg boot 1 0x8000000000000000"
  have "f64_val (fregs (cpu ?s) 1) = Fin True 0 (- 1074)" "f64_val (fregs (cpu ?s) 2) = Fin False 0 (- 1074)"
    by (simp_all add: put_freg_def boot_def cpu_new_def f64_val_def unpack_def Let_def fp_emin_def fp_bias_def)
  then show ?thesis
    using float_comparisons [of 5 1 2 2 "native_env False" ?s] by (simp add: compare_result_def number_eq_def)
qed

text \<open>C29: conversions convert numbers: to an integer they truncate towards zero and saturate at the ends of its
  range; from an integer, and from a double to a single, they deliver the correctly rounded number.\<close>

theorem float_conversions:
  assumes "rd < 32" "r1 < 32" "rm < 8" "x = f64_val (fregs (cpu s) r1)" "y = f32_val (unbox (fregs (cpu s) r1))"
  shows "execute_inst32 E (encode_r 0x53 rd rm r1 0 0x61) s
        = Some (Inr (), put_xreg (next_inst s) rd (word_of_int (to_integer (- (2 ^ 31)) (2 ^ 31 - 1) x)))
    \<and> execute_inst32 E (encode_r 0x53 rd rm r1 1 0x61) s
        = Some (Inr (), put_xreg (next_inst s) rd (word_of_int (to_integer 0 (2 ^ 32 - 1) x)))
    \<and> execute_inst32 E (encode_r 0x53 rd rm r1 0 0x60) s
        = Some (Inr (), put_xreg (next_inst s) rd (word_of_int (to_integer (- (2 ^ 31)) (2 ^ 31 - 1) y)))
    \<and> execute_inst32 E (encode_r 0x53 rd rm r1 1 0x60) s
        = Some (Inr (), put_xreg (next_inst s) rd (word_of_int (to_integer 0 (2 ^ 32 - 1) y)))
    \<and> (\<exists>r. execute_inst32 E (encode_r 0x53 rd rm r1 0 0x68) s = Some (Inr (), put_freg (next_inst s) rd (nan_box r))
        \<and> correct_rounding 23 8 (real_of_int (sint (xreg s r1))) (unat r))
    \<and> (\<exists>r. execute_inst32 E (encode_r 0x53 rd rm r1 1 0x68) s = Some (Inr (), put_freg (next_inst s) rd (nan_box r))
        \<and> correct_rounding 23 8 (real_of_int (uint (xreg s r1))) (unat r))
    \<and> (fp_fin x \<longrightarrow> (\<exists>r. execute_inst32 E (encode_r 0x53 rd rm r1 1 0x20) s
        = Some (Inr (), put_freg (next_inst s) rd (nan_box r)) \<and> correct_rounding 23 8 (fp_real x) (unat r)))"
  unfolding assms(4,5)
  by (intro conjI impI fcvt_to_integer [OF assms(1-3) refl refl] fcvt_to_float [OF assms(1-3)])

theorem float_conversions_witness:
  "execute_inst32 (native_env False) (encode_r 0x53 5 0 1 0 0x61) (put_freg boot 1 0xC004000000000000)
     = Some (Inr (), put_xreg (next_inst (put_freg boot 1 0xC004000000000000)) 5 (- 2))"
proof -
  let ?s = "put_freg boot 1 0xC004000000000000"
  have v: "f64_val (fregs (cpu ?s) 1) = Fin True (5 * 2 ^ 50) (- 51)"
    by (simp add: put_freg_def f64_val_def unpack_def Let_def fp_emin_def fp_bias_def)
  have "fp_real (Fin True (5 * 2 ^ 50) (- 51)) = - (5 / 2)" by (simp add: power_int_minus)
  then have "to_integer (- (2 ^ 31)) (2 ^ 31 - 1) (Fin True (5 * 2 ^ 50) (- 51)) = - 2"
    by (simp add: to_integer_def truncate_def ceiling_minus del: fp_real.simps)
  then show ?thesis
    using float_conversions [of 5 1 0 "Fin True (5 * 2 ^ 50) (- 51)" ?s _ "native_env False"] v by simp
qed

text \<open>C30: floating-point values survive the transfers that can be exact: \<open>fsd\<close> and then \<open>fld\<close> give back every double;
  32-bit integers, signed and unsigned, survive the conversion to a double and back; a single that is not a NaN survives
  the conversion to a double and back, subnormals and infinities included. But \<open>fld\<close> canonicalises NaNs, so a register
  that holds a single, which is NaN-boxed, comes back from memory as the NaN.\<close>

theorem float_transfers_restore:
  assumes "machine_ok s" "\<not> overflow_checks E" "r1 < 32" "fs < 32" "fd < 32" "rd < 32" "rd \<noteq> 0" "rm < 8"
    "signed_take_bit 11 imm = imm" "in_ram (xreg s r1 + imm) 8"
  shows "(\<exists>s' s''. execute_inst32 E (encode_s 0x27 3 r1 fs imm) s = Some (Inr (), s')
      \<and> execute_inst32 E (encode_i 0x07 fd 3 r1 imm) s' = Some (Inr (), s'')
      \<and> fregs (cpu s'') = (fregs (cpu s))(fd := canon64 (fregs (cpu s) fs))
      \<and> (\<forall>v. fregs (cpu s) fs = nan_box v \<longrightarrow> unbox (fregs (cpu s'') fd) = NAN_F32))
    \<and> execute_inst32 E (encode_r 0x53 fd rm r1 0 0x69) s \<bind>
      (\<lambda>(_, s'). execute_inst32 E (encode_r 0x53 rd rm fd 0 0x61) s' \<bind> (\<lambda>(_, s''). Some (xreg s'' rd))) = Some (xreg s r1)
    \<and> execute_inst32 E (encode_r 0x53 fd rm r1 1 0x69) s \<bind>
      (\<lambda>(_, s'). execute_inst32 E (encode_r 0x53 rd rm fd 1 0x61) s' \<bind> (\<lambda>(_, s''). Some (xreg s'' rd))) = Some (xreg s r1)
    \<and> (\<not> f32_is_nan (unbox (fregs (cpu s) fs)) \<longrightarrow> execute_inst32 E (encode_r 0x53 fd rm fs 0 0x21) s \<bind>
      (\<lambda>(_, s'). execute_inst32 E (encode_r 0x53 rd rm fd 1 0x20) s' \<bind> (\<lambda>(_, s''). Some (unbox (fregs (cpu s'') rd))))
        = Some (unbox (fregs (cpu s) fs)))"
proof (intro conjI)
  show "\<exists>s' s''. execute_inst32 E (encode_s 0x27 3 r1 fs imm) s = Some (Inr (), s')
      \<and> execute_inst32 E (encode_i 0x07 fd 3 r1 imm) s' = Some (Inr (), s'')
      \<and> fregs (cpu s'') = (fregs (cpu s))(fd := canon64 (fregs (cpu s) fs))
      \<and> (\<forall>v. fregs (cpu s) fs = nan_box v \<longrightarrow> unbox (fregs (cpu s'') fd) = NAN_F32)"
    by (rule fsd_then_fld [OF assms(1-5,9,10)])
qed (use convert_back [OF assms(5-7) _ assms(8)] assms(3,4) in auto)

theorem float_transfers_restore_witness:
  "\<exists>s' s''. execute_inst32 (native_env False) (encode_s 0x27 3 0 1 64) (put_freg boot 1 (nan_box 0x3F800000)) = Some (Inr (), s')
     \<and> execute_inst32 (native_env False) (encode_i 0x07 2 3 0 64) s' = Some (Inr (), s'')
     \<and> unbox (fregs (cpu s'') 2) = NAN_F32"
proof -
  let ?s = "put_freg boot 1 (nan_box 0x3F800000)"
  have "machine_ok ?s" using boot_ok by (simp add: machine_ok_def)
  moreover have "in_ram (xreg ?s 0 + 64) 8" by (simp add: in_ram_low)
  moreover have "\<not> overflow_checks (native_env False :: unit native_host env)" by (simp add: native_release)
  ultimately show ?thesis
    using float_transfers_restore [of ?s "native_env False" 0 1 2 5 0 64] by auto
qed

text \<open>C31: the multiply-add instructions round twice, in both formats: the product is an IEEE product \<open>p\<close>, the result \<open>q\<close>
  the IEEE sum or difference of \<open>p\<close> and the third operand, negated at the end in the negated forms. So they are
  not fused: on the operands of the last two lines the exact result rounds to \<open>2^-24\<close> and the emulator delivers zero.\<close>

theorem madd_rounds_twice:
  assumes "rd < 32" "r1 < 32" "r2 < 32" "r3 < 32" "rm < 8" "opcode \<in> madd_ops"
  shows "(\<exists>p q. execute_inst32 E (encode_r4 opcode rd rm r1 r2 r3 1) s = Some (Inr (), put_freg (next_inst s) rd
        (canon64 (if madd_negates opcode then f64_neg q else q)))
      \<and> ieee_result 52 11 2 (f64_val (fregs (cpu s) r1)) (f64_val (fregs (cpu s) r2)) (unat p)
      \<and> ieee_result 52 11 (madd_code opcode) (f64_val p) (f64_val (fregs (cpu s) r3)) (unat q))
    \<and> (\<exists>p q. execute_inst32 E (encode_r4 opcode rd rm r1 r2 r3 0) s = Some (Inr (), put_freg (next_inst s) rd
        (box (if madd_negates opcode then f32_neg q else q)))
      \<and> ieee_result 23 8 2 (f32_val (unbox (fregs (cpu s) r1))) (f32_val (unbox (fregs (cpu s) r2))) (unat p)
      \<and> ieee_result 23 8 (madd_code opcode) (f32_val p) (f32_val (unbox (fregs (cpu s) r3))) (unat q))
    \<and> madd_s OP_MADD 0x3F800800 0x3F800800 0xBF801000 = Some 0
    \<and> f32_of (fp_add (fp_mul (f32_val 0x3F800800) (f32_val 0x3F800800)) (f32_val 0xBF801000)) = 0x33800000"
proof (intro conjI madd_ieee [OF assms])
  show "madd_s OP_MADD 0x3F800800 0x3F800800 0xBF801000 = Some 0"
    by (simp add: madd_s_def sample_product sample_sum)
  show "f32_of (fp_add (fp_mul (f32_val 0x3F800800) (f32_val 0x3F800800)) (f32_val 0xBF801000)) = 0x33800000"
    by (simp add: sample_values round_defs)
qed

theorem madd_rounds_twice_witness:
  "\<exists>q. execute_inst32 (native_env True) (encode_r4 0x4B 4 7 1 2 3 0) boot
     = Some (Inr (), put_freg (next_inst boot) 4 (box (f32_neg q)))"
  using madd_rounds_twice [of 4 1 2 3 7 "0x4B" "native_env True" boot] by (auto simp: madd_ops_def madd_negates_def)

section \<open>Loading\<close>

text \<open>C32: an ELF file with program headers is loaded as it says: after loading, memory holds the file bytes of each
  loadable segment at its address, later segments over earlier ones, and zeros elsewhere. The symbol at an address is
  the last one in the file with that value, among those with a name and a nonzero value. Execution starts at
  the first such symbol called \<open>_start\<close>, provided that the header has an entry point, and otherwise at that entry
  point; in a file whose entry point is 0 execution starts at 0, whatever its symbols.\<close>

theorem load_elf_segments:
  assumes "\<not> overflow_checks E" "elf_parse bytes = Some elf" "program_headers elf \<noteq> []"
    "\<forall>p \<in> set (program_headers elf). segment_ok bytes p"
  shows "\<exists>entry sim'. load_binary_with_args elf_parse E bytes args sim = Some (entry, sim')
    \<and> pc (cpu (machine sim')) = entry
    \<and> ram (mem (machine sim')) = fold (segment_image bytes) (program_headers elf) (\<lambda>_. 0)
    \<and> (\<forall>a n. symbols sim' a = Some n \<longleftrightarrow> symbol_at (loaded_name elf) (\<lambda>y. ucast (st_value y)) (syms elf) a n)
    \<and> (\<forall>y. e_entry elf \<noteq> 0 \<and> first_symbol (start_label elf) (syms elf) y \<longrightarrow> entry = ucast (st_value y))
    \<and> (e_entry elf = 0 \<or> no_symbol (start_label elf) (syms elf) \<longrightarrow> entry = ucast (e_entry elf))"
  using load_elf_image [of E elf_parse bytes elf args sim] assms segment_symbols_at [of elf "syms elf"]
    start_override_first(1) [of elf _ "ucast (e_entry elf)"] start_override_first(2) [of elf "ucast (e_entry elf)"]
  by auto

theorem load_elf_segments_witness:
  "\<exists>sim'. load_binary_with_args (\<lambda>_. Some sample_elf) (native_env False) [0xAA, 0xBB, 0xCC] [] (simulator_new fresh_host)
     = Some (0x10002, sim') \<and> ram (mem (machine sim')) 0x10001 = 0xCC \<and> symbols sim' 0x10002 = Some ''_start''"
  using load_elf_segments [of "native_env False" "\<lambda>_. Some sample_elf" "[0xAA, 0xBB, 0xCC]" sample_elf "[]"
      "simulator_new fresh_host"] sample_elf_ok sample_elf_symbols
  by (auto simp: native_release sample_elf_image)

text \<open>C33: a relocatable object, an ELF file without program headers, is laid out from \<open>0x10000\<close> on: every section that
  occupies memory is found intact at its address (its bytes in the file, or zeros), the addresses respect the
  alignments, and no two sections overlap. A named symbol is found at its value plus the address of its section, or
  plus \<open>0x10000\<close> when it has none; of several at one address the last one counts. When the header has no entry
  point, execution starts at the first symbol called \<open>_start\<close> or \<open>main\<close> that is not relocated to 0, or at \<open>0x10000\<close>; when
  it has one, at the unrelocated value of \<open>_start\<close>, if that is not 0, or else at the entry point.\<close>

theorem load_relocatable_object:
  assumes "\<not> overflow_checks E" "elf_parse bytes = Some elf" "program_headers elf = []" "hs = section_headers elf"
    "\<forall>h \<in> set hs. relocatable bytes h" "layout_end hs 0x10000 \<le> 0xFFFF0000" "addrs = layout hs 0x10000"
  shows "\<exists>entry sim'. load_binary_with_args elf_parse E bytes args sim = Some (entry, sim')
    \<and> pc (cpu (machine sim')) = entry
    \<and> (\<forall>i < length hs. occupies (hs ! i) \<longrightarrow> 0x10000 \<le> addrs ! i \<and> section_align (hs ! i) dvd addrs ! i
        \<and> (\<forall>k < unat (sh_size (hs ! i)). ram (mem (machine sim')) (word_of_nat (addrs ! i + k)) = section_data bytes (hs ! i) k))
    \<and> (\<forall>j < length hs. \<forall>i < j. occupies (hs ! i) \<and> occupies (hs ! j) \<longrightarrow> addrs ! i + unat (sh_size (hs ! i)) \<le> addrs ! j)
    \<and> (\<forall>a n. symbols sim' a = Some n \<longleftrightarrow> symbol_at (sym_name elf) (relocated addrs) (syms elf) a n)
    \<and> (\<forall>y. e_entry elf \<noteq> 0 \<and> first_symbol (start_label elf) (syms elf) y \<longrightarrow> entry = ucast (st_value y))
    \<and> (e_entry elf = 0 \<or> no_symbol (start_label elf) (syms elf) \<longrightarrow>
        ((ucast (e_entry elf) :: u32) \<noteq> 0 \<longrightarrow> entry = ucast (e_entry elf))
      \<and> ((ucast (e_entry elf) :: u32) = 0 \<longrightarrow>
          (\<forall>y. first_symbol (entry_symbol elf addrs) (syms elf) y \<longrightarrow> entry = relocated addrs y)
        \<and> (no_symbol (entry_symbol elf addrs) (syms elf) \<longrightarrow> entry = 0x10000)))"
proof -
  obtain m e where sy: "section_symbols elf (map word_of_nat (layout hs 0x10000)) (syms elf) (\<lambda>_. None) (ucast (e_entry elf)) = (m, e)"
    by fastforce
  have al: "\<forall>h \<in> set hs. aligned_shdr h" using assms(5) by (simp add: relocatable_def)
  have m: "\<forall>a n. m a = Some n \<longleftrightarrow> symbol_at (sym_name elf) (relocated addrs) (syms elf) a n"
    using section_symbols_at [of elf "layout hs 0x10000" "syms elf"] sy by (metis assms(7) fst_conv)
  obtain sim' where l: "load_binary_with_args elf_parse E bytes args sim
      = Some (start_override elf (if e = 0 then 0x10000 else e), sim')"
    "pc (cpu (machine sim')) = start_override elf (if e = 0 then 0x10000 else e)" "symbols sim' = m"
    "ram (mem (machine sim')) = sections_image bytes hs 0x10000 (\<lambda>_. 0)"
    using load_elf_sections [of E elf_parse bytes elf hs m e args sim] assms(1-6) sy by blast
  show ?thesis
    by (rule exI, rule exI [of _ sim'], intro conjI, rule l(1), rule l(2))
       (use layout_bounds [OF al] layout_disjoint [OF al] sections_image_at [OF assms(5,6), of "\<lambda>_. 0"] l(3,4) m
          start_override_first(1) [of elf] object_entry [OF sy] in \<open>simp_all add: assms(7)\<close>)
qed

theorem load_relocatable_object_witness:
  "\<exists>sim'. load_binary_with_args (\<lambda>_. Some sample_object) (native_env False) [0xAA, 0xBB, 0xCC, 0xDD] []
       (simulator_new fresh_host) = Some (0x1000C, sim')
     \<and> ram (mem (machine sim')) 0x10001 = 0xCC \<and> ram (mem (machine sim')) 0x1000C = 0 \<and> symbols sim' 0x1000C = Some ''main''"
proof -
  let ?hs = "section_headers sample_object"
  have h: "length ?hs = 2" "occupies (?hs ! 0)" "occupies (?hs ! 1)" "unat (sh_size (?hs ! 0)) = 3" "unat (sh_size (?hs ! 1)) = 5"
      "section_data [0xAA, 0xBB, 0xCC, 0xDD] (?hs ! 0) 1 = 0xCC" "section_data [0xAA, 0xBB, 0xCC, 0xDD] (?hs ! 1) 4 = 0"
    using sample_occupies by (simp_all add: sample_object_def section_data_def SHT_PROGBITS_def SHT_NOBITS_def)
  have p: "program_headers sample_object = []" "e_entry sample_object = 0" by (simp_all add: sample_object_def)
  obtain entry sim' where l: "load_binary_with_args (\<lambda>_. Some sample_object) (native_env False) [0xAA, 0xBB, 0xCC, 0xDD] []
       (simulator_new fresh_host) = Some (entry, sim')"
    "\<forall>i < 2. occupies (?hs ! i) \<longrightarrow> (\<forall>k < unat (sh_size (?hs ! i)). ram (mem (machine sim'))
        (word_of_nat ([0x10000, 0x10008] ! i + k)) = section_data [0xAA, 0xBB, 0xCC, 0xDD] (?hs ! i) k)"
    "\<forall>a n. symbols sim' a = Some n \<longleftrightarrow> symbol_at (sym_name sample_object) (relocated [0x10000, 0x10008]) (syms sample_object) a n"
    "\<forall>y. first_symbol (entry_symbol sample_object [0x10000, 0x10008]) (syms sample_object) y \<longrightarrow> entry = relocated [0x10000, 0x10008] y"
    using load_relocatable_object [OF _ refl p(1) refl sample_object_ok _ refl, of "native_env False" "[]" "simulator_new fresh_host"]
    unfolding sample_object_layout h(1) p(2) by (auto simp: native_release)
  have "entry = 0x1000C"
    using l(4) [rule_format, OF sample_object_entry(1)] by (simp only: sample_object_entry(2))
  moreover have "symbols sim' 0x1000C = Some ''main''" using l(3) sample_object_entry(3) by blast
  ultimately show ?thesis
    using l(2) [rule_format, of 0 1] l(2) [rule_format, of 1 4] h l(1) by simp
qed

text \<open>C34: loading never panics on a file whose ranges do not wrap around, whatever the command line says, and leaves
  a machine that satisfies the invariant, is ready to run from the entry point and carries no debugger state;
  only the custom-handler setting survives from before. A file that is not an ELF file is copied to address 0,
  byte for byte, and started there.\<close>

theorem load_binary_fresh:
  assumes "\<not> overflow_checks E" "\<forall>elf. elf_parse bytes = Some elf \<longrightarrow> elf_ok elf"
  shows "returns (load_binary_with_args elf_parse E bytes args sim)
    (\<lambda>(entry, sim'). fresh_ctrl (has_custom_syscalls (cpu (machine sim))) (machine sim') \<and> pc (cpu (machine sim')) = entry
       \<and> (elf_parse bytes = None \<and> length bytes \<le> 0xFFFF0000 \<longrightarrow> entry = 0 \<and> host (machine sim') = host (machine sim)
          \<and> (\<forall>k < length bytes. ram (mem (machine sim')) (word_of_nat k) = bytes ! k)))"
proof -
  have "returns (load_binary_with_args elf_parse E bytes args sim)
    (\<lambda>(entry, sim'). fresh_ctrl (has_custom_syscalls (cpu (machine sim))) (machine sim') \<and> pc (cpu (machine sim')) = entry)"
    using assms by (intro load_binary_safe) auto
  then show ?thesis
    using load_raw_image [of elf_parse bytes E args sim] by (auto elim!: returnsE)
qed

theorem load_binary_fresh_witness:
  "returns (load_binary_with_args (\<lambda>_. Some sample_elf) (native_env False) [0xAA, 0xBB, 0xCC] [''--setreg'', ''x5=7'']
      (simulator_new fresh_host)) (\<lambda>(entry, sim'). fresh_ctrl False (machine sim') \<and> pc (cpu (machine sim')) = entry)
   \<and> (\<exists>sim'. load_binary_with_args (\<lambda>_. None) (native_env False) [0x13, 0x05] [] (simulator_new fresh_host) = Some (0, sim')
     \<and> ram (mem (machine sim')) 1 = 0x05)"
proof
  show "returns (load_binary_with_args (\<lambda>_. Some sample_elf) (native_env False) [0xAA, 0xBB, 0xCC] [''--setreg'', ''x5=7'']
      (simulator_new fresh_host)) (\<lambda>(entry, sim'). fresh_ctrl False (machine sim') \<and> pc (cpu (machine sim')) = entry)"
    using load_binary_fresh [of "native_env False" "\<lambda>_. Some sample_elf" "[0xAA, 0xBB, 0xCC]" "[''--setreg'', ''x5=7'']"
        "simulator_new fresh_host"] sample_elf_ok
    by (auto simp: native_release simulator_new_def cpu_new_def)
  show "\<exists>sim'. load_binary_with_args (\<lambda>_. None) (native_env False) [0x13, 0x05] [] (simulator_new fresh_host) = Some (0, sim')
     \<and> ram (mem (machine sim')) 1 = 0x05"
    using load_binary_fresh [of "native_env False" "\<lambda>_. None" "[0x13, 0x05]" "[]" "simulator_new fresh_host"]
    by (auto simp: native_release elim!: returnsE dest!: spec [of _ 1])
qed

text \<open>C35: from the file to the exit code: when the guest that is loaded from a file stops after some number of
  instructions, the one-shot entry point returns, with the exit code and the machine of that stop.\<close>

theorem run_riscv_binary_returns:
  assumes "calm_host E" "\<not> overflow_checks E" "\<forall>elf. elf_parse bytes = Some elf \<longrightarrow> elf_ok elf"
    "load_binary elf_parse as_string E bytes args_js (simulator_new h) = Some (entry, sim)"
    "exec_n E False n None (machine sim) = Some (k, Some status, skip, s')"
  shows "run_riscv_binary elf_parse as_string E bytes args_js h = Some (Some (exit_code (cpu s'), sim\<lparr>machine := s'\<rparr>))"
proof -
  have "returns (load_binary elf_parse as_string E bytes args_js (simulator_new h))
      (\<lambda>(entry, sim'). fresh_ctrl False (machine sim'))"
    using assms(2,3) unfolding load_binary_def
    by (intro returns_mono [OF load_binary_safe]) (auto simp: simulator_new_def cpu_new_def)
  then have "fresh_ctrl False (machine sim)" using assms(4) by simp
  then have "run E (machine sim) = Some (Some (exit_code (cpu s'), s'))"
    using calm_host.run_stops [OF assms(1,2) _ _ _ assms(5)] by (simp add: fresh_ctrl_def)
  then show ?thesis using assms(4) by (simp add: run_riscv_binary_def run_full_def lift_machine_def)
qed

theorem run_riscv_binary_returns_witness:
  "\<exists>code sim. run_riscv_binary (\<lambda>_. None) Some (native_env False) [0x73, 0x00, 0x10, 0x00] [''--newlib''] fresh_host
     = Some (Some (code, sim)) \<and> is_halted (cpu (machine sim)) \<and> pc (cpu (machine sim)) = 4"
proof -
  obtain sim where sim: "load_binary (\<lambda>_. None) Some (native_env False) [0x73, 0x00, 0x10, 0x00] [''--newlib'']
      (simulator_new fresh_host) = Some (0, sim)" "fresh_ctrl False (machine sim)" "pc (cpu (machine sim)) = 0"
      "load32 (ram (mem (machine sim))) 0 = 0x00100073"
    using ebreak_file by blast
  then have "machine_ok (machine sim)" "\<not> is_halted (cpu (machine sim))" by (simp_all add: fresh_ctrl_def)
  from run_riscv_binary_returns [OF native_calm.calm_host_axioms _ _ sim(1) ebreak_stops [OF this sim(3,4)]]
  show ?thesis by (simp add: native_release)
qed

section \<open>The debugger\<close>

text \<open>C36: stepping over and stepping out end where they should and leave no trace of the temporary breakpoint they
  use: whenever a command returns, it has not panicked and the user's breakpoints and settings are what they were.
  When the guest, run with that breakpoint behind the call or at the return address, stops after some number of
  instructions, the command does return, with the machine of that very stop. Stepping over any other
  instruction always returns and is a single step. A call is a \<open>jal\<close> or \<open>jalr\<close> that links into \<open>ra\<close> or \<open>t0\<close>, or a
  halfword that expands to one; \<open>c.add\<close> and \<open>c.ebreak\<close>, which are no calls, are treated as if they were.\<close>

theorem step_over_out_contract:
  assumes "stdin_host E" "\<not> overflow_checks E" "machine_ok (machine m)" "s = machine m" "p = pc (cpu s)"
    "w = load32 (ram (mem s)) p"
  shows "(\<forall>r. debug_step_over E m = Some r \<or> debug_step_out E m = Some r \<longrightarrow>
      (\<exists>snap m'. r = Some (snap, m') \<and> breakpoints (cpu (machine m')) = breakpoints (cpu s)
        \<and> debug_enabled (cpu (machine m')) = debug_enabled (cpu s) \<and> machine_ok (machine m')))
    \<and> (quiet_host E \<and> temporary_stop E (regs (cpu s) 1) m n st s' \<longrightarrow>
      (\<exists>r. debug_step_out E m = Some (Some r) \<and> stopped_there m st s' r))
    \<and> (quiet_host E \<and> in_ram p 4 \<and> (call_site w \<or> call_lookalike w) \<and> temporary_stop E (p + (if w AND 3 = 3 then 4 else 2)) m n st s' \<longrightarrow>
      (\<exists>r. debug_step_over E m = Some (Some r) \<and> stopped_there m st s' r))
    \<and> (in_ram p 4 \<and> \<not> call_site w \<and> \<not> call_lookalike w \<longrightarrow>
      debug_step_over E m = Some (debug_step E m) \<and> debug_step E m \<noteq> None)"
proof (intro conjI allI impI)
  fix r assume "debug_step_over E m = Some r \<or> debug_step_out E m = Some r"
  then have "returns r (settings_kept m)"
    using stdin_host.debug_step_over_safe [OF assms(1-3)] stdin_host.debug_step_out_safe [OF assms(1-3)] by blast
  then show "\<exists>snap m'. r = Some (snap, m') \<and> breakpoints (cpu (machine m')) = breakpoints (cpu s)
        \<and> debug_enabled (cpu (machine m')) = debug_enabled (cpu s) \<and> machine_ok (machine m')"
    by (auto simp: settings_kept_def assms(4) elim!: returnsE)
qed (use assms(1) calm_host.intro [OF assms(1)] calm_host.debug_step_out_returns [OF _ assms(2,3)]
      calm_host.debug_step_over_call [OF _ assms(2,3)] stdin_host.debug_step_over_single [OF assms(1-3)]
    in \<open>auto simp: assms(4-6) is_call_instruction_iff\<close>)

theorem step_over_out_contract_witness:
  "\<exists>snap m'. debug_step_out (native_env False) \<lparr>machine = looper, symbols = (\<lambda>_. None)\<rparr> = Some (Some (snap, m'))
     \<and> sn_is_breakpoint snap \<and> sn_pc snap = 0 \<and> breakpoints (cpu (machine m')) = {0}"
proof -
  let ?m = "\<lparr>machine = looper, symbols = (\<lambda>_. None)\<rparr>"
  obtain s' where s': "temporary_stop (native_env False) (regs (cpu looper) 1) ?m 2 Breakpoint s'" "pc (cpu s') = 0"
    using looper_temporary_stop by blast
  have ok: "machine_ok (machine ?m)" "looper = machine ?m" by (simp_all add: looper_ok)
  from step_over_out_contract [OF native_stdin.stdin_host_axioms _ ok refl refl, of False 2 Breakpoint s'] s'
  show ?thesis by (auto simp: native_release native_quiet.quiet_host_axioms stopped_there_def looper_settings)
qed

text \<open>C37: a run to a breakpoint returns and reports truthfully: when the guest reaches a breakpoint, halts or traps
  after some number of instructions, however many slices that takes, the command returns with the machine of that
  very stop; and whenever it returns, on any host, it is without a panic and with the snapshot of the machine it
  leaves, which shows a breakpoint hit exactly when the guest is not halted, at the program counter and at one of
  the breakpoints.\<close>

theorem run_until_breakpoint_returns:
  assumes "stdin_host E" "\<not> overflow_checks E" "machine_ok (machine m)" "s = machine m"
  shows "(quiet_host E \<and> exec_n E (debug_enabled (cpu s) \<and> breakpoints (cpu s) \<noteq> {}) n (resume_past_breakpoint (cpu s))
        (s\<lparr>cpu := (cpu s)\<lparr>resume_past_breakpoint := None\<rparr>\<rparr>) = Some (k, Some status, skip, s') \<longrightarrow>
      (\<exists>snap. run_until_breakpoint E m = Some (Some (snap, m\<lparr>machine := s'\<rparr>))
        \<and> sn_is_breakpoint snap = (status = Breakpoint) \<and> sn_exit_code snap = exit_code (cpu s')))
    \<and> (\<forall>r. run_until_breakpoint E m = Some r \<longrightarrow>
        (\<exists>snap m'. r = Some (snap, m') \<and> machine_ok (machine m') \<and> sn_pc snap = pc (cpu (machine m'))
          \<and> sn_is_halted snap = is_halted (cpu (machine m')) \<and> sn_is_breakpoint snap = (\<not> is_halted (cpu (machine m')))
          \<and> (sn_is_breakpoint snap \<longrightarrow> sn_hit_address snap = sn_pc snap \<and> sn_pc snap \<in> breakpoints (cpu (machine m')))
          \<and> breakpoints (cpu (machine m')) = breakpoints (cpu (machine m))))"
proof (intro conjI allI impI)
  assume a: "quiet_host E \<and> exec_n E (debug_enabled (cpu s) \<and> breakpoints (cpu s) \<noteq> {}) n (resume_past_breakpoint (cpu s))
      (s\<lparr>cpu := (cpu s)\<lparr>resume_past_breakpoint := None\<rparr>\<rparr>) = Some (k, Some status, skip, s')"
  then have "calm_host E" using assms(1) by (simp add: calm_host.intro)
  from calm_host.run_until_breakpoint_stops [OF this assms(2-4) conjunct2 [OF a]]
  show "\<exists>snap. run_until_breakpoint E m = Some (Some (snap, m\<lparr>machine := s'\<rparr>))
      \<and> sn_is_breakpoint snap = (status = Breakpoint) \<and> sn_exit_code snap = exit_code (cpu s')"
    using snapshot_value [of "cpu s'" "status = Breakpoint" "if status = Breakpoint then pc (cpu s') else 0"]
    by (auto simp: get_snapshot_js_def)
next
  fix r assume "run_until_breakpoint E m = Some r"
  then have "returns r (stop_post m)"
    using stdin_host.run_until_breakpoint_safe [OF assms(1,2)] assms(3) by blast
  then show "\<exists>snap m'. r = Some (snap, m') \<and> machine_ok (machine m') \<and> sn_pc snap = pc (cpu (machine m'))
      \<and> sn_is_halted snap = is_halted (cpu (machine m')) \<and> sn_is_breakpoint snap = (\<not> is_halted (cpu (machine m')))
      \<and> (sn_is_breakpoint snap \<longrightarrow> sn_hit_address snap = sn_pc snap \<and> sn_pc snap \<in> breakpoints (cpu (machine m')))
      \<and> breakpoints (cpu (machine m')) = breakpoints (cpu (machine m))"
    by (auto simp: stop_post_def conf_of_def elim!: returnsE split: if_splits)
qed

theorem run_until_breakpoint_returns_witness:
  "\<exists>snap m'. run_until_breakpoint (native_env False) \<lparr>machine = looper, symbols = (\<lambda>_. None)\<rparr> = Some (Some (snap, m'))
     \<and> sn_is_breakpoint snap \<and> sn_hit_address snap = 0"
proof -
  let ?m = "\<lparr>machine = looper, symbols = (\<lambda>_. None)\<rparr>"
  obtain s' where s': "exec_n (native_env False) True 2 (Some 0) (looper\<lparr>cpu := (cpu looper)\<lparr>resume_past_breakpoint := None\<rparr>\<rparr>)
     = Some (1, Some Breakpoint, None, s')" "pc (cpu s') = 0"
    using looper_stops by blast
  have ok: "machine_ok (machine ?m)" "looper = machine ?m" by (simp_all add: looper_ok)
  note r = run_until_breakpoint_returns [OF native_stdin.stdin_host_axioms _ ok, where n = 2, of False]
  from r s' obtain snap where snap: "run_until_breakpoint (native_env False) ?m = Some (Some (snap, ?m\<lparr>machine := s'\<rparr>))"
      "sn_is_breakpoint snap"
    by (fastforce simp: native_release native_quiet.quiet_host_axioms looper_settings)
  moreover from this r s' have "sn_hit_address snap = 0" by (auto simp: native_release)
  ultimately show ?thesis by blast
qed

text \<open>C38: resuming from a breakpoint makes progress: the slice that continues at the breakpoint the last one stopped
  at executes an instruction before it reports a breakpoint again, so a debugger that keeps resuming is not stuck. The
  host delivers no interrupts, whose handler could have a breakpoint of its own.\<close>

theorem resume_makes_progress:
  assumes "quiet_host E" "run_slice E budget s = Some (out, s')" "so_status out = Breakpoint" "budget \<noteq> 0"
    "resume_past_breakpoint (cpu s) = Some (pc (cpu s))"
  shows "0 < so_steps out"
  by (rule quiet_host.breakpoint_progress [OF assms])

theorem resume_makes_progress_witness:
  "\<exists>out s'. run_slice (native_env False) 5 looper = Some (out, s') \<and> so_status out = Breakpoint \<and> 0 < so_steps out"
  using looper_breakpoint resume_makes_progress [OF native_quiet.quiet_host_axioms, of False 5 looper] looper_resume
  by auto

section \<open>Sessions\<close>

text \<open>C39: no sequence of calls breaks the simulator: in every state that loading files, running, stepping, setting
  breakpoints, editing memory and registers, and listing can reach, in any order and with the host changing its
  own state in between, a call that returns leaves a well-formed machine, with one exception that panics: loading
  an ELF file in which the range of a segment, or of a section to be loaded, wraps around \<open>usize\<close> to an end inside the file.
  Every such load panics, and nothing else does.\<close>

theorem session_panics_exactly:
  assumes "stdin_host E" "\<not> overflow_checks E" "session elf_parse E m" "perform elf_parse E c m = Some r"
  shows "(r = None \<longleftrightarrow> (\<exists>bytes args elf. c = LoadBinary bytes args \<and> elf_parse bytes = Some elf \<and> elf_wraps bytes elf))
    \<and> (\<forall>m'. r = Some m' \<longrightarrow> machine_ok (machine m') \<and> session elf_parse E m')"
proof -
  have "machine_ok (machine m)" by (rule stdin_host.session_safe [OF assms(1-3)])
  then have "panics_iff (wrapping_load elf_parse c) r (\<lambda>m. machine_ok (machine m))"
    by (rule stdin_host.perform_safe [OF assms(1,2) _ assms(4)])
  moreover have "wrapping_load elf_parse c \<longleftrightarrow>
      (\<exists>bytes args elf. c = LoadBinary bytes args \<and> elf_parse bytes = Some elf \<and> elf_wraps bytes elf)"
    by (cases c) simp_all
  ultimately show ?thesis
    using session.call [OF assms(3), of c] assms(4) by (auto simp: panics_iff_def split: if_splits elim!: returnsE)
qed

theorem session_panics_exactly_witness:
  "(\<exists>m'. perform (\<lambda>_. None) (native_env False) (RunSlice 5) (add_breakpoint 4 (simulator_new fresh_host)) = Some (Some m')
     \<and> machine_ok (machine m'))
   \<and> perform (\<lambda>_. Some wrapping_elf) (native_env False) (LoadBinary [0xAA, 0xBB] []) (simulator_new fresh_host) = Some None"
proof
  let ?E = "native_env False" and ?m = "add_breakpoint 4 (simulator_new fresh_host)"
  have s: "session (\<lambda>_. None) ?E ?m"
    by (rule session.call [OF session.start, where c = "AddBreakpoint 4"]) simp
  obtain r where r: "perform (\<lambda>_. None) ?E (RunSlice 5) ?m = Some r" by simp
  from session_panics_exactly [OF native_stdin.stdin_host_axioms _ s r] r
  show "\<exists>m'. perform (\<lambda>_. None) ?E (RunSlice 5) ?m = Some (Some m') \<and> machine_ok (machine m')"
    by (auto simp: native_release simp del: perform.simps)
  obtain q where q: "perform (\<lambda>_. Some wrapping_elf) ?E (LoadBinary [0xAA, 0xBB] []) (simulator_new fresh_host) = Some q"
    by simp
  from session_panics_exactly [OF native_stdin.stdin_host_axioms _ session.start q] q wrapping_elf_wraps
  show "perform (\<lambda>_. Some wrapping_elf) ?E (LoadBinary [0xAA, 0xBB] []) (simulator_new fresh_host) = Some None"
    by (auto simp: native_release simp del: perform.simps)
qed

section \<open>The command line\<close>

text \<open>C40: \<open>--setreg\<close> reads back what is printed: a register number and a value, in decimal or in hexadecimal, are
  parsed to that register and that value and appended to the initialisations.\<close>

theorem setreg_roundtrip:
  assumes "0 < r" "r < 32" "vs = fmt_dec (unat v) \<or> vs = ''0x'' @ fmt_hex (unat v)"
  shows "parse_setreg config (''x'' @ fmt_dec r @ ''='' @ vs)
    = config\<lparr>register_inits := register_inits config @ [(r, v)]\<rparr>"
  by (rule parse_setreg_number [OF assms])

theorem setreg_roundtrip_witness:
  "parse_setreg SimConfig_default (''x'' @ fmt_dec 5 @ ''='' @ fmt_dec 7)
     = SimConfig_default\<lparr>register_inits := register_inits SimConfig_default @ [(5, 7)]\<rparr>"
  using setreg_roundtrip [of 5 "fmt_dec 7" 7 SimConfig_default] by simp

end
